(* ===== verification/Cal_Prelude.thy ===== *)
theory Cal_Prelude
  imports Main
begin

text \<open>
  Shared vocabulary of the calendar development: the type of JavaScript time values,
  the collection of unfolding rules used to evaluate the date model on concrete
  inputs, and generic facts on integer division and on lists that the component
  theories (\<open>Js_Date\<close>, \<open>Date_String\<close>, \<open>Month_Grid\<close>, \<open>Event_Locator\<close>,
  \<open>Calendar_Screen\<close>, \<open>Screen_Fetch\<close>, \<open>Add_Event_Form\<close> and the views) share.
\<close>

named_theorems date_eval
  "definitions of the date model unfolded when a witness evaluates it on a concrete input"

text \<open>
  A JavaScript \<open>Date\<close> holds a time value: a whole number of milliseconds since
  1970-01-01T00:00Z. The app only builds dates from calendar fields and from the
  device clock, so time values are whole numbers and are modelled as \<open>int\<close>
  (JavaScript numbers represent these exactly below \<open>2^53\<close>).
\<close>

type_synonym time_value = int

subsection \<open>Integer division\<close>

text \<open>JavaScript's \<open>Math.floor(a / k)\<close> is HOL's \<open>a div k\<close> on \<open>int\<close> for positive \<open>k\<close>.\<close>

lemma int_div_bounds:
  fixes a k :: int
  assumes "0 < k"
  shows "k * (a div k) \<le> a \<and> a < k * (a div k) + k"
proof -
  have "a = k * (a div k) + a mod k" by simp
  moreover have "0 \<le> a mod k" "a mod k < k" using assms by simp_all
  ultimately show ?thesis by linarith
qed

lemma mod_succ_zero:
  fixes a k :: int
  assumes "0 < k"
  shows "(a + 1) mod k = 0 \<longleftrightarrow> a mod k = k - 1"
proof -
  have r: "0 \<le> a mod k" "a mod k < k" using assms by simp_all
  have "(a + 1) mod k = (a mod k + 1) mod k" by (simp add: mod_add_left_eq)
  then show ?thesis using r
    by (cases "a mod k = k - 1") simp_all
qed

lemma div_succ:
  fixes a k :: int
  assumes "1 < k"
  shows "(a + 1) div k = a div k + (if (a + 1) mod k = 0 then 1 else 0)"
proof -
  have "(a + 1) div k = a div k + (a mod k + 1) div k"
    using div_add1_eq [of a 1 k] assms by simp
  moreover have r: "0 \<le> a mod k" "a mod k < k" using assms by simp_all
  moreover have "(a mod k + 1) div k = (if a mod k = k - 1 then 1 else 0)"
  proof (cases "a mod k = k - 1")
    case True
    then show ?thesis using assms by simp
  next
    case False
    with r have "0 \<le> a mod k + 1" "a mod k + 1 < k" by linarith+
    with False show ?thesis by simp
  qed
  ultimately show ?thesis using mod_succ_zero [of k a] assms by simp
qed

lemma mod_minus_mult:
  fixes y c k :: int
  shows "(y - c * k) mod k = y mod k"
proof -
  have "y - c * k = y + (- c) * k" by simp
  then show ?thesis by (simp only: mod_mult_self1)
qed

lemma div_step_at:
  fixes y c k :: int
  assumes "1 < k" and "c - 1 = m * k"
  shows "(y - c) div k + (if y mod k = 0 then 1 else 0) = (y - c + 1) div k"
proof -
  have "(y - c + 1) div k = (y - c) div k + (if (y - c + 1) mod k = 0 then 1 else 0)"
    using assms(1) by (rule div_succ)
  moreover have "y - c + 1 = y - m * k" using assms(2) by simp
  ultimately show ?thesis by (simp only: mod_minus_mult)
qed
lemma leap_divisors:
  fixes y :: int
  shows "y mod 100 = 0 \<Longrightarrow> y mod 4 = 0" and "y mod 400 = 0 \<Longrightarrow> y mod 100 = 0"
proof -
  have "y mod 100 mod 4 = y mod 4" "y mod 400 mod 100 = y mod 100"
    by (rule mod_mod_cancel, simp)+
  then show "y mod 100 = 0 \<Longrightarrow> y mod 4 = 0" and "y mod 400 = 0 \<Longrightarrow> y mod 100 = 0"
    by simp_all
qed

lemma div_mult_range:
  fixes t k d :: int
  assumes "0 < k"
  shows "t div k = d \<longleftrightarrow> d * k \<le> t \<and> t < d * k + k"
proof -
  have b: "k * (t div k) \<le> t" "t < k * (t div k) + k"
    using int_div_bounds [of k t] assms by auto
  show ?thesis
  proof
    assume "t div k = d"
    with b show "d * k \<le> t \<and> t < d * k + k" by (simp add: mult.commute)
  next
    assume r: "d * k \<le> t \<and> t < d * k + k"
    have "t = (t - d * k) + d * k" by simp
    then have "t div k = (t - d * k) div k + d"
      using assms by (metis div_mult_self1 less_irrefl add.commute)
    moreover have "(t - d * k) div k = 0" using r by simp
    ultimately show "t div k = d" by simp
  qed
qed

lemma mod7_shift: "(a::int) = b + 7 * k \<Longrightarrow> a mod 7 = b mod 7"
  by simp

subsection \<open>Lists\<close>

lemma nth_replicate_append:
  "i < n \<Longrightarrow> (replicate n x @ ys) ! i = x"
  "n \<le> i \<Longrightarrow> (replicate n x @ ys) ! i = ys ! (i - n)"
  by (simp_all add: nth_append)

end
