(* ===== verification/Js_Date.thy ===== *)
theory Js_Date
  imports Cal_Prelude
begin

text \<open>
  The JavaScript \<open>Date\<close> arithmetic the app relies on, after ECMAScript 2023
  section 21.4.1 (time values, \<open>Day\<close>, \<open>YearFromTime\<close>, \<open>MonthFromTime\<close>,
  \<open>DateFromTime\<close>, \<open>WeekDay\<close>, \<open>MakeTime\<close>, \<open>MakeDay\<close>, \<open>MakeDate\<close>), the
  \<open>Date\<close> constructor with calendar fields (21.4.2.1), the getters
  \<open>getFullYear\<close>, \<open>getMonth\<close>, \<open>getDate\<close>, \<open>getDay\<close> and \<open>setMonth\<close>.
  Local time is taken to be UTC (a fixed zone without daylight saving), so
  \<open>LocalTime\<close> and \<open>UTC\<close> are the identity; \<open>TimeClip\<close> (NaN beyond
  \<open>8.64e15\<close> ms) is not modelled. The year is found by an estimate and a
  correction of one step, and proved equal to the specification's "largest year
  whose first day is not after the time value".
\<close>

subsection \<open>Days and years\<close>

definition msPerDay :: int where
  [date_eval]: "msPerDay = 86400000"

definition Day :: "time_value \<Rightarrow> int" where
  [date_eval]: "Day t = t div msPerDay"

definition TimeWithinDay :: "time_value \<Rightarrow> int" where
  [date_eval]: "TimeWithinDay t = t mod msPerDay"

definition DaysInYear :: "int \<Rightarrow> int" where
  [date_eval]: "DaysInYear y =
     (if y mod 4 \<noteq> 0 then 365
      else if y mod 100 \<noteq> 0 then 366
      else if y mod 400 \<noteq> 0 then 365
      else 366)"

definition DayFromYear :: "int \<Rightarrow> int" where
  [date_eval]: "DayFromYear y =
     365 * (y - 1970) + (y - 1969) div 4 - (y - 1901) div 100 + (y - 1601) div 400"

definition TimeFromYear :: "int \<Rightarrow> time_value" where
  [date_eval]: "TimeFromYear y = msPerDay * DayFromYear y"

text \<open>
  \<open>year_from_day d\<close>: the year containing day number \<open>d\<close>. The estimate
  \<open>1970 + \<lfloor>400 d / 146097\<rfloor>\<close> (146097 days per 400 years) is off by at most one
  year, which one comparison on each side corrects.
\<close>

definition year_from_day :: "int \<Rightarrow> int" where
  [date_eval]: "year_from_day d =
     (let y = 1970 + (400 * d) div 146097
      in if DayFromYear (y + 1) \<le> d then y + 1
         else if d < DayFromYear y then y - 1
         else y)"

definition YearFromTime :: "time_value \<Rightarrow> int" where
  [date_eval]: "YearFromTime t = year_from_day (Day t)"

definition leap_of_year :: "int \<Rightarrow> int" where
  [date_eval]: "leap_of_year y = (if DaysInYear y = 366 then 1 else 0)"

definition InLeapYear :: "time_value \<Rightarrow> int" where
  [date_eval]: "InLeapYear t = leap_of_year (YearFromTime t)"

definition DayWithinYear :: "time_value \<Rightarrow> int" where
  [date_eval]: "DayWithinYear t = Day t - DayFromYear (YearFromTime t)"

subsection \<open>Months and dates\<close>

text \<open>
  \<open>month_start lp m\<close>: the day within the year on which month \<open>m\<close> (0 = January)
  starts, \<open>lp\<close> being 1 in a leap year; \<open>month_start lp 12\<close> is the length of the
  year. \<open>month_of_dwy\<close> is the case table of \<open>MonthFromTime\<close>, and
  \<open>DateFromTime\<close> subtracts the month's start as the specification's second table does.
\<close>

definition month_start :: "int \<Rightarrow> int \<Rightarrow> int" where
  [date_eval]: "month_start lp m =
     (if m = 0 then 0 else if m = 1 then 31 else if m = 2 then 59 + lp
      else if m = 3 then 90 + lp else if m = 4 then 120 + lp else if m = 5 then 151 + lp
      else if m = 6 then 181 + lp else if m = 7 then 212 + lp else if m = 8 then 243 + lp
      else if m = 9 then 273 + lp else if m = 10 then 304 + lp else if m = 11 then 334 + lp
      else 365 + lp)"

definition month_of_dwy :: "int \<Rightarrow> int \<Rightarrow> int" where
  [date_eval]: "month_of_dwy lp d =
     (if d < 31 then 0 else if d < 59 + lp then 1 else if d < 90 + lp then 2
      else if d < 120 + lp then 3 else if d < 151 + lp then 4 else if d < 181 + lp then 5
      else if d < 212 + lp then 6 else if d < 243 + lp then 7 else if d < 273 + lp then 8
      else if d < 304 + lp then 9 else if d < 334 + lp then 10 else 11)"

definition MonthFromTime :: "time_value \<Rightarrow> int" where
  [date_eval]: "MonthFromTime t = month_of_dwy (InLeapYear t) (DayWithinYear t)"

definition DateFromTime :: "time_value \<Rightarrow> int" where
  [date_eval]: "DateFromTime t = DayWithinYear t - month_start (InLeapYear t) (MonthFromTime t) + 1"

definition WeekDay :: "time_value \<Rightarrow> int" where
  [date_eval]: "WeekDay t = (Day t + 4) mod 7"

definition days_in_month :: "int \<Rightarrow> int \<Rightarrow> int" where
  [date_eval]: "days_in_month y m =
     month_start (leap_of_year y) (m + 1) - month_start (leap_of_year y) m"

subsection \<open>Building time values\<close>

definition MakeTime :: "int \<Rightarrow> int \<Rightarrow> int \<Rightarrow> int \<Rightarrow> int" where
  [date_eval]: "MakeTime h m s milli = h * 3600000 + m * 60000 + s * 1000 + milli"

text \<open>
  \<open>MakeDay\<close> normalises the month first (\<open>ym = year + \<lfloor>month / 12\<rfloor>\<close>,
  \<open>mn = month mod 12\<close>), takes the first day of that month and adds \<open>date - 1\<close>
  days, so out-of-range months and dates (\<open>month + 1\<close>, date 0) overflow into the
  neighbouring months as in JavaScript.
\<close>

definition MakeDay :: "int \<Rightarrow> int \<Rightarrow> int \<Rightarrow> int" where
  [date_eval]: "MakeDay year month date =
     (let ym = year + month div 12; mn = month mod 12
      in DayFromYear ym + month_start (leap_of_year ym) mn + date - 1)"

definition MakeDate :: "int \<Rightarrow> int \<Rightarrow> time_value" where
  [date_eval]: "MakeDate day time = day * msPerDay + time"

text \<open>
  \<open>new Date(y, m, d, h, mi, s, ms)\<close>: a year from 0 to 99 means 1900 to 1999
  (ECMAScript 21.4.2.1 step 5.j); the app always passes \<open>0\<close> for omitted fields.
\<close>

definition js_year :: "int \<Rightarrow> int" where
  [date_eval]: "js_year y = (if 0 \<le> y \<and> y \<le> 99 then 1900 + y else y)"

definition Date_new :: "int \<Rightarrow> int \<Rightarrow> int \<Rightarrow> int \<Rightarrow> int \<Rightarrow> int \<Rightarrow> int \<Rightarrow> time_value" where
  [date_eval]: "Date_new y m d h mi s milli = MakeDate (MakeDay (js_year y) m d) (MakeTime h mi s milli)"

definition getFullYear :: "time_value \<Rightarrow> int" where
  [date_eval]: "getFullYear t = YearFromTime t"

definition getMonth :: "time_value \<Rightarrow> int" where
  [date_eval]: "getMonth t = MonthFromTime t"

definition getDate :: "time_value \<Rightarrow> int" where
  [date_eval]: "getDate t = DateFromTime t"

definition getDay :: "time_value \<Rightarrow> int" where
  [date_eval]: "getDay t = WeekDay t"

text \<open>\<open>Date.prototype.setMonth(m)\<close> keeps the date of the month and the time of day.\<close>

definition setMonth :: "time_value \<Rightarrow> int \<Rightarrow> time_value" where
  [date_eval]: "setMonth t m =
     MakeDate (MakeDay (YearFromTime t) m (DateFromTime t)) (TimeWithinDay t)"

text \<open>\<open>Q_leap x\<close>: the number of leap days up to year \<open>x\<close>, a proof device.\<close>

definition Q_leap :: "int \<Rightarrow> int" where
  "Q_leap x = x div 4 - x div 100 + x div 400"

subsection \<open>Reference calendar\<close>

text \<open>
  Independent descriptions of the Gregorian calendar against which the ECMAScript
  arithmetic is checked: the leap-year rule, the table of month lengths, and
  Sakamoto's day-of-week formula (0 = Sunday, months counted from 0).
\<close>

definition is_leap_year :: "int \<Rightarrow> bool" where
  [date_eval]: "is_leap_year y \<longleftrightarrow> (y mod 4 = 0 \<and> y mod 100 \<noteq> 0) \<or> y mod 400 = 0"

definition month_length :: "int \<Rightarrow> int \<Rightarrow> int" where
  [date_eval]: "month_length y m =
     (if m = 1 then (if is_leap_year y then 29 else 28)
      else if m = 3 \<or> m = 5 \<or> m = 8 \<or> m = 10 then 30 else 31)"

definition sakamoto_weekday :: "int \<Rightarrow> int \<Rightarrow> int \<Rightarrow> int" where
  [date_eval]: "sakamoto_weekday y m d =
     (let y' = (if m < 2 then y - 1 else y)
      in (y' + y' div 4 - y' div 100 + y' div 400 + [0, 3, 2, 5, 0, 3, 5, 1, 4, 6, 2, 4] ! nat m + d) mod 7)"

subsection \<open>Facts on years\<close>

lemma DayFromYear_bounds:
  "146097 * y - 287812090 \<le> 400 * DayFromYear y"
  "400 * DayFromYear y \<le> 146097 * y - 287810090"
proof -
  define Y where "Y = y - 1970"
  define q1 where "q1 = (Y + 1) div 4"
  define q2 where "q2 = (Y + 69) div 100"
  define q3 where "q3 = (Y + 369) div 400"
  have "400 * DayFromYear y = 146000 * Y + 400 * q1 - 400 * q2 + 400 * q3"
    by (simp add: DayFromYear_def Y_def q1_def q2_def q3_def)
  moreover have "4 * q1 \<le> Y + 1" "Y + 1 < 4 * q1 + 4"
    using int_div_bounds [of 4 "Y + 1"] unfolding q1_def by simp_all
  moreover have "100 * q2 \<le> Y + 69" "Y + 69 < 100 * q2 + 100"
    using int_div_bounds [of 100 "Y + 69"] unfolding q2_def by simp_all
  moreover have "400 * q3 \<le> Y + 369" "Y + 369 < 400 * q3 + 400"
    using int_div_bounds [of 400 "Y + 369"] unfolding q3_def by simp_all
  ultimately have "146097 * Y - 1000 \<le> 400 * DayFromYear y"
    "400 * DayFromYear y \<le> 146097 * Y + 1000"
    by linarith+
  then show "146097 * y - 287812090 \<le> 400 * DayFromYear y"
    "400 * DayFromYear y \<le> 146097 * y - 287810090"
    unfolding Y_def by simp_all
qed

lemma DayFromYear_Suc: "DayFromYear (y + 1) = DayFromYear y + DaysInYear y"
proof -
  have a: "(y - 1969) div 4 + (if y mod 4 = 0 then 1 else 0) = (y - 1969 + 1) div 4"
    by (rule div_step_at [where m = 492]) simp_all
  have b: "(y - 1901) div 100 + (if y mod 100 = 0 then 1 else 0) = (y - 1901 + 1) div 100"
    by (rule div_step_at [where m = 19]) simp_all
  have c: "(y - 1601) div 400 + (if y mod 400 = 0 then 1 else 0) = (y - 1601 + 1) div 400"
    by (rule div_step_at [where m = 4]) simp_all
  have e: "y + 1 - 1969 = y - 1969 + 1" "y + 1 - 1901 = y - 1901 + 1"
    "y + 1 - 1601 = y - 1601 + 1" "y + 1 - 1970 = (y - 1970) + 1" by simp_all
  have "DayFromYear (y + 1) = 365 * (y - 1970) + 365 + (y - 1969 + 1) div 4
      - (y - 1901 + 1) div 100 + (y - 1601 + 1) div 400"
    unfolding DayFromYear_def e by (simp only: distrib_left mult_1_right)
  also have "\<dots> = DayFromYear y + DaysInYear y"
    unfolding a [symmetric] b [symmetric] c [symmetric] DayFromYear_def DaysInYear_def
    using leap_divisors [of y] by (simp split: if_split)
  finally show ?thesis .
qed
lemma DaysInYear_range: "365 \<le> DaysInYear y \<and> DaysInYear y \<le> 366"
  by (simp add: DaysInYear_def)

lemma leap_of_year_range: "leap_of_year y = 0 \<or> leap_of_year y = 1"
  by (simp add: leap_of_year_def)

lemma DaysInYear_leap: "DaysInYear y = 365 + leap_of_year y"
  by (simp add: DaysInYear_def leap_of_year_def)

lemma DayFromYear_strict_mono:
  assumes "y < y'"
  shows "DayFromYear y < DayFromYear y'"
  using DayFromYear_bounds [of y] DayFromYear_bounds [of y'] assms by linarith

lemma DayFromYear_mono_iff: "DayFromYear y \<le> DayFromYear y' \<longleftrightarrow> y \<le> y'"
  using DayFromYear_strict_mono [of y y'] DayFromYear_strict_mono [of y' y]
  by (cases y y' rule: linorder_cases) auto

lemma year_from_day_bounds:
  "DayFromYear (year_from_day d) \<le> d \<and> d < DayFromYear (year_from_day d + 1)"
proof -
  define q where "q = (400 * d) div 146097"
  have q: "146097 * q \<le> 400 * d" "400 * d < 146097 * q + 146097"
    using int_div_bounds [of 146097 "400 * d"] unfolding q_def by simp_all
  have lo: "DayFromYear (1969 + q) \<le> d"
    using DayFromYear_bounds [of "1969 + q", simplified distrib_left] q by linarith
  have hi: "d < DayFromYear (1972 + q)"
    using DayFromYear_bounds [of "1972 + q", simplified distrib_left] q by linarith
  show ?thesis
    using lo hi unfolding year_from_day_def Let_def q_def [symmetric]
    by (auto simp: add.commute add.left_commute)
qed

lemma year_from_day_unique:
  assumes "DayFromYear y \<le> d" and "d < DayFromYear (y + 1)"
  shows "year_from_day d = y"
proof -
  let ?z = "year_from_day d"
  have z: "DayFromYear ?z \<le> d" "d < DayFromYear (?z + 1)"
    using year_from_day_bounds [of d] by auto
  have "\<not> y + 1 \<le> ?z"
    using assms(2) z(1) DayFromYear_mono_iff [of "y + 1" ?z] by linarith
  moreover have "\<not> ?z + 1 \<le> y"
    using assms(1) z(2) DayFromYear_mono_iff [of "?z + 1" y] by linarith
  ultimately show ?thesis by linarith
qed

lemma year_from_day_DayFromYear:
  assumes "0 \<le> k" and "k < DaysInYear y"
  shows "year_from_day (DayFromYear y + k) = y"
  using assms DayFromYear_Suc [of y] by (intro year_from_day_unique) simp_all

lemma DayWithinYear_range: "0 \<le> DayWithinYear t \<and> DayWithinYear t < DaysInYear (YearFromTime t)"
  using year_from_day_bounds [of "Day t"] DayFromYear_Suc [of "YearFromTime t"]
  unfolding DayWithinYear_def YearFromTime_def by simp

subsection \<open>Facts on months\<close>

lemma month_cases:
  fixes m :: int
  assumes "0 \<le> m" and "m < 12"
  shows "m = 0 \<or> m = 1 \<or> m = 2 \<or> m = 3 \<or> m = 4 \<or> m = 5 \<or> m = 6 \<or> m = 7 \<or>
    m = 8 \<or> m = 9 \<or> m = 10 \<or> m = 11"
  using assms by arith

lemma month_of_dwy_bounds:
  assumes "0 \<le> lp" "lp \<le> 1" "0 \<le> d" "d < 365 + lp"
  shows "0 \<le> month_of_dwy lp d \<and> month_of_dwy lp d < 12 \<and>
    month_start lp (month_of_dwy lp d) \<le> d \<and> d < month_start lp (month_of_dwy lp d + 1)"
  using assms unfolding month_of_dwy_def by (simp add: month_start_def)

lemma month_of_dwy_unique:
  assumes "0 \<le> lp" "lp \<le> 1" "0 \<le> m" "m < 12"
    and "month_start lp m \<le> d" "d < month_start lp (m + 1)"
  shows "month_of_dwy lp d = m"
  using month_cases [OF assms(3,4)] assms(1,2,5,6)
  by (elim disjE) (simp_all add: month_of_dwy_def month_start_def)

lemma days_in_month_range:
  assumes "0 \<le> m" "m < 12"
  shows "28 \<le> days_in_month y m \<and> days_in_month y m \<le> 31"
  using month_cases [OF assms] leap_of_year_range [of y]
  by (elim disjE) (auto simp: days_in_month_def month_start_def)

lemma month_start_range:
  assumes "0 \<le> lp" "lp \<le> 1" "0 \<le> m" "m < 12"
  shows "0 \<le> month_start lp m \<and> month_start lp (m + 1) \<le> 365 + lp"
  using month_cases [OF assms(3,4)] assms(1,2)
  by (elim disjE) (simp_all add: month_start_def)

lemma InLeapYear_range: "0 \<le> InLeapYear t \<and> InLeapYear t \<le> 1"
  using leap_of_year_range [of "YearFromTime t"] unfolding InLeapYear_def by auto

lemma DayWithinYear_leap_range: "0 \<le> DayWithinYear t \<and> DayWithinYear t < 365 + InLeapYear t"
  using DayWithinYear_range [of t] DaysInYear_leap [of "YearFromTime t"]
  unfolding InLeapYear_def by simp

lemma MonthFromTime_bounds:
  "0 \<le> MonthFromTime t \<and> MonthFromTime t < 12 \<and>
   month_start (InLeapYear t) (MonthFromTime t) \<le> DayWithinYear t \<and>
   DayWithinYear t < month_start (InLeapYear t) (MonthFromTime t + 1)"
  using month_of_dwy_bounds InLeapYear_range [of t] DayWithinYear_leap_range [of t]
  unfolding MonthFromTime_def by blast

lemma MakeDay_in_year:
  assumes "0 \<le> m" and "m < 12"
  shows "MakeDay y m dt = DayFromYear y + month_start (leap_of_year y) m + dt - 1"
  using assms by (simp add: MakeDay_def)

lemma MakeDay_normalise: "MakeDay y m dt = MakeDay (y + m div 12) (m mod 12) dt"
  by (simp add: MakeDay_def)

text \<open>The calendar fields of a time value give back its day number.\<close>

lemma MakeDay_fields: "MakeDay (YearFromTime t) (MonthFromTime t) (DateFromTime t) = Day t"
  using MonthFromTime_bounds [of t]
  by (simp add: MakeDay_in_year DateFromTime_def DayWithinYear_def InLeapYear_def)

text \<open>A valid calendar date is read back field by field.\<close>

lemma fields_MakeDay:
  assumes "0 \<le> m" "m < 12" "1 \<le> dt" "dt \<le> days_in_month y m"
    and "Day t = MakeDay y m dt"
  shows "YearFromTime t = y \<and> MonthFromTime t = m \<and> DateFromTime t = dt"
proof -
  let ?lp = "leap_of_year y"
  define k where "k = month_start ?lp m + dt - 1"
  have lp: "0 \<le> ?lp" "?lp \<le> 1" using leap_of_year_range [of y] by auto
  have ms: "0 \<le> month_start ?lp m" "month_start ?lp (m + 1) \<le> 365 + ?lp"
    using month_start_range [OF lp assms(1,2)] by auto
  have k: "0 \<le> k" "k < DaysInYear y" "month_start ?lp m \<le> k" "k < month_start ?lp (m + 1)"
    using ms assms(3,4) DaysInYear_leap [of y] unfolding k_def days_in_month_def by simp_all
  have day: "Day t = DayFromYear y + k"
    using assms(5) MakeDay_in_year [OF assms(1,2)] unfolding k_def by simp
  have y: "YearFromTime t = y"
    unfolding YearFromTime_def day using k(1,2) by (rule year_from_day_DayFromYear)
  have dwy: "DayWithinYear t = k" and il: "InLeapYear t = ?lp"
    using y day by (simp_all add: DayWithinYear_def InLeapYear_def)
  have m: "MonthFromTime t = m"
    unfolding MonthFromTime_def dwy il using lp assms(1,2) k(3,4) by (rule month_of_dwy_unique)
  show ?thesis using y m dwy il unfolding DateFromTime_def k_def by simp
qed

lemma DateFromTime_bounds:
  "1 \<le> DateFromTime t \<and> DateFromTime t \<le> days_in_month (YearFromTime t) (MonthFromTime t)"
  using MonthFromTime_bounds [of t]
  by (simp add: DateFromTime_def days_in_month_def InLeapYear_def)

lemma DateFromTime_range: "1 \<le> DateFromTime t \<and> DateFromTime t \<le> 31"
proof -
  have "0 \<le> MonthFromTime t" "MonthFromTime t < 12" using MonthFromTime_bounds [of t] by auto
  from days_in_month_range [OF this, of "YearFromTime t"] show ?thesis
    using DateFromTime_bounds [of t] by auto
qed

lemma Day_MakeDate:
  assumes "0 \<le> tm" and "tm < msPerDay"
  shows "Day (MakeDate d tm) = d \<and> TimeWithinDay (MakeDate d tm) = tm"
proof -
  have "Day (MakeDate d tm) = d"
    unfolding Day_def MakeDate_def using assms by (simp add: div_mult_range msPerDay_def)
  moreover have "TimeWithinDay (MakeDate d tm) = tm"
    unfolding TimeWithinDay_def MakeDate_def using assms by (simp add: msPerDay_def)
  ultimately show ?thesis ..
qed

lemma MakeDay_next_month_zero:
  assumes "0 \<le> m" and "m < 12"
  shows "MakeDay y (m + 1) 0 = MakeDay y m 1 + days_in_month y m - 1"
proof (cases "m = 11")
  case True
  have "MakeDay y (m + 1) 0 = DayFromYear (y + 1) - 1"
    using True by (simp add: MakeDay_def month_start_def)
  also have "\<dots> = MakeDay y m 1 + days_in_month y m - 1"
    using True DayFromYear_Suc [of y] DaysInYear_leap [of y]
    by (simp add: MakeDay_def days_in_month_def month_start_def)
  finally show ?thesis .
next
  case False
  with assms have "0 \<le> m + 1" "m + 1 < 12" by simp_all
  then show ?thesis using assms
    by (simp add: MakeDay_in_year days_in_month_def)
qed

lemma TimeFromYear_le_iff: "TimeFromYear y \<le> t \<longleftrightarrow> DayFromYear y \<le> Day t"
  using int_div_bounds [of msPerDay t]
  unfolding TimeFromYear_def Day_def msPerDay_def by auto

lemma MakeDay_shift: "MakeDay y m d = MakeDay y m 1 + (d - 1)"
  by (simp add: MakeDay_def Let_def)

lemma Day_Date_new:
  assumes "0 \<le> MakeTime h mi s milli" and "MakeTime h mi s milli < msPerDay"
  shows "Day (Date_new y m d h mi s milli) = MakeDay (js_year y) m d"
  using Day_MakeDate [OF assms] unfolding Date_new_def by simp

lemma Day_Date_new_midnight: "Day (Date_new y m d 0 0 0 0) = MakeDay (js_year y) m d"
  by (rule Day_Date_new) (simp_all add: MakeTime_def msPerDay_def)

lemma js_year_id: "\<not> (0 \<le> y \<and> y \<le> 99) \<Longrightarrow> js_year y = y"
  by (simp add: js_year_def)

lemma DayFromYear_Q: "DayFromYear y = 365 * y - 719527 + Q_leap (y - 1)"
proof -
  have "(y - 1969) div 4 = (y - 1) div 4 - 492"
    using div_mult_self1 [of 4 "y - 1969" 492] by simp
  moreover have "(y - 1901) div 100 = (y - 1) div 100 - 19"
    using div_mult_self1 [of 100 "y - 1901" 19] by simp
  moreover have "(y - 1601) div 400 = (y - 1) div 400 - 4"
    using div_mult_self1 [of 400 "y - 1601" 4] by simp
  ultimately show ?thesis by (simp add: DayFromYear_def Q_leap_def)
qed

lemma leap_Q: "leap_of_year y = Q_leap y - Q_leap (y - 1)"
  using DayFromYear_Suc [of y] DayFromYear_Q [of y] DayFromYear_Q [of "y + 1"] DaysInYear_leap [of y]
  by simp

lemma MakeDay_weekday_sakamoto:
  assumes "0 \<le> m" and "m < 12"
  shows "(MakeDay y m d + 4) mod 7 = sakamoto_weekday y m d"
proof -
  define y' where "y' = (if m < 2 then y - 1 else y)"
  define t where "t = ([0, 3, 2, 5, 0, 3, 5, 1, 4, 6, 2, 4] :: int list) ! nat m"
  define c where "c = ([0, 4, 8, 12, 17, 21, 25, 30, 34, 38, 43, 47] :: int list) ! nat m"
  have md: "MakeDay y m d = 365 * y - 719527 + Q_leap (y - 1) + month_start (Q_leap y - Q_leap (y - 1)) m + d - 1"
    using MakeDay_in_year [OF assms] DayFromYear_Q [of y] leap_Q [of y] by simp
  have "month_start (Q_leap y - Q_leap (y - 1)) m + 364 * y - 719524 + Q_leap (y - 1) =
        y' - y + Q_leap y' + t + 7 * (52 * y - 102789 + c)"
    unfolding y'_def t_def c_def using month_cases [OF assms]
    by (elim disjE) (simp_all add: month_start_def)
  then have "MakeDay y m d + 4 = (y' + Q_leap y' + t + d) + 7 * (52 * y - 102789 + c)"
    unfolding md by simp
  then have "(MakeDay y m d + 4) mod 7 = (y' + Q_leap y' + t + d) mod 7" by (rule mod7_shift)
  moreover have "y' + Q_leap y' + t + d = y' + y' div 4 - y' div 100 + y' div 400 + t + d"
    by (simp add: Q_leap_def)
  ultimately show ?thesis unfolding sakamoto_weekday_def Let_def y'_def [symmetric] t_def [symmetric]
    by simp
qed

lemma days_in_month_length:
  assumes "0 \<le> m" and "m < 12"
  shows "days_in_month y m = month_length y m"
  using month_cases [OF assms] leap_divisors [of y]
  by (elim disjE) (auto simp: days_in_month_def month_start_def month_length_def
      leap_of_year_def DaysInYear_def is_leap_year_def)

lemma fields_Date_new:
  assumes "\<not> (0 \<le> y \<and> y \<le> 99)" "0 \<le> m" "m < 12" "1 \<le> d" "d \<le> days_in_month y m"
  shows "getFullYear (Date_new y m d 0 0 0 0) = y \<and> getMonth (Date_new y m d 0 0 0 0) = m \<and>
    getDate (Date_new y m d 0 0 0 0) = d"
  using fields_MakeDay [OF assms(2-5)] Day_Date_new_midnight [of y m d] js_year_id [OF assms(1)]
  by (simp add: getFullYear_def getMonth_def getDate_def)

subsection \<open>Properties of the date model\<close>

text \<open>
  The executable year computation (an estimate corrected by one step) is the year
  ECMAScript specifies: the largest year whose first instant is not after the time value.
\<close>

lemma YearFromTime_is_greatest: "YearFromTime t = (GREATEST y. TimeFromYear y \<le> t)"
proof (rule Greatest_equality [symmetric])
  show "TimeFromYear (YearFromTime t) \<le> t"
    using year_from_day_bounds [of "Day t"] by (simp add: TimeFromYear_le_iff YearFromTime_def)
next
  fix y assume "TimeFromYear y \<le> t"
  then have "DayFromYear y < DayFromYear (YearFromTime t + 1)"
    using year_from_day_bounds [of "Day t"] by (simp add: TimeFromYear_le_iff YearFromTime_def)
  then show "y \<le> YearFromTime t"
    using DayFromYear_mono_iff [of "YearFromTime t + 1" y] by linarith
qed

text \<open>
  Calendar fields round-trip through the \<open>Date\<close> constructor: for a year outside
  0..99, a month 0..11 and a day that exists in that month, \<open>new Date(y, m, d)\<close> reads
  back as \<open>y\<close>, \<open>m\<close>, \<open>d\<close>; and rebuilding any date from its fields gives its midnight.
\<close>

lemma Date_new_roundtrip:
  assumes "\<not> (0 \<le> y \<and> y \<le> 99)" and "0 \<le> m" and "m < 12" and "1 \<le> d"
    and "d \<le> month_length y m"
    and "\<not> (0 \<le> getFullYear t \<and> getFullYear t \<le> 99)"
  shows "getFullYear (Date_new y m d 0 0 0 0) = y \<and> getMonth (Date_new y m d 0 0 0 0) = m \<and>
      getDate (Date_new y m d 0 0 0 0) = d \<and>
    Date_new (getFullYear t) (getMonth t) (getDate t) 0 0 0 0 = t - TimeWithinDay t"
proof -
  have f: "getFullYear (Date_new y m d 0 0 0 0) = y \<and> getMonth (Date_new y m d 0 0 0 0) = m \<and>
      getDate (Date_new y m d 0 0 0 0) = d"
    using fields_Date_new [OF assms(1-4)] assms(5) days_in_month_length [OF assms(2,3)] by simp
  have "Date_new (getFullYear t) (getMonth t) (getDate t) 0 0 0 0 = Day t * msPerDay"
    using MakeDay_fields [of t] js_year_id [OF assms(6)]
    by (simp add: Date_new_def MakeDate_def MakeTime_def getFullYear_def getMonth_def getDate_def)
  also have "\<dots> = t - TimeWithinDay t"
    by (simp add: Day_def TimeWithinDay_def minus_mod_eq_mult_div)
  finally show ?thesis using f by simp
qed

lemma Date_new_roundtrip_example:
  "getFullYear (Date_new 2024 1 29 0 0 0 0) = 2024 \<and> getMonth (Date_new 2024 1 29 0 0 0 0) = 1 \<and>
   getDate (Date_new 2024 1 29 0 0 0 0) = 29 \<and>
   Date_new (getFullYear 1710064800000) (getMonth 1710064800000) (getDate 1710064800000) 0 0 0 0 =
     1710064800000 - TimeWithinDay 1710064800000"
proof -
  have "\<not> (0 \<le> (2024::int) \<and> (2024::int) \<le> 99)" "0 \<le> (1::int)" "(1::int) < 12" "1 \<le> (29::int)"
    "29 \<le> month_length 2024 1" "\<not> (0 \<le> getFullYear 1710064800000 \<and> getFullYear 1710064800000 \<le> 99)"
    by (simp_all add: date_eval)
  then show ?thesis by (rule Date_new_roundtrip)
qed

text \<open>
  The weekday JavaScript computes for \<open>new Date(y, m, d)\<close> is the one Sakamoto's
  formula gives for that calendar date.
\<close>

lemma getDay_Date_new_sakamoto:
  assumes "\<not> (0 \<le> y \<and> y \<le> 99)" and "0 \<le> m" and "m < 12"
  shows "getDay (Date_new y m d 0 0 0 0) = sakamoto_weekday y m d"
  using MakeDay_weekday_sakamoto [OF assms(2,3)] js_year_id [OF assms(1)]
  by (simp add: getDay_def WeekDay_def Day_Date_new_midnight)

lemma getDay_Date_new_sakamoto_example:
  "getDay (Date_new 2024 1 1 0 0 0 0) = sakamoto_weekday 2024 1 1 \<and> sakamoto_weekday 2024 1 1 = 4"
proof -
  have "getDay (Date_new 2024 1 1 0 0 0 0) = sakamoto_weekday 2024 1 1"
    by (rule getDay_Date_new_sakamoto) simp_all
  moreover have "sakamoto_weekday 2024 1 1 = 4" by (simp add: sakamoto_weekday_def)
  ultimately show ?thesis ..
qed

end
