(* ===== verification/Month_Grid.thy ===== *)
theory Month_Grid
  imports Js_Date
begin

text \<open>
  The grid builder of the calendar screen, \<open>getDaysInMonth\<close> in
  \<open>src/app/(tabs)/(home)/index.tsx\<close>: for the month of a date, one \<open>null\<close>
  cell per weekday before the first of the month, then one \<open>Date\<close> per day.
  A cell is \<open>None\<close> (the source's \<open>null\<close>) or \<open>Some\<close> time value.
\<close>

type_synonym grid_cell = "time_value option"

definition getDaysInMonth :: "time_value \<Rightarrow> grid_cell list" where
  "getDaysInMonth date =
     (let year = getFullYear date;
          month = getMonth date;
          firstDay = Date_new year month 1 0 0 0 0;
          lastDay = Date_new year (month + 1) 0 0 0 0 0;
          daysInMonth = getDate lastDay;
          startingDayOfWeek = getDay firstDay
      in replicate (nat startingDayOfWeek) None @
         map (\<lambda>day. Some (Date_new year month day 0 0 0 0)) [1..daysInMonth])"

text \<open>
  The month the grid shows, as calendar fields: the year the constructor really uses
  (\<open>js_year\<close>) and the month of the anchor date.
\<close>

definition grid_year :: "time_value \<Rightarrow> int" where
  "grid_year date = js_year (getFullYear date)"

text \<open>
  The Grid Builder's contract (spec section 4.1), stated over calendar fields and the
  reference calendar: as many blanks as the weekday of the 1st (Sakamoto's formula),
  then the days 1 to the month's length from the table.
\<close>

definition date_fields :: "time_value \<Rightarrow> int \<times> int \<times> int" where
  "date_fields t = (getFullYear t, getMonth t, getDate t)"

definition buildMonthGrid :: "int \<Rightarrow> int \<Rightarrow> (int \<times> int \<times> int) option list" where
  "buildMonthGrid year month =
     replicate (nat (sakamoto_weekday year month 1)) None @
     map (\<lambda>day. Some (year, month, day)) [1..month_length year month]"

subsection \<open>Shape of the grid\<close>

lemma grid_days_in_month:
  "getDate (Date_new (getFullYear date) (getMonth date + 1) 0 0 0 0 0) =
   days_in_month (grid_year date) (getMonth date)"
proof -
  let ?y = "grid_year date" and ?m = "getMonth date"
  have m: "0 \<le> ?m" "?m < 12" using MonthFromTime_bounds [of date] by (simp_all add: getMonth_def)
  have day: "Day (Date_new (getFullYear date) (?m + 1) 0 0 0 0 0) = MakeDay ?y ?m (days_in_month ?y ?m)"
    using MakeDay_next_month_zero [OF m, of ?y] MakeDay_shift [of ?y ?m "days_in_month ?y ?m"]
    by (simp add: Day_Date_new_midnight grid_year_def)
  have "1 \<le> days_in_month ?y ?m" using days_in_month_range [OF m, of ?y] by simp
  from fields_MakeDay [OF m this order_refl day] show ?thesis by (simp add: getDate_def)
qed

lemma grid_first_weekday:
  "getDay (Date_new (getFullYear date) (getMonth date) 1 0 0 0 0) =
   (MakeDay (grid_year date) (getMonth date) 1 + 4) mod 7"
  by (simp add: getDay_def WeekDay_def Day_Date_new_midnight grid_year_def)

lemma getDaysInMonth_eq:
  "getDaysInMonth date =
     replicate (nat ((MakeDay (grid_year date) (getMonth date) 1 + 4) mod 7)) None @
     map (\<lambda>day. Some (Date_new (getFullYear date) (getMonth date) day 0 0 0 0))
       [1..days_in_month (grid_year date) (getMonth date)]"
  unfolding getDaysInMonth_def Let_def grid_days_in_month grid_first_weekday ..

lemma grid_month_range: "0 \<le> getMonth date \<and> getMonth date < 12"
  using MonthFromTime_bounds [of date] by (simp add: getMonth_def)

lemma grid_blanks_range:
  "0 \<le> (MakeDay y m 1 + 4) mod 7 \<and> (MakeDay y m 1 + 4) mod 7 < 7"
  by simp

lemma getDaysInMonth_fields:
  assumes "\<not> (0 \<le> getFullYear date \<and> getFullYear date \<le> 99)"
  shows "map (map_option date_fields) (getDaysInMonth date) =
    buildMonthGrid (getFullYear date) (getMonth date)"
proof -
  let ?y = "getFullYear date" and ?m = "getMonth date"
  have m: "0 \<le> ?m" "?m < 12" using grid_month_range [of date] by auto
  have gy: "grid_year date = ?y" using js_year_id [OF assms] by (simp add: grid_year_def)
  have dim: "days_in_month ?y ?m = month_length ?y ?m" by (rule days_in_month_length [OF m])
  have wd: "(MakeDay ?y ?m 1 + 4) mod 7 = sakamoto_weekday ?y ?m 1"
    by (rule MakeDay_weekday_sakamoto [OF m])
  have cells: "map (map_option date_fields \<circ> (\<lambda>day. Some (Date_new ?y ?m day 0 0 0 0)))
      [1..month_length ?y ?m] = map (\<lambda>day. Some (?y, ?m, day)) [1..month_length ?y ?m]"
  proof (rule map_cong [OF refl])
    fix day assume "day \<in> set [1..month_length ?y ?m]"
    then have "1 \<le> day" "day \<le> days_in_month ?y ?m" using dim by simp_all
    from fields_Date_new [OF assms m this] show
      "(map_option date_fields \<circ> (\<lambda>day. Some (Date_new ?y ?m day 0 0 0 0))) day = Some (?y, ?m, day)"
      by (simp add: date_fields_def)
  qed
  show ?thesis
    unfolding getDaysInMonth_eq gy dim wd buildMonthGrid_def using cells by simp
qed

lemma getDaysInMonth_nth:
  assumes "getDaysInMonth date ! i = Some c" and "i < length (getDaysInMonth date)"
  defines "b \<equiv> (MakeDay (grid_year date) (getMonth date) 1 + 4) mod 7"
  shows "nat b \<le> i \<and> c = Date_new (getFullYear date) (getMonth date) (1 + int (i - nat b)) 0 0 0 0"
proof -
  let ?n = "days_in_month (grid_year date) (getMonth date)"
  have len: "length (getDaysInMonth date) = nat b + nat ?n"
    unfolding getDaysInMonth_eq b_def by simp
  have ib: "nat b \<le> i"
    using assms(1) unfolding getDaysInMonth_eq b_def [symmetric]
    by (cases "i < nat b") (simp_all add: nth_append)
  moreover have k: "i - nat b < nat ?n" using assms(2) ib len by simp
  then have up: "[1..?n] ! (i - nat b) = 1 + int (i - nat b)" by (auto intro!: nth_upto)
  have "getDaysInMonth date ! i =
      Some (Date_new (getFullYear date) (getMonth date) ([1..?n] ! (i - nat b)) 0 0 0 0)"
    using ib k unfolding getDaysInMonth_eq b_def [symmetric] by (simp add: nth_append)
  then have "getDaysInMonth date ! i =
      Some (Date_new (getFullYear date) (getMonth date) (1 + int (i - nat b)) 0 0 0 0)"
    by (simp only: up)
  ultimately show ?thesis using assms(1) by simp
qed

subsection \<open>Properties of the grid\<close>

text \<open>
  C1. For a year outside 0..99, the grid \<open>getDaysInMonth\<close> builds is the Grid Builder's
  contract: blanks for the weekdays before the 1st, then every day of the month in order,
  each cell carrying the displayed year and month.
\<close>

theorem getDaysInMonth_refines_buildMonthGrid:
  assumes "\<not> (0 \<le> getFullYear date \<and> getFullYear date \<le> 99)"
  shows "map (map_option date_fields) (getDaysInMonth date) =
    buildMonthGrid (getFullYear date) (getMonth date)"
  using assms by (rule getDaysInMonth_fields)

text \<open>
  The witness is the spec's example: February 2024 (anchor 2024-02-15 12:00) has four
  blanks (the 1st is a Thursday) and 29 days.
\<close>

theorem getDaysInMonth_refines_buildMonthGrid_witness:
  "map (map_option date_fields) (getDaysInMonth 1707998400000) = buildMonthGrid 2024 1 \<and>
   buildMonthGrid 2024 1 = replicate 4 None @ map (\<lambda>day. Some (2024, 1, day)) [1..29]"
proof -
  have y: "getFullYear 1707998400000 = 2024" and m: "getMonth 1707998400000 = 1"
    by (simp_all add: date_eval)
  have "map (map_option date_fields) (getDaysInMonth 1707998400000) =
      buildMonthGrid (getFullYear 1707998400000) (getMonth 1707998400000)"
    by (rule getDaysInMonth_refines_buildMonthGrid) (simp add: y)
  moreover have "buildMonthGrid 2024 1 = replicate 4 None @ map (\<lambda>day. Some (2024, 1, day)) [1..29]"
    by (simp add: buildMonthGrid_def sakamoto_weekday_def month_length_def is_leap_year_def)
  ultimately show ?thesis by (simp add: y m)
qed

text \<open>
  C2. Every day cell sits in the column of its weekday: the cell at position \<open>i\<close>
  of the grid, laid out in rows of seven under the header Dom..Sab, is a date whose
  \<open>getDay()\<close> is \<open>i mod 7\<close>. This holds for every anchor date.
\<close>

theorem getDaysInMonth_weekday_column:
  assumes "i < length (getDaysInMonth date)" and "getDaysInMonth date ! i = Some c"
  shows "getDay c = int i mod 7"
proof -
  define b where "b = (MakeDay (grid_year date) (getMonth date) 1 + 4) mod 7"
  have i: "nat b \<le> i" and c: "c = Date_new (getFullYear date) (getMonth date) (1 + int (i - nat b)) 0 0 0 0"
    using getDaysInMonth_nth [OF assms(2,1)] unfolding b_def by auto
  have b0: "0 \<le> b" unfolding b_def by simp
  have "Day c = MakeDay (grid_year date) (getMonth date) (1 + int (i - nat b))"
    unfolding c Day_Date_new_midnight grid_year_def ..
  also have "\<dots> = MakeDay (grid_year date) (getMonth date) 1 + int (i - nat b)"
    by (subst MakeDay_shift) simp
  finally have "getDay c = ((MakeDay (grid_year date) (getMonth date) 1 + 4) + int (i - nat b)) mod 7"
    by (simp add: getDay_def WeekDay_def ac_simps)
  also have "\<dots> = (b + int (i - nat b)) mod 7"
    unfolding b_def mod_add_left_eq ..
  also have "b + int (i - nat b) = int i" using i b0 by simp
  finally show ?thesis .
qed

theorem getDaysInMonth_weekday_column_witness:
  "4 < length (getDaysInMonth 1707998400000) \<and>
   getDaysInMonth 1707998400000 ! 4 = Some (Date_new 2024 1 1 0 0 0 0) \<and>
   getDay (Date_new 2024 1 1 0 0 0 0) = int 4 mod 7"
proof -
  have y: "getFullYear 1707998400000 = 2024" and m: "getMonth 1707998400000 = 1"
    and b: "(MakeDay (grid_year 1707998400000) (getMonth 1707998400000) 1 + 4) mod 7 = 4"
    and n: "days_in_month (grid_year 1707998400000) (getMonth 1707998400000) = 29"
    by (simp_all add: date_eval grid_year_def)
  have g: "getDaysInMonth 1707998400000 =
      replicate 4 None @ map (\<lambda>day. Some (Date_new 2024 1 day 0 0 0 0)) [1..29]"
    unfolding getDaysInMonth_eq unfolding b n unfolding y m by simp
  have "4 < length (getDaysInMonth 1707998400000)" "getDaysInMonth 1707998400000 ! 4 = Some (Date_new 2024 1 1 0 0 0 0)"
    unfolding g by (simp_all add: nth_append)
  moreover from this have "getDay (Date_new 2024 1 1 0 0 0 0) = int 4 mod 7"
    by (rule getDaysInMonth_weekday_column)
  ultimately show ?thesis by simp
qed

text \<open>
  C3. A grid never needs more than six rows: it has at most 6 blanks and at most 31 days,
  so at most 37 cells, and at least 28.
\<close>

theorem getDaysInMonth_length_bounds:
  "28 \<le> length (getDaysInMonth date) \<and> length (getDaysInMonth date) \<le> 37 \<and>
   (length (getDaysInMonth date) + 6) div 7 \<le> 6"
proof -
  let ?n = "days_in_month (grid_year date) (getMonth date)"
  have m: "0 \<le> getMonth date" "getMonth date < 12" using grid_month_range [of date] by auto
  have n: "28 \<le> ?n" "?n \<le> 31" using days_in_month_range [OF m] by auto
  have "length (getDaysInMonth date) = nat ((MakeDay (grid_year date) (getMonth date) 1 + 4) mod 7) + nat ?n"
    unfolding getDaysInMonth_eq by simp
  moreover have "(MakeDay (grid_year date) (getMonth date) 1 + 4) mod 7 < 7" by simp
  ultimately show ?thesis using n by auto
qed

end
