(* ===== verification/Grid_Loops.thy ===== *)
theory Grid_Loops
  imports Month_Grid
begin

text \<open>
  The two \<open>for\<close> loops of \<open>getDaysInMonth\<close> (\<open>src/app/(tabs)/(home)/index.tsx\<close>,
  lines 110-122) as they are written: a counter that runs up to a bound and pushes one
  cell per round. Each loop is a \<open>function\<close> whose termination is proved by the
  measure "bound minus counter", and the loops compute the \<open>replicate\<close>/\<open>map\<close> form
  that \<open>Month_Grid\<close> uses.
\<close>

function (domintros) push_nulls :: "int \<Rightarrow> int \<Rightarrow> grid_cell list \<Rightarrow> grid_cell list" where
  "push_nulls i startingDayOfWeek days =
     (if i < startingDayOfWeek then push_nulls (i + 1) startingDayOfWeek (days @ [None]) else days)"
  by pat_completeness auto

termination by (relation "measure (\<lambda>(i, n, _). nat (n - i))") auto

declare push_nulls.simps [simp del]

function (domintros) push_days :: "int \<Rightarrow> int \<Rightarrow> int \<Rightarrow> int \<Rightarrow> grid_cell list \<Rightarrow> grid_cell list" where
  "push_days year month day daysInMonth days =
     (if day \<le> daysInMonth
      then push_days year month (day + 1) daysInMonth (days @ [Some (Date_new year month day 0 0 0 0)])
      else days)"
  by pat_completeness auto

termination by (relation "measure (\<lambda>(_, _, d, n, _). nat (n + 1 - d))") auto

declare push_days.simps [simp del]

definition getDaysInMonth_loops :: "time_value \<Rightarrow> grid_cell list" where
  "getDaysInMonth_loops date =
     (let year = getFullYear date;
          month = getMonth date;
          firstDay = Date_new year month 1 0 0 0 0;
          lastDay = Date_new year (month + 1) 0 0 0 0 0;
          daysInMonth = getDate lastDay;
          startingDayOfWeek = getDay firstDay;
          days = push_nulls 0 startingDayOfWeek []
      in push_days year month 1 daysInMonth days)"

lemma push_nulls_replicate:
  "push_nulls i n days = days @ replicate (nat (n - i)) None"
proof (induction i n days rule: push_nulls.induct)
  case (1 i n days)
  show ?case
  proof (cases "i < n")
    case True
    then have "nat (n - i) = Suc (nat (n - (i + 1)))" by simp
    with True 1 show ?thesis by (simp add: push_nulls.simps [of i] replicate_append_same)
  next
    case False
    then show ?thesis by (simp add: push_nulls.simps [of i])
  qed
qed

lemma push_days_map:
  "push_days y m d n days = days @ map (\<lambda>day. Some (Date_new y m day 0 0 0 0)) [d..n]"
proof (induction y m d n days rule: push_days.induct)
  case (1 y m d n days)
  show ?case
  proof (cases "d \<le> n")
    case True
    with 1 show ?thesis by (simp add: push_days.simps [of y m d] upto_rec1 [of d n])
  next
    case False
    then show ?thesis by (simp add: push_days.simps [of y m d])
  qed
qed

subsection \<open>Properties of the loops\<close>

text \<open>
  The loops as written compute the grid of \<open>getDaysInMonth\<close>: blanks by
  \<open>replicate\<close>, days by \<open>map\<close> over \<open>[1..daysInMonth]\<close>, the form the grid proofs use.
\<close>

lemma getDaysInMonth_loops_eq:
  "getDaysInMonth_loops date = getDaysInMonth date"
  by (simp add: getDaysInMonth_loops_def getDaysInMonth_def Let_def push_nulls_replicate push_days_map)

end
