(* ===== verification/Date_String.thy ===== *)
theory Date_String
  imports Js_Date
begin

text \<open>
  \<open>Date.prototype.toDateString()\<close> (ECMAScript 21.4.4.35 and \<open>DateString\<close>,
  21.4.4.41.2): weekday name, month name, the day as two digits and the year as at
  least four digits with a sign for negative years, separated by spaces, e.g.
  \<open>''Sun Mar 10 2024''\<close>. The app compares these strings to decide whether two dates
  fall on the same calendar day; this theory shows that is exactly equality of the
  day numbers, by reading the fields back from the string.
\<close>

definition week_day_names :: "string list" where
  [date_eval]: "week_day_names = [''Sun'', ''Mon'', ''Tue'', ''Wed'', ''Thu'', ''Fri'', ''Sat'']"

definition month_names :: "string list" where
  [date_eval]: "month_names = [''Jan'', ''Feb'', ''Mar'', ''Apr'', ''May'', ''Jun'', ''Jul'',
     ''Aug'', ''Sep'', ''Oct'', ''Nov'', ''Dec'']"

fun dec_digits :: "nat \<Rightarrow> string" where
  "dec_digits n =
     (if n < 10 then [char_of (48 + n)] else dec_digits (n div 10) @ [char_of (48 + n mod 10)])"

declare dec_digits.simps [simp del]

definition zero_padded :: "nat \<Rightarrow> nat \<Rightarrow> string" where
  [date_eval]: "zero_padded n min_len =
     replicate (min_len - length (dec_digits n)) (CHR ''0'') @ dec_digits n"

definition year_string :: "int \<Rightarrow> string" where
  [date_eval]: "year_string y = (if 0 \<le> y then [] else ''-'') @ zero_padded (nat \<bar>y\<bar>) 4"

definition toDateString :: "time_value \<Rightarrow> string" where
  [date_eval]: "toDateString t =
     week_day_names ! nat (WeekDay t) @ '' '' @ month_names ! nat (MonthFromTime t) @ '' '' @
     zero_padded (nat (DateFromTime t)) 2 @ '' '' @ year_string (YearFromTime t)"

text \<open>Reading the fields back: a decimal reader and a year reader.\<close>

definition digits_value :: "string \<Rightarrow> nat" where
  "digits_value s = foldl (\<lambda>acc c. 10 * acc + (of_char c - 48)) 0 s"

definition read_year :: "string \<Rightarrow> int" where
  "read_year s =
     (if s \<noteq> [] \<and> hd s = CHR ''-'' then - int (digits_value (tl s)) else int (digits_value s))"

subsection \<open>Decimal strings\<close>

lemma digits_value_snoc: "digits_value (s @ [c]) = 10 * digits_value s + (of_char c - 48)"
  by (simp add: digits_value_def)

lemma of_char_digit: "k < 10 \<Longrightarrow> of_char (char_of (48 + k) :: char) = (48 + k :: nat)"
  by simp

lemma digits_value_dec_digits: "digits_value (dec_digits n) = n"
proof (induction n rule: dec_digits.induct)
  case (1 n)
  show ?case
  proof (cases "n < 10")
    case True
    then show ?thesis by (simp add: dec_digits.simps digits_value_def)
  next
    case False
    then have "digits_value (dec_digits n) = 10 * (n div 10) + n mod 10"
      using "1.IH" by (simp add: dec_digits.simps [of n] digits_value_snoc)
    then show ?thesis by simp
  qed
qed

lemma digits_value_zeros: "digits_value (replicate k (CHR ''0'') @ s) = digits_value s"
proof -
  have "foldl (\<lambda>acc c. 10 * acc + (of_char c - 48)) (0::nat) (replicate k (CHR ''0'')) = 0"
    by (induction k) simp_all
  then show ?thesis by (simp add: digits_value_def)
qed

lemma digits_value_zero_padded: "digits_value (zero_padded n k) = n"
  by (simp add: zero_padded_def digits_value_zeros digits_value_dec_digits)

lemma digit_not_minus: "(k::nat) < 10 \<Longrightarrow> char_of (48 + k) \<noteq> CHR ''-''"
proof
  assume "k < 10" and "char_of (48 + k) = CHR ''-''"
  then have "of_char (char_of (48 + k) :: char) = (of_char (CHR ''-'') :: nat)" by simp
  with of_char_digit [OF \<open>k < 10\<close>] show False by simp
qed

lemma dec_digits_chars: "c \<in> set (dec_digits n) \<Longrightarrow> c \<noteq> CHR ''-''"
proof (induction n rule: dec_digits.induct)
  case (1 n)
  show ?case
  proof (cases "n < 10")
    case True
    with "1.prems" show ?thesis by (simp add: dec_digits.simps [of n] digit_not_minus)
  next
    case False
    with "1.prems" have "c \<in> set (dec_digits (n div 10)) \<or> c = char_of (48 + n mod 10)"
      by (auto simp: dec_digits.simps [of n])
    moreover have "char_of (48 + n mod 10) \<noteq> CHR ''-''" by (rule digit_not_minus) simp
    ultimately show ?thesis using "1.IH" False by auto
  qed
qed

lemma dec_digits_nonempty: "dec_digits n \<noteq> []"
  by (subst dec_digits.simps) simp

lemma zero_padded_hd: "zero_padded n k \<noteq> [] \<and> hd (zero_padded n k) \<noteq> CHR ''-''"
proof -
  have ne: "dec_digits n \<noteq> []" by (rule dec_digits_nonempty)
  then have "hd (zero_padded n k) = CHR ''0'' \<or> hd (zero_padded n k) \<in> set (dec_digits n)"
    by (cases "k - length (dec_digits n)") (simp_all add: zero_padded_def hd_in_set)
  then show ?thesis
    using dec_digits_chars [of "hd (zero_padded n k)" n] ne by (auto simp: zero_padded_def)
qed

lemma read_year_string: "read_year (year_string y) = y"
  using zero_padded_hd [of "nat \<bar>y\<bar>" 4]
  by (auto simp: read_year_def year_string_def digits_value_zero_padded)

subsection \<open>Same string, same day\<close>

lemma dec_digits_length_2:
  assumes "n < 100"
  shows "length (dec_digits n) \<le> 2"
proof (cases "n < 10")
  case True
  then show ?thesis by (simp add: dec_digits.simps [of n])
next
  case False
  have "n div 10 < 10" using assms by simp
  with False show ?thesis by (simp add: dec_digits.simps [of n] dec_digits.simps [of "n div 10"])
qed

lemma zero_padded_length_2: "n < 100 \<Longrightarrow> length (zero_padded n 2) = 2"
  using dec_digits_length_2 [of n] by (simp add: zero_padded_def)

lemma week_day_name_length: "i < 7 \<Longrightarrow> length (week_day_names ! i) = 3"
proof -
  assume "i < 7"
  then have "week_day_names ! i \<in> set week_day_names" by (intro nth_mem) (simp add: week_day_names_def)
  moreover have "\<forall>x \<in> set week_day_names. length x = 3" by (simp add: week_day_names_def)
  ultimately show ?thesis by blast
qed

lemma month_name_length: "i < 12 \<Longrightarrow> length (month_names ! i) = 3"
proof -
  assume "i < 12"
  then have "month_names ! i \<in> set month_names" by (intro nth_mem) (simp add: month_names_def)
  moreover have "\<forall>x \<in> set month_names. length x = 3" by (simp add: month_names_def)
  ultimately show ?thesis by blast
qed

lemma month_name_inj: "i < 12 \<Longrightarrow> j < 12 \<Longrightarrow> month_names ! i = month_names ! j \<Longrightarrow> i = j"
proof -
  assume "i < 12" "j < 12" "month_names ! i = month_names ! j"
  moreover have "distinct month_names" by (simp add: month_names_def)
  ultimately show "i = j" by (simp add: nth_eq_iff_index_eq month_names_def)
qed

lemma fields_same_Day:
  assumes "Day t1 = Day t2"
  shows "YearFromTime t1 = YearFromTime t2 \<and> MonthFromTime t1 = MonthFromTime t2 \<and>
    DateFromTime t1 = DateFromTime t2 \<and> WeekDay t1 = WeekDay t2"
  using assms by (simp add: YearFromTime_def MonthFromTime_def DateFromTime_def DayWithinYear_def
      InLeapYear_def WeekDay_def)

lemma toDateString_parts:
  "take 3 (drop 4 (toDateString t)) = month_names ! nat (MonthFromTime t) \<and>
   digits_value (take 2 (drop 8 (toDateString t))) = nat (DateFromTime t) \<and>
   read_year (drop 11 (toDateString t)) = YearFromTime t"
proof -
  have w: "length (week_day_names ! nat (WeekDay t)) = 3"
    by (rule week_day_name_length) (simp add: WeekDay_def)
  have "0 \<le> MonthFromTime t" "MonthFromTime t < 12" using MonthFromTime_bounds [of t] by auto
  then have m: "length (month_names ! nat (MonthFromTime t)) = 3"
    by (intro month_name_length) simp
  have d: "length (zero_padded (nat (DateFromTime t)) 2) = 2"
  proof (rule zero_padded_length_2)
    show "nat (DateFromTime t) < 100" using DateFromTime_range [of t] by auto
  qed
  show ?thesis
    using w m d by (simp add: toDateString_def digits_value_zero_padded read_year_string)
qed

lemma toDateString_eq_iff: "toDateString t1 = toDateString t2 \<longleftrightarrow> Day t1 = Day t2"
proof
  assume eq: "toDateString t1 = toDateString t2"
  have p1: "take 3 (drop 4 (toDateString t1)) = month_names ! nat (MonthFromTime t1)"
    "digits_value (take 2 (drop 8 (toDateString t1))) = nat (DateFromTime t1)"
    "read_year (drop 11 (toDateString t1)) = YearFromTime t1"
    using toDateString_parts [of t1] by auto
  have p2: "take 3 (drop 4 (toDateString t2)) = month_names ! nat (MonthFromTime t2)"
    "digits_value (take 2 (drop 8 (toDateString t2))) = nat (DateFromTime t2)"
    "read_year (drop 11 (toDateString t2)) = YearFromTime t2"
    using toDateString_parts [of t2] by auto
  have b: "0 \<le> MonthFromTime t1" "MonthFromTime t1 < 12" "0 \<le> MonthFromTime t2" "MonthFromTime t2 < 12"
    "1 \<le> DateFromTime t1" "1 \<le> DateFromTime t2"
    using MonthFromTime_bounds [of t1] MonthFromTime_bounds [of t2]
      DateFromTime_bounds [of t1] DateFromTime_bounds [of t2] by auto
  have "nat (MonthFromTime t1) = nat (MonthFromTime t2)"
    using p1(1) p2(1) eq b by (intro month_name_inj) simp_all
  then have m: "MonthFromTime t1 = MonthFromTime t2" using b by simp
  have d: "DateFromTime t1 = DateFromTime t2" using p1(2) p2(2) eq b by simp
  have y: "YearFromTime t1 = YearFromTime t2" using p1(3) p2(3) eq by simp
  show "Day t1 = Day t2"
    using MakeDay_fields [of t1] MakeDay_fields [of t2] m d y by simp
next
  assume "Day t1 = Day t2"
  from fields_same_Day [OF this] show "toDateString t1 = toDateString t2"
    unfolding toDateString_def by simp
qed

lemma toDateString_example: "toDateString 1710064800000 = ''Sun Mar 10 2024''"
  by (simp add: date_eval dec_digits.simps char_of_def bit_0)

end
