(* ===== verification/Event_Locator.thy ===== *)
theory Event_Locator
  imports Date_String
begin

text \<open>
  The event locator of the calendar screen, \<open>getEventsForDate\<close> in
  \<open>src/app/(tabs)/(home)/index.tsx\<close>, over the screen's \<open>CalendarEvent\<close> records.
  The screen's \<open>events\<close> state, which the source reads from the closure, is an
  explicit argument. The contract of the spec (section 4.2) is \<open>eventsOnDate\<close>: an
  event occurs on a day when the day lies in its inclusive day span, or when it starts
  on that day.
\<close>

record calendar_event =
  event_id :: string
  title :: string
  startDate :: time_value
  endDate :: time_value
  description :: "string option"
  location :: "string option"
  allDay :: "bool option"

definition getEventsForDate :: "calendar_event list \<Rightarrow> time_value \<Rightarrow> calendar_event list" where
  "getEventsForDate events date =
     filter (\<lambda>event.
       let eventStartDate = startDate event;
           eventEndDate = endDate event;
           dateStart = Date_new (getFullYear date) (getMonth date) (getDate date) 0 0 0 0;
           dateEnd = Date_new (getFullYear date) (getMonth date) (getDate date) 23 59 59 0
       in (eventStartDate \<le> dateEnd \<and> eventEndDate \<ge> dateStart) \<or>
          toDateString eventStartDate = toDateString date)
       events"

definition occurs_on_day :: "calendar_event \<Rightarrow> int \<Rightarrow> bool" where
  "occurs_on_day e d \<longleftrightarrow> (Day (startDate e) \<le> d \<and> d \<le> Day (endDate e)) \<or> Day (startDate e) = d"

definition eventsOnDate :: "calendar_event list \<Rightarrow> int \<Rightarrow> calendar_event list" where
  "eventsOnDate events d = filter (\<lambda>e. occurs_on_day e d) events"

subsection \<open>The day window\<close>

lemma Day_le_iff: "Day x \<le> d \<longleftrightarrow> x < d * msPerDay + msPerDay"
  using int_div_bounds [of msPerDay x] by (auto simp: Day_def msPerDay_def)

lemma le_Day_iff: "d \<le> Day x \<longleftrightarrow> d * msPerDay \<le> x"
  using int_div_bounds [of msPerDay x] by (auto simp: Day_def msPerDay_def)

lemma day_window:
  assumes "\<not> (0 \<le> getFullYear date \<and> getFullYear date \<le> 99)"
  shows "Date_new (getFullYear date) (getMonth date) (getDate date) 0 0 0 0 = Day date * msPerDay"
    and "Date_new (getFullYear date) (getMonth date) (getDate date) 23 59 59 0 = Day date * msPerDay + 86399000"
  using MakeDay_fields [of date] js_year_id [OF assms]
  by (simp_all add: Date_new_def MakeDate_def MakeTime_def getFullYear_def getMonth_def getDate_def)

lemma event_window_iff:
  assumes "\<not> (0 \<le> getFullYear date \<and> getFullYear date \<le> 99)"
  shows "((startDate e \<le> Date_new (getFullYear date) (getMonth date) (getDate date) 23 59 59 0 \<and>
           endDate e \<ge> Date_new (getFullYear date) (getMonth date) (getDate date) 0 0 0 0) \<or>
          toDateString (startDate e) = toDateString date) \<longleftrightarrow> occurs_on_day e (Day date)"
proof -
  let ?d = "Day date" and ?s = "startDate e" and ?t = "endDate e"
  have "Day ?s \<le> ?d \<longleftrightarrow> ?s < ?d * msPerDay + msPerDay" by (rule Day_le_iff)
  moreover have "?d \<le> Day ?t \<longleftrightarrow> ?d * msPerDay \<le> ?t" by (rule le_Day_iff)
  moreover have "?d \<le> Day ?s \<longleftrightarrow> ?d * msPerDay \<le> ?s" by (rule le_Day_iff)
  ultimately show ?thesis
    unfolding day_window [OF assms] toDateString_eq_iff occurs_on_day_def
    by (auto simp: msPerDay_def)
qed

lemma getEventsForDate_eventsOnDate:
  assumes "\<not> (0 \<le> getFullYear date \<and> getFullYear date \<le> 99)"
  shows "getEventsForDate events date = eventsOnDate events (Day date)"
  unfolding getEventsForDate_def eventsOnDate_def Let_def event_window_iff [OF assms] ..

lemma year_2024_march: "\<not> (0 \<le> getFullYear 1710072000000 \<and> getFullYear 1710072000000 \<le> 99)"
  "\<not> (0 \<le> getFullYear 1710158400000 \<and> getFullYear 1710158400000 \<le> 99)"
  by (simp_all add: date_eval)

subsection \<open>Properties of the event locator\<close>

text \<open>
  C4. For a date whose year is outside 0..99, \<open>getEventsForDate\<close> is the Event Locator
  contract: it keeps, in order, exactly the events whose day span contains the date's day
  or that start on that day.
\<close>

theorem getEventsForDate_refines_eventsOnDate:
  assumes "\<not> (0 \<le> getFullYear date \<and> getFullYear date \<le> 99)"
  shows "getEventsForDate events date = eventsOnDate events (Day date)"
  using assms by (rule getEventsForDate_eventsOnDate)

theorem getEventsForDate_refines_eventsOnDate_witness:
  "getEventsForDate [\<lparr>event_id = ''1'', title = ''Riunione'', startDate = 1710061200000,
      endDate = 1710064800000, description = None, location = None, allDay = Some False\<rparr>] 1710072000000 =
   eventsOnDate [\<lparr>event_id = ''1'', title = ''Riunione'', startDate = 1710061200000,
      endDate = 1710064800000, description = None, location = None, allDay = Some False\<rparr>] (Day 1710072000000)"
  using year_2024_march(1) by (rule getEventsForDate_refines_eventsOnDate)

text \<open>
  C5. An event that starts and ends on the same day (the spec's 09:00-10:00 meeting on
  2024-03-10) is listed for that day and for no other day.
\<close>

theorem getEventsForDate_single_day:
  assumes "\<not> (0 \<le> getFullYear date \<and> getFullYear date \<le> 99)"
    and "Day (startDate e) = Day (endDate e)"
  shows "(getEventsForDate [e] date = [e] \<longleftrightarrow> Day date = Day (startDate e)) \<and>
    (getEventsForDate [e] date = [] \<longleftrightarrow> Day date \<noteq> Day (startDate e))"
  using assms(2) by (auto simp: getEventsForDate_eventsOnDate [OF assms(1)] eventsOnDate_def occurs_on_day_def)

theorem getEventsForDate_single_day_witness:
  "getEventsForDate [\<lparr>event_id = ''1'', title = ''Riunione'', startDate = 1710061200000,
      endDate = 1710064800000, description = None, location = None, allDay = Some False\<rparr>] 1710158400000 = []"
proof -
  let ?e = "\<lparr>event_id = ''1'', title = ''Riunione'', startDate = 1710061200000,
      endDate = 1710064800000, description = None, location = None, allDay = Some False\<rparr>"
  have "Day (startDate ?e) = Day (endDate ?e)" by (simp add: Day_def msPerDay_def)
  from getEventsForDate_single_day [OF year_2024_march(2) this]
  have "getEventsForDate [?e] 1710158400000 = [] \<longleftrightarrow> Day 1710158400000 \<noteq> Day (startDate ?e)" by blast
  moreover have "Day 1710158400000 \<noteq> Day (startDate ?e)" by (simp add: Day_def msPerDay_def)
  ultimately show ?thesis by blast
qed

text \<open>
  C6. An event spanning several days (2024-03-10 to 2024-03-12 in the spec) is listed
  for every day from its first to its last.
\<close>

theorem getEventsForDate_multi_day:
  assumes "\<not> (0 \<le> getFullYear date \<and> getFullYear date \<le> 99)"
    and "e \<in> set events" and "Day (startDate e) \<le> Day date" and "Day date \<le> Day (endDate e)"
  shows "e \<in> set (getEventsForDate events date)"
  using assms(2-4)
  by (simp add: getEventsForDate_eventsOnDate [OF assms(1)] eventsOnDate_def occurs_on_day_def)

theorem getEventsForDate_multi_day_witness:
  "\<lparr>event_id = ''2'', title = ''Fiera'', startDate = 1710028800000, endDate = 1710244800000,
     description = None, location = None, allDay = Some False\<rparr> \<in>
   set (getEventsForDate [\<lparr>event_id = ''2'', title = ''Fiera'', startDate = 1710028800000,
     endDate = 1710244800000, description = None, location = None, allDay = Some False\<rparr>] 1710158400000)"
  by (rule getEventsForDate_multi_day [OF year_2024_march(2)]) (simp_all add: Day_def msPerDay_def)

text \<open>
  C7. An event that ends exactly at midnight is also listed on the day that begins at that
  midnight, although it occupies no time of it: the overlap test compares the end with
  \<open>dateStart\<close> using \<open>\<ge>\<close>. An all-day event stored as 2024-03-10 00:00 to
  2024-03-11 00:00 therefore shows on the 10th and the 11th.
\<close>

theorem getEventsForDate_midnight_end:
  assumes "\<not> (0 \<le> getFullYear date \<and> getFullYear date \<le> 99)"
    and "endDate e = Day date * msPerDay" and "startDate e < endDate e"
  shows "getEventsForDate [e] date = [e]"
proof -
  have "Day date \<le> Day (endDate e)" using assms(2) le_Day_iff by simp
  moreover have "Day (startDate e) \<le> Day date"
    using assms(2,3) Day_le_iff [of "startDate e" "Day date"] by (simp add: msPerDay_def)
  ultimately show ?thesis
    by (simp add: getEventsForDate_eventsOnDate [OF assms(1)] eventsOnDate_def occurs_on_day_def)
qed

theorem getEventsForDate_midnight_end_witness:
  "getEventsForDate [\<lparr>event_id = ''3'', title = ''Ferie'', startDate = 1710028800000, endDate = 1710115200000,
     description = None, location = None, allDay = Some True\<rparr>] 1710158400000 =
   [\<lparr>event_id = ''3'', title = ''Ferie'', startDate = 1710028800000, endDate = 1710115200000,
     description = None, location = None, allDay = Some True\<rparr>]"
  by (rule getEventsForDate_midnight_end [OF year_2024_march(2)]) (simp_all add: Day_def msPerDay_def)

end
