(* ===== verification/Calendar_Screen.thy ===== *)
theory Calendar_Screen
  imports Event_Locator
begin

text \<open>
  The state and handlers of \<open>CalendarScreen\<close> in \<open>src/app/(tabs)/(home)/index.tsx\<close>.
  The \<open>useState\<close> hooks form the record \<open>screen_state\<close>; each handler is a function
  from the state (and its arguments) to the new state, with the user-visible alert as an
  explicit result where the source raises one. \<open>new Date()\<close> (the device clock) is an
  argument.
\<close>

datatype permission_status = Granted | Denied | Undetermined

datatype month_direction = Prev | Next

datatype ui_alert = PermissionAlert

record screen_state =
  currentDate :: time_value
  selectedDate :: time_value
  events :: "calendar_event list"
  showDatePicker :: bool
  showAddEventModal :: bool
  calendarPermission :: permission_status
  isRefreshing :: bool

definition initial_screen :: "time_value \<Rightarrow> screen_state" where
  "initial_screen now =
     \<lparr>currentDate = now, selectedDate = now, events = [], showDatePicker = False,
      showAddEventModal = False, calendarPermission = Undetermined, isRefreshing = False\<rparr>"

definition navigateMonth :: "month_direction \<Rightarrow> screen_state \<Rightarrow> screen_state" where
  "navigateMonth direction s =
     (let newDate = currentDate s;
          newDate' = (if direction = Prev then setMonth newDate (getMonth newDate - 1)
                      else setMonth newDate (getMonth newDate + 1))
      in s\<lparr>currentDate := newDate'\<rparr>)"

definition handleDatePress :: "time_value \<Rightarrow> screen_state \<Rightarrow> screen_state" where
  "handleDatePress date s = s\<lparr>selectedDate := date\<rparr>"

definition handleAddEvent :: "screen_state \<Rightarrow> screen_state \<times> ui_alert option" where
  "handleAddEvent s =
     (if calendarPermission s \<noteq> Granted then (s, Some PermissionAlert)
      else (s\<lparr>showAddEventModal := True\<rparr>, None))"

definition handleGoToToday :: "time_value \<Rightarrow> screen_state \<Rightarrow> screen_state" where
  "handleGoToToday today s = s\<lparr>currentDate := today, selectedDate := today\<rparr>"

definition openDatePicker :: "screen_state \<Rightarrow> screen_state" where
  "openDatePicker s = s\<lparr>showDatePicker := True\<rparr>"

definition onDatePickerChange :: "time_value option \<Rightarrow> screen_state \<Rightarrow> screen_state" where
  "onDatePickerChange selected s =
     (let s' = s\<lparr>showDatePicker := False\<rparr>
      in case selected of None \<Rightarrow> s' | Some d \<Rightarrow> s'\<lparr>currentDate := d, selectedDate := d\<rparr>)"

definition closeAddEventModal :: "screen_state \<Rightarrow> screen_state" where
  "closeAddEventModal s = s\<lparr>showAddEventModal := False\<rparr>"

subsection \<open>Month arithmetic of setMonth\<close>

lemma MakeDay_month_index:
  assumes "12 * y + m = 12 * y' + m'"
  shows "MakeDay y m d = MakeDay y' m' d"
proof -
  have "(12 * y + m) div 12 = y + m div 12" "(12 * y' + m') div 12 = y' + m' div 12"
    "(12 * y + m) mod 12 = m mod 12" "(12 * y' + m') mod 12 = m' mod 12" by simp_all
  then have e: "y + m div 12 = y' + m' div 12" "m mod 12 = m' mod 12"
    using assms by metis+
  show ?thesis unfolding MakeDay_def Let_def e ..
qed

lemma TimeWithinDay_range: "0 \<le> TimeWithinDay t \<and> TimeWithinDay t < msPerDay"
  by (simp add: TimeWithinDay_def msPerDay_def)

lemma setMonth_Day:
  "Day (setMonth t m) = MakeDay (YearFromTime t) m (DateFromTime t) \<and>
   TimeWithinDay (setMonth t m) = TimeWithinDay t"
  using Day_MakeDate [of "TimeWithinDay t"] TimeWithinDay_range [of t] by (simp add: setMonth_def)

lemma time_from_Day: "t = MakeDate (Day t) (TimeWithinDay t)"
  by (simp add: MakeDate_def Day_def TimeWithinDay_def)

lemma setMonth_fields:
  assumes "DateFromTime t \<le> days_in_month (YearFromTime t + m div 12) (m mod 12)"
  shows "YearFromTime (setMonth t m) = YearFromTime t + m div 12 \<and>
    MonthFromTime (setMonth t m) = m mod 12 \<and> DateFromTime (setMonth t m) = DateFromTime t"
proof -
  have day: "Day (setMonth t m) = MakeDay (YearFromTime t + m div 12) (m mod 12) (DateFromTime t)"
    using setMonth_Day [of t m] MakeDay_normalise [of "YearFromTime t" m "DateFromTime t"] by simp
  have "0 \<le> m mod 12" "m mod 12 < 12" "1 \<le> DateFromTime t"
    using DateFromTime_bounds [of t] by simp_all
  from fields_MakeDay [OF this assms day] show ?thesis .
qed

lemma setMonth_back:
  assumes "DateFromTime t \<le> days_in_month (YearFromTime t + m div 12) (m mod 12)"
    and "k = m + j"
  shows "setMonth (setMonth t m) (MonthFromTime (setMonth t m) + j) = setMonth t k"
proof -
  let ?u = "setMonth t m"
  have f: "YearFromTime ?u = YearFromTime t + m div 12" "MonthFromTime ?u = m mod 12"
    "DateFromTime ?u = DateFromTime t"
    using setMonth_fields [OF assms(1)] by auto
  have "m = 12 * (m div 12) + m mod 12" by simp
  then have "12 * (YearFromTime t + m div 12) + (m mod 12 + j) = 12 * YearFromTime t + k"
    using assms(2) by (simp add: distrib_left)
  then have "MakeDay (YearFromTime ?u) (MonthFromTime ?u + j) (DateFromTime ?u) =
      MakeDay (YearFromTime t) k (DateFromTime t)"
    unfolding f by (rule MakeDay_month_index)
  moreover have "TimeWithinDay ?u = TimeWithinDay t" using setMonth_Day [of t m] by simp
  ultimately show ?thesis by (simp add: setMonth_def)
qed

lemma setMonth_same: "setMonth t (MonthFromTime t) = t"
  using MakeDay_fields [of t] time_from_Day [of t] by (simp add: setMonth_def)

lemma navigateMonth_current:
  "currentDate (navigateMonth direction s) =
     setMonth (currentDate s) (getMonth (currentDate s) + (if direction = Prev then -1 else 1))"
  by (cases direction) (simp_all add: navigateMonth_def Let_def)

lemma days_in_month_ge_28: "28 \<le> days_in_month y (m mod 12)"
  using days_in_month_range [of "m mod 12" y] by simp

lemma setMonth_overflow_fields:
  assumes "days_in_month (YearFromTime t + m div 12) (m mod 12) < DateFromTime t"
  shows "MonthFromTime (setMonth t m) = (m mod 12 + 1) mod 12 \<and> DateFromTime (setMonth t m) \<le> 3"
proof -
  let ?y = "YearFromTime t + m div 12" and ?m = "m mod 12" and ?d = "DateFromTime t"
  let ?n = "days_in_month ?y ?m"
  have m: "0 \<le> ?m" "?m < 12" by simp_all
  have d31: "?d \<le> 31" using DateFromTime_range [of t] by simp
  have n28: "28 \<le> ?n" using days_in_month_ge_28 [of ?y m] by simp
  have "MakeDay ?y (?m + 1) 1 = MakeDay ?y ?m 1 + ?n"
    using MakeDay_next_month_zero [OF m, of ?y] MakeDay_shift [of ?y "?m + 1" 0] by simp
  then have "MakeDay ?y ?m ?d = MakeDay (?y + (?m + 1) div 12) ((?m + 1) mod 12) (?d - ?n)"
    using MakeDay_shift [of ?y ?m ?d] MakeDay_shift [of ?y "?m + 1" "?d - ?n"]
      MakeDay_normalise [of ?y "?m + 1" "?d - ?n"] by simp
  moreover have "Day (setMonth t m) = MakeDay ?y ?m ?d"
    using setMonth_Day [of t m] MakeDay_normalise [of "YearFromTime t" m ?d] by simp
  ultimately have day: "Day (setMonth t m) = MakeDay (?y + (?m + 1) div 12) ((?m + 1) mod 12) (?d - ?n)"
    by simp
  have "0 \<le> (?m + 1) mod 12" "(?m + 1) mod 12 < 12" by simp_all
  moreover have "1 \<le> ?d - ?n" using assms by simp
  moreover have "?d - ?n \<le> days_in_month (?y + (?m + 1) div 12) ((?m + 1) mod 12)"
    using days_in_month_ge_28 [of "?y + (?m + 1) div 12" "?m + 1"] d31 n28 by simp
  ultimately have "MonthFromTime (setMonth t m) = (?m + 1) mod 12 \<and> DateFromTime (setMonth t m) = ?d - ?n"
    using fields_MakeDay day by blast
  then show ?thesis using d31 n28 by simp
qed

lemma setMonth_overflow:
  assumes "days_in_month (YearFromTime t + m div 12) (m mod 12) < DateFromTime t"
  shows "MonthFromTime (setMonth t m) = (m mod 12 + 1) mod 12"
  using setMonth_overflow_fields [OF assms] by simp

subsection \<open>Properties of month navigation\<close>

text \<open>
  C8. Navigating forward then back one month (or back then forward) returns the visible
  date exactly to where it was, whenever its day of the month is at most 28.
\<close>

theorem navigateMonth_roundtrip:
  assumes "getDate (currentDate s) \<le> 28"
  shows "currentDate (navigateMonth Prev (navigateMonth Next s)) = currentDate s \<and>
    currentDate (navigateMonth Next (navigateMonth Prev s)) = currentDate s"
proof -
  let ?t = "currentDate s"
  have d: "DateFromTime ?t \<le> days_in_month (YearFromTime ?t + m div 12) (m mod 12)" for m
    using assms days_in_month_ge_28 [of "YearFromTime ?t + m div 12" m] by (simp add: getDate_def)
  have "setMonth (setMonth ?t (MonthFromTime ?t + 1)) (MonthFromTime (setMonth ?t (MonthFromTime ?t + 1)) + -1) =
      setMonth ?t (MonthFromTime ?t)"
    by (rule setMonth_back [OF d]) simp
  moreover have "setMonth (setMonth ?t (MonthFromTime ?t - 1)) (MonthFromTime (setMonth ?t (MonthFromTime ?t - 1)) + 1) =
      setMonth ?t (MonthFromTime ?t)"
    by (rule setMonth_back [OF d]) simp
  ultimately show ?thesis
    by (simp add: navigateMonth_current getMonth_def setMonth_same)
qed

theorem navigateMonth_roundtrip_witness:
  "currentDate (navigateMonth Prev (navigateMonth Next (initial_screen 1710072000000))) = 1710072000000 \<and>
   currentDate (navigateMonth Next (navigateMonth Prev (initial_screen 1710072000000))) = 1710072000000"
proof -
  have "getDate (currentDate (initial_screen 1710072000000)) \<le> 28"
    by (simp add: initial_screen_def date_eval)
  from navigateMonth_roundtrip [OF this] show ?thesis by (simp add: initial_screen_def)
qed

text \<open>
  C9. Navigation lands in the adjacent month exactly when the day of the month exists
  there: \<open>setMonth\<close> keeps the day, and a day past the end of the target month overflows
  into the month after it.
\<close>

theorem navigateMonth_next_adjacent_iff:
  "getMonth (currentDate (navigateMonth Next s)) = (getMonth (currentDate s) + 1) mod 12 \<longleftrightarrow>
   getDate (currentDate s) \<le>
     days_in_month (getFullYear (currentDate s) + (getMonth (currentDate s) + 1) div 12)
       ((getMonth (currentDate s) + 1) mod 12)"
proof -
  let ?t = "currentDate s" and ?m = "MonthFromTime (currentDate s) + 1"
  have nxt: "currentDate (navigateMonth Next s) = setMonth ?t ?m"
    by (simp add: navigateMonth_current getMonth_def)
  show ?thesis
  proof
    assume eq: "getMonth (currentDate (navigateMonth Next s)) = (getMonth ?t + 1) mod 12"
    show "getDate ?t \<le> days_in_month (getFullYear ?t + (getMonth ?t + 1) div 12) ((getMonth ?t + 1) mod 12)"
    proof (rule ccontr)
      assume "\<not> ?thesis"
      then have "days_in_month (YearFromTime ?t + ?m div 12) (?m mod 12) < DateFromTime ?t"
        by (simp add: getDate_def getFullYear_def getMonth_def)
      from setMonth_overflow [OF this] eq nxt have "(?m mod 12 + 1) mod 12 = ?m mod 12"
        by (simp add: getMonth_def)
      then show False by presburger
    qed
  next
    assume "getDate ?t \<le> days_in_month (getFullYear ?t + (getMonth ?t + 1) div 12) ((getMonth ?t + 1) mod 12)"
    then have "DateFromTime ?t \<le> days_in_month (YearFromTime ?t + ?m div 12) (?m mod 12)"
      by (simp add: getDate_def getFullYear_def getMonth_def)
    from setMonth_fields [OF this] nxt
    show "getMonth (currentDate (navigateMonth Next s)) = (getMonth ?t + 1) mod 12"
      by (simp add: getMonth_def)
  qed
qed

text \<open>
  C10. "Next month" then "previous month" returns the visible date to where it was exactly
  when its day of the month exists in the next month. From a later day (the 29th-31st
  before a shorter month) \<open>setMonth\<close> overflows two months ahead and the way back
  lands in the month after the start: the round trip fails and a month is skipped.
\<close>

theorem navigateMonth_roundtrip_iff:
  "currentDate (navigateMonth Prev (navigateMonth Next s)) = currentDate s \<longleftrightarrow>
   getDate (currentDate s) \<le>
     days_in_month (getFullYear (currentDate s) + (getMonth (currentDate s) + 1) div 12)
       ((getMonth (currentDate s) + 1) mod 12)"
proof -
  let ?t = "currentDate s" and ?M = "MonthFromTime (currentDate s)"
  let ?u = "setMonth ?t (?M + 1)"
  have pn: "currentDate (navigateMonth Prev (navigateMonth Next s)) = setMonth ?u (MonthFromTime ?u + -1)"
    by (simp add: navigateMonth_current getMonth_def)
  have M: "0 \<le> ?M" "?M < 12" using MonthFromTime_bounds [of ?t] by simp_all
  show ?thesis
  proof
    assume eq: "currentDate (navigateMonth Prev (navigateMonth Next s)) = ?t"
    show "getDate ?t \<le> days_in_month (getFullYear ?t + (getMonth ?t + 1) div 12) ((getMonth ?t + 1) mod 12)"
    proof (rule ccontr)
      assume "\<not> ?thesis"
      then have over: "days_in_month (YearFromTime ?t + (?M + 1) div 12) ((?M + 1) mod 12) < DateFromTime ?t"
        by (simp add: getDate_def getFullYear_def getMonth_def)
      from setMonth_overflow_fields [OF this]
      have um: "MonthFromTime ?u = ((?M + 1) mod 12 + 1) mod 12" and ud: "DateFromTime ?u \<le> 3" by simp_all
      have "DateFromTime ?u \<le> days_in_month (YearFromTime ?u + (MonthFromTime ?u + -1) div 12)
          ((MonthFromTime ?u + -1) mod 12)"
        using ud days_in_month_ge_28 [of "YearFromTime ?u + (MonthFromTime ?u + -1) div 12" "MonthFromTime ?u + -1"]
        by simp
      from setMonth_fields [OF this]
      have "MonthFromTime (setMonth ?u (MonthFromTime ?u + -1)) = (MonthFromTime ?u + -1) mod 12" by simp
      with eq pn have "?M = (((?M + 1) mod 12 + 1) mod 12 + -1) mod 12" by (simp add: um)
      with M show False by presburger
    qed
  next
    assume "getDate ?t \<le> days_in_month (getFullYear ?t + (getMonth ?t + 1) div 12) ((getMonth ?t + 1) mod 12)"
    then have d: "DateFromTime ?t \<le> days_in_month (YearFromTime ?t + (?M + 1) div 12) ((?M + 1) mod 12)"
      by (simp add: getDate_def getFullYear_def getMonth_def)
    have "setMonth ?u (MonthFromTime ?u + -1) = setMonth ?t ?M"
      by (rule setMonth_back [OF d]) simp
    with pn show "currentDate (navigateMonth Prev (navigateMonth Next s)) = ?t"
      by (simp add: setMonth_same)
  qed
qed

text \<open>
  From the 31st of January 2024 (February has 29 days) "next" shows March and the way back
  shows February, not January.
\<close>

theorem navigateMonth_roundtrip_iff_witness:
  "currentDate (navigateMonth Prev (navigateMonth Next (initial_screen 1706702400000))) \<noteq> 1706702400000 \<and>
   getMonth (currentDate (navigateMonth Next (initial_screen 1706702400000))) = 2 \<and>
   getMonth (currentDate (navigateMonth Prev (navigateMonth Next (initial_screen 1706702400000)))) = 1"
proof -
  have m0: "getMonth 1706702400000 = 0" by (simp add: date_eval)
  have n1: "setMonth 1706702400000 1 = 1709380800000" by (simp add: date_eval)
  have m2: "getMonth 1709380800000 = 2" by (simp add: date_eval)
  have p1: "setMonth 1709380800000 1 = 1706875200000" by (simp add: date_eval)
  have m1: "getMonth 1706875200000 = 1" by (simp add: date_eval)
  have d: "\<not> getDate 1706702400000 \<le> days_in_month (getFullYear 1706702400000 + (0 + 1) div 12) ((0 + 1) mod 12)"
    by (simp add: date_eval)
  have "currentDate (navigateMonth Prev (navigateMonth Next (initial_screen 1706702400000))) \<noteq>
      currentDate (initial_screen 1706702400000)"
    using navigateMonth_roundtrip_iff [of "initial_screen 1706702400000"] d by (simp add: initial_screen_def m0)
  then show ?thesis
    by (simp add: navigateMonth_current initial_screen_def m0 n1 m2 p1 m1)
qed

end
