(* ===== verification/Screen_Fetch.thy ===== *)
theory Screen_Fetch
  imports Calendar_Screen
begin

text \<open>
  The asynchronous part of \<open>CalendarScreen\<close>: \<open>loadEvents\<close>, \<open>handleRefresh\<close>,
  \<open>requestCalendarPermissions\<close> and the effect that reloads whenever
  \<open>calendarPermission\<close> or \<open>currentDate\<close> changes
  (\<open>src/app/(tabs)/(home)/index.tsx\<close>, lines 45-100). Each call of \<open>loadEvents\<close>
  captures the state of the render that made it (its closure) and completes later; the
  app does not cancel or order these calls. The device calendar (expo-calendar) is
  modelled from the spec (section 6): calendars and raw event records, and
  \<open>getEventsAsync\<close> returning the events of the given calendars that overlap the range.

  A run is a list of \<open>app_event\<close>s: user actions, the resolution of the permission
  request, and the completion (or failure) of the \<open>i\<close>-th pending fetch, in any order.
\<close>

record store_calendar =
  cal_id :: string
  cal_title :: string
  cal_color :: "string option"
  cal_source_name :: string
  allowsModifications :: bool

record raw_event =
  raw_id :: string
  raw_calendarId :: string
  raw_title :: string
  raw_startDate :: time_value
  raw_endDate :: time_value
  raw_notes :: "string option"
  raw_location :: "string option"
  raw_allDay :: "bool option"

record device_store =
  calendars :: "store_calendar list"
  store_events :: "raw_event list"

definition getEventsAsync ::
  "device_store \<Rightarrow> string list \<Rightarrow> time_value \<Rightarrow> time_value \<Rightarrow> raw_event list" where
  "getEventsAsync st ids rangeStart rangeEnd =
     filter (\<lambda>e. raw_calendarId e \<in> set ids \<and> raw_startDate e \<le> rangeEnd \<and> rangeStart \<le> raw_endDate e)
       (store_events st)"

definition formatEvent :: "raw_event \<Rightarrow> calendar_event" where
  "formatEvent event =
     \<lparr>event_id = raw_id event, title = raw_title event,
      startDate = raw_startDate event, endDate = raw_endDate event,
      description = Some (case raw_notes event of None \<Rightarrow> [] | Some n \<Rightarrow> n),
      location = Some (case raw_location event of None \<Rightarrow> [] | Some l \<Rightarrow> l),
      allDay = Some (case raw_allDay event of None \<Rightarrow> False | Some b \<Rightarrow> b)\<rparr>"

text \<open>The range \<open>loadEvents\<close> asks for: the 1st of the month and "day 0" of the next.\<close>

definition load_window :: "time_value \<Rightarrow> time_value \<times> time_value" where
  "load_window cur =
     (Date_new (getFullYear cur) (getMonth cur) 1 0 0 0 0,
      Date_new (getFullYear cur) (getMonth cur + 1) 0 0 0 0 0)"

text \<open>
  The body of \<open>loadEvents\<close> after its permission check: \<open>None\<close> when no calendar
  exists (no \<open>setEvents\<close> call), otherwise the formatted events of the window.
\<close>

definition fetch_result :: "device_store \<Rightarrow> time_value \<Rightarrow> calendar_event list option" where
  "fetch_result st cur =
     (let cals = calendars st
      in if 0 < length cals
         then (let (startDate, endDate) = load_window cur;
                   calendarIds = map cal_id cals
               in Some (map formatEvent (getEventsAsync st calendarIds startDate endDate)))
         else None)"

record fetch =
  anchor :: time_value
  perm_at_call :: permission_status
  from_refresh :: bool

record app_state =
  screen :: screen_state
  pending :: "fetch list"

datatype app_event =
    UINavigate month_direction
  | UIGoToToday time_value
  | UIPickDate "time_value option"
  | UIPressDate time_value
  | UIAddEvent
  | UIOpenPicker
  | UICloseAddModal
  | PermissionResolved permission_status
  | UIRefresh
  | EventAdded
  | FetchDone nat
  | FetchFailed nat

definition call_loadEvents :: "screen_state \<Rightarrow> bool \<Rightarrow> fetch" where
  "call_loadEvents s refresh =
     \<lparr>anchor = currentDate s, perm_at_call = calendarPermission s, from_refresh = refresh\<rparr>"

text \<open>
  The effect on \<open>[calendarPermission, currentDate]\<close>: it runs after a render in which
  either dependency changed (\<open>setCurrentDate\<close> always stores a new \<open>Date\<close> object, so
  every call changes it) and calls \<open>loadEvents\<close> when the permission is granted.
\<close>

definition run_effect :: "screen_state \<Rightarrow> screen_state \<Rightarrow> bool \<Rightarrow> fetch list \<Rightarrow> fetch list" where
  "run_effect old new date_set p =
     (if (date_set \<or> calendarPermission new \<noteq> calendarPermission old) \<and> calendarPermission new = Granted
      then p @ [call_loadEvents new False] else p)"

definition remove_nth :: "nat \<Rightarrow> 'a list \<Rightarrow> 'a list" where
  "remove_nth i xs = take i xs @ drop (Suc i) xs"

definition complete_fetch :: "device_store \<Rightarrow> fetch \<Rightarrow> screen_state \<Rightarrow> screen_state" where
  "complete_fetch st f s =
     (let s1 = (if perm_at_call f = Granted
                then (case fetch_result st (anchor f) of None \<Rightarrow> s | Some evs \<Rightarrow> s\<lparr>events := evs\<rparr>)
                else s)
      in if from_refresh f then s1\<lparr>isRefreshing := False\<rparr> else s1)"

definition fail_fetch :: "fetch \<Rightarrow> screen_state \<Rightarrow> screen_state" where
  "fail_fetch f s = (if from_refresh f then s\<lparr>isRefreshing := False\<rparr> else s)"

fun app_apply :: "device_store \<Rightarrow> app_state \<Rightarrow> app_event \<Rightarrow> app_state" where
  "app_apply st a (UINavigate d) =
     (let s' = navigateMonth d (screen a) in \<lparr>screen = s', pending = run_effect (screen a) s' True (pending a)\<rparr>)"
| "app_apply st a (UIGoToToday now) =
     (let s' = handleGoToToday now (screen a) in \<lparr>screen = s', pending = run_effect (screen a) s' True (pending a)\<rparr>)"
| "app_apply st a (UIPickDate sel) =
     (let s' = onDatePickerChange sel (screen a)
      in \<lparr>screen = s', pending = run_effect (screen a) s' (sel \<noteq> None) (pending a)\<rparr>)"
| "app_apply st a (UIPressDate d) = a\<lparr>screen := handleDatePress d (screen a)\<rparr>"
| "app_apply st a UIAddEvent = a\<lparr>screen := fst (handleAddEvent (screen a))\<rparr>"
| "app_apply st a UIOpenPicker = a\<lparr>screen := openDatePicker (screen a)\<rparr>"
| "app_apply st a UICloseAddModal = a\<lparr>screen := closeAddEventModal (screen a)\<rparr>"
| "app_apply st a (PermissionResolved p) =
     (let s' = (screen a)\<lparr>calendarPermission := p\<rparr>
      in \<lparr>screen = s', pending = run_effect (screen a) s' False (pending a)\<rparr>)"
| "app_apply st a UIRefresh =
     \<lparr>screen = (screen a)\<lparr>isRefreshing := True\<rparr>, pending = pending a @ [call_loadEvents (screen a) True]\<rparr>"
| "app_apply st a EventAdded = a\<lparr>pending := pending a @ [call_loadEvents (screen a) False]\<rparr>"
| "app_apply st a (FetchDone i) =
     (if i < length (pending a)
      then \<lparr>screen = complete_fetch st (pending a ! i) (screen a), pending = remove_nth i (pending a)\<rparr>
      else a)"
| "app_apply st a (FetchFailed i) =
     (if i < length (pending a)
      then \<lparr>screen = fail_fetch (pending a ! i) (screen a), pending = remove_nth i (pending a)\<rparr>
      else a)"

definition app_run :: "device_store \<Rightarrow> app_state \<Rightarrow> app_event list \<Rightarrow> app_state" where
  "app_run st a evs = foldl (app_apply st) a evs"

definition initial_app :: "time_value \<Rightarrow> app_state" where
  "initial_app now = \<lparr>screen = initial_screen now, pending = []\<rparr>"

text \<open>
  States reachable from the first render by events that \<open>ok\<close> admits:
  \<open>\<lambda>_. True\<close> gives every interleaving, \<open>in_order\<close> the runs in which fetches
  complete in the order they were issued and none fails.
\<close>

text \<open>
  The first day (as a day number) of the month with index \<open>k = 12 * year + month\<close>;
  used to compare fetch windows with the days of an event.
\<close>

definition month_first_day :: "int \<Rightarrow> int" where
  "month_first_day k = MakeDay (k div 12) (k mod 12) 1"

text \<open>A device calendar with one event, on 12 March 2024 from 09:00 to 10:00 (UTC).\<close>

definition example_store :: device_store where
  "example_store =
     \<lparr>calendars = [\<lparr>cal_id = ''1'', cal_title = ''Personale'', cal_color = None, cal_source_name = ''iCloud'',
        allowsModifications = True\<rparr>],
      store_events = [\<lparr>raw_id = ''e1'', raw_calendarId = ''1'', raw_title = ''Dentista'',
        raw_startDate = 1710234000000, raw_endDate = 1710237600000, raw_notes = None,
        raw_location = None, raw_allDay = None\<rparr>]\<rparr>"

inductive reachable_by :: "(app_event \<Rightarrow> bool) \<Rightarrow> device_store \<Rightarrow> time_value \<Rightarrow> app_state \<Rightarrow> bool"
  for ok st now where
  init: "reachable_by ok st now (initial_app now)"
| step: "reachable_by ok st now a \<Longrightarrow> ok ev \<Longrightarrow> reachable_by ok st now (app_apply st a ev)"

fun in_order :: "app_event \<Rightarrow> bool" where
  "in_order (FetchDone i) = (i = 0)"
| "in_order (FetchFailed i) = False"
| "in_order _ = True"

definition loaded_inv :: "device_store \<Rightarrow> app_state \<Rightarrow> bool" where
  "loaded_inv st a =
     (\<forall>ev\<in>set (events (screen a)). \<exists>c. \<exists>e\<in>set (getEventsAsync st (map cal_id (calendars st))
        (fst (load_window c)) (snd (load_window c))). ev = formatEvent e)"

definition refresh_inv :: "app_state \<Rightarrow> bool" where
  "refresh_inv a = (isRefreshing (screen a) \<longrightarrow> (\<exists>f\<in>set (pending a). from_refresh f))"

definition fresh_inv :: "device_store \<Rightarrow> app_state \<Rightarrow> bool" where
  "fresh_inv st a =
     (calendarPermission (screen a) = Granted \<longrightarrow>
        (pending a \<noteq> [] \<and> anchor (last (pending a)) = currentDate (screen a) \<and>
           perm_at_call (last (pending a)) = Granted) \<or>
        (pending a = [] \<and>
           (case fetch_result st (currentDate (screen a)) of None \<Rightarrow> True | Some evs \<Rightarrow> events (screen a) = evs)))"

lemma reachable_by_run:
  "reachable_by ok st now a \<longleftrightarrow> (\<exists>evs. list_all ok evs \<and> a = app_run st (initial_app now) evs)"
proof
  assume "reachable_by ok st now a"
  then show "\<exists>evs. list_all ok evs \<and> a = app_run st (initial_app now) evs"
  proof induction
    case init
    show ?case by (rule exI [of _ "[]"]) (simp add: app_run_def)
  next
    case (step a ev)
    then obtain evs where "list_all ok evs" "a = app_run st (initial_app now) evs" by blast
    with step.hyps(2) show ?case by (intro exI [of _ "evs @ [ev]"]) (simp add: app_run_def)
  qed
next
  assume "\<exists>evs. list_all ok evs \<and> a = app_run st (initial_app now) evs"
  then obtain evs where "list_all ok evs" "a = app_run st (initial_app now) evs" by blast
  then show "reachable_by ok st now a"
  proof (induction evs arbitrary: a rule: rev_induct)
    case Nil
    then show ?case by (simp add: app_run_def reachable_by.init)
  next
    case (snoc ev evs)
    then show ?case by (simp add: app_run_def reachable_by.step)
  qed
qed

subsection \<open>Facts on the handlers and on the pending list\<close>

lemma handler_fields [simp]:
  "calendarPermission (navigateMonth d s) = calendarPermission s"
  "isRefreshing (navigateMonth d s) = isRefreshing s"
  "events (navigateMonth d s) = events s"
  "calendarPermission (handleGoToToday now s) = calendarPermission s"
  "isRefreshing (handleGoToToday now s) = isRefreshing s"
  "events (handleGoToToday now s) = events s"
  "currentDate (handleGoToToday now s) = now"
  "calendarPermission (onDatePickerChange sel s) = calendarPermission s"
  "isRefreshing (onDatePickerChange sel s) = isRefreshing s"
  "events (onDatePickerChange sel s) = events s"
  "currentDate (onDatePickerChange sel s) = (case sel of None \<Rightarrow> currentDate s | Some d \<Rightarrow> d)"
  "handleDatePress date s = s\<lparr>selectedDate := date\<rparr>"
  "fst (handleAddEvent s) = (if calendarPermission s = Granted then s\<lparr>showAddEventModal := True\<rparr> else s)"
  "openDatePicker s = s\<lparr>showDatePicker := True\<rparr>"
  "closeAddEventModal s = s\<lparr>showAddEventModal := False\<rparr>"
  by (simp_all add: navigateMonth_def handleGoToToday_def onDatePickerChange_def handleDatePress_def
      handleAddEvent_def openDatePicker_def closeAddEventModal_def Let_def split: option.split)

lemma complete_fetch_fields [simp]:
  "calendarPermission (complete_fetch st f s) = calendarPermission s"
  "currentDate (complete_fetch st f s) = currentDate s"
  "isRefreshing (complete_fetch st f s) = (isRefreshing s \<and> \<not> from_refresh f)"
  "events (complete_fetch st f s) =
     (if perm_at_call f = Granted
      then (case fetch_result st (anchor f) of None \<Rightarrow> events s | Some evs \<Rightarrow> evs) else events s)"
  "calendarPermission (fail_fetch f s) = calendarPermission s"
  "currentDate (fail_fetch f s) = currentDate s"
  "events (fail_fetch f s) = events s"
  "isRefreshing (fail_fetch f s) = (isRefreshing s \<and> \<not> from_refresh f)"
  by (simp_all add: complete_fetch_def fail_fetch_def Let_def split: option.split)

lemma call_loadEvents_fields [simp]:
  "anchor (call_loadEvents s r) = currentDate s"
  "perm_at_call (call_loadEvents s r) = calendarPermission s"
  "from_refresh (call_loadEvents s r) = r"
  by (simp_all add: call_loadEvents_def)

lemma remove_nth_mem:
  assumes "x \<in> set xs" and "x \<noteq> xs ! i"
  shows "x \<in> set (remove_nth i xs)"
proof (cases "i < length xs")
  case True
  then have "xs = take i xs @ xs ! i # drop (Suc i) xs" by (rule id_take_nth_drop)
  with assms have "x \<in> set (take i xs) \<or> x \<in> set (drop (Suc i) xs)"
    by (metis Un_iff empty_iff insert_iff list.set(2) set_append)
  then show ?thesis by (auto simp: remove_nth_def)
next
  case False
  with assms(1) show ?thesis by (simp add: remove_nth_def)
qed

lemma remove_nth_0: "remove_nth 0 xs = tl xs"
  by (simp add: remove_nth_def drop_Suc)

lemma run_effect_cases:
  "run_effect old new ds p = p \<or>
   (run_effect old new ds p = p @ [call_loadEvents new False] \<and> calendarPermission new = Granted)"
  by (simp add: run_effect_def)

lemma run_effect_mem: "x \<in> set p \<Longrightarrow> x \<in> set (run_effect old new ds p)"
  by (simp add: run_effect_def)

lemma refresh_inv_step:
  assumes "refresh_inv a"
  shows "refresh_inv (app_apply st a ev)"
proof (cases ev)
  case (FetchDone i)
  show ?thesis
  proof (cases "i < length (pending a) \<and> \<not> from_refresh (pending a ! i)")
    case True
    with assms show ?thesis unfolding FetchDone refresh_inv_def
      by (auto intro: remove_nth_mem)
  next
    case False
    with assms show ?thesis unfolding FetchDone refresh_inv_def by auto
  qed
next
  case (FetchFailed i)
  show ?thesis
  proof (cases "i < length (pending a) \<and> \<not> from_refresh (pending a ! i)")
    case True
    with assms show ?thesis unfolding FetchFailed refresh_inv_def
      by (auto intro: remove_nth_mem)
  next
    case False
    with assms show ?thesis unfolding FetchFailed refresh_inv_def by auto
  qed
qed (use assms in \<open>auto simp: refresh_inv_def Let_def intro: bexI [OF _ run_effect_mem]\<close>)

lemma fresh_inv_fetch_head:
  assumes "fresh_inv st a" and "pending a = f # rest"
  shows "fresh_inv st (app_apply st a (FetchDone 0))"
proof (cases rest)
  case Nil
  with assms show ?thesis
    by (auto simp: fresh_inv_def remove_nth_0 split: option.split)
next
  case (Cons g rest')
  with assms show ?thesis by (simp add: fresh_inv_def remove_nth_0)
qed

lemma fresh_inv_step:
  assumes "fresh_inv st a" and "in_order ev"
  shows "fresh_inv st (app_apply st a ev)"
proof (cases ev)
  case (FetchDone i)
  with assms(2) have i: "i = 0" by simp
  show ?thesis
  proof (cases "pending a")
    case Nil
    with FetchDone i assms(1) show ?thesis by simp
  next
    case (Cons f rest)
    with FetchDone i fresh_inv_fetch_head [OF assms(1)] show ?thesis by simp
  qed
next
  case (FetchFailed i)
  with assms(2) show ?thesis by simp
next
  case (UIPickDate sel)
  with assms(1) show ?thesis
    by (cases sel) (auto simp: fresh_inv_def run_effect_def Let_def split: option.split)
next
  case (PermissionResolved p)
  with assms(1) show ?thesis
    by (auto simp: fresh_inv_def run_effect_def Let_def split: option.split)
qed (use assms(1) in \<open>auto simp: fresh_inv_def run_effect_def Let_def split: option.split\<close>)

lemma reachable_fresh_inv:
  assumes "reachable_by in_order st now a"
  shows "fresh_inv st a"
  using assms
proof induction
  case init
  show ?case by (simp add: fresh_inv_def initial_app_def initial_screen_def)
next
  case (step a ev)
  from step.IH step.hyps(2) show ?case by (rule fresh_inv_step)
qed

lemma reachable_refresh_inv:
  assumes "reachable_by ok st now a"
  shows "refresh_inv a"
  using assms
proof induction
  case init
  show ?case by (simp add: refresh_inv_def initial_app_def initial_screen_def)
next
  case (step a ev)
  then show ?case by (intro refresh_inv_step)
qed

subsection \<open>The fetch window\<close>

lemma month_first_day_Suc:
  "month_first_day (k + 1) = month_first_day k + days_in_month (k div 12) (k mod 12)"
proof -
  let ?y = "k div 12" and ?m = "k mod 12"
  have m: "0 \<le> ?m" "?m < 12" by simp_all
  have "12 * ?y + (?m + 1) = 12 * ((k + 1) div 12) + (k + 1) mod 12" by simp
  then have "month_first_day (k + 1) = MakeDay ?y (?m + 1) 1"
    unfolding month_first_day_def by (rule MakeDay_month_index [symmetric])
  also have "\<dots> = MakeDay ?y (?m + 1) 0 + 1"
    using MakeDay_shift [of ?y "?m + 1" 0] by simp
  also have "\<dots> = month_first_day k + days_in_month ?y ?m"
    using MakeDay_next_month_zero [OF m, of ?y] unfolding month_first_day_def by simp
  finally show ?thesis .
qed

lemma month_first_day_step: "month_first_day k + 28 \<le> month_first_day (k + 1)"
  using month_first_day_Suc [of k] days_in_month_ge_28 [of "k div 12" k] by simp

lemma month_first_day_less: "month_first_day j < month_first_day (j + 1 + int n)"
proof (induction n)
  case 0
  show ?case using month_first_day_step [of j] by simp
next
  case (Suc n)
  have "month_first_day (j + 1 + int n) + 28 \<le> month_first_day (j + 1 + int n + 1)"
    by (rule month_first_day_step)
  with Suc.IH show ?case by (simp add: add.assoc)
qed

lemma month_first_day_less_iff: "month_first_day j < month_first_day k \<longleftrightarrow> j < k"
proof
  assume "j < k"
  then have "k = j + 1 + int (nat (k - j - 1))" by simp
  then show "month_first_day j < month_first_day k" using month_first_day_less [of j] by metis
next
  assume l: "month_first_day j < month_first_day k"
  show "j < k"
  proof (rule ccontr)
    assume "\<not> j < k"
    then consider "j = k" | "k < j" by linarith
    then show False
    proof cases
      case 1
      with l show False by simp
    next
      case 2
      then have "k = k" "j = k + 1 + int (nat (j - k - 1))" by simp_all
      then have "month_first_day k < month_first_day j" using month_first_day_less [of k] by metis
      with l show False by simp
    qed
  qed
qed

lemma MakeDay_month_first_day:
  assumes "0 \<le> m" and "m < 12"
  shows "MakeDay y m 1 = month_first_day (12 * y + m)"
proof -
  have "(12 * y + m) div 12 = y" "(12 * y + m) mod 12 = m" using assms by simp_all
  then show ?thesis by (simp add: month_first_day_def)
qed

text \<open>The window of \<open>loadEvents\<close> runs from midnight on the 1st to midnight on the last day.\<close>

lemma load_window_month:
  fixes c :: time_value
  defines "J \<equiv> 12 * js_year (getFullYear c) + getMonth c"
  shows "load_window c = (month_first_day J * msPerDay, (month_first_day (J + 1) - 1) * msPerDay)"
proof -
  let ?y = "js_year (getFullYear c)" and ?m = "getMonth c"
  have m: "0 \<le> ?m" "?m < 12" using MonthFromTime_bounds [of c] by (simp_all add: getMonth_def)
  have jd: "J div 12 = ?y" "J mod 12 = ?m" using m unfolding J_def by simp_all
  have first: "MakeDay ?y ?m 1 = month_first_day J"
    using MakeDay_month_first_day [OF m] unfolding J_def .
  have last: "MakeDay ?y (?m + 1) 0 = month_first_day (J + 1) - 1"
    using MakeDay_next_month_zero [OF m, of ?y] month_first_day_Suc [of J] first jd by simp
  show ?thesis
    using first last by (simp add: load_window_def Date_new_def MakeDate_def MakeTime_def)
qed

lemma last_day_month_first_day:
  assumes "DateFromTime t = days_in_month (YearFromTime t) (MonthFromTime t)"
  shows "Day t + 1 = month_first_day (12 * YearFromTime t + MonthFromTime t + 1)"
proof -
  let ?y = "YearFromTime t" and ?m = "MonthFromTime t"
  have m: "0 \<le> ?m" "?m < 12" using MonthFromTime_bounds [of t] by simp_all
  have "Day t = MakeDay ?y ?m 1 + (DateFromTime t - 1)"
    using MakeDay_fields [of t] MakeDay_shift [of ?y ?m "DateFromTime t"] by simp
  moreover have "(12 * ?y + ?m) div 12 = ?y" "(12 * ?y + ?m) mod 12 = ?m" using m by simp_all
  ultimately show ?thesis
    using assms month_first_day_Suc [of "12 * ?y + ?m"] MakeDay_month_first_day [OF m, of ?y] by simp
qed

text \<open>
  No fetch window reaches an event that lies within the last day of a month after its
  midnight: the window of that month ends at the midnight, the next one starts a day later.
\<close>

lemma window_misses_last_day:
  assumes last: "DateFromTime (raw_startDate e) =
      days_in_month (YearFromTime (raw_startDate e)) (MonthFromTime (raw_startDate e))"
    and late: "0 < TimeWithinDay (raw_startDate e)"
    and same: "Day (raw_endDate e) = Day (raw_startDate e)"
  shows "e \<notin> set (getEventsAsync st ids (fst (load_window c)) (snd (load_window c)))"
proof
  assume "e \<in> set (getEventsAsync st ids (fst (load_window c)) (snd (load_window c)))"
  then have s: "raw_startDate e \<le> snd (load_window c)" and t: "fst (load_window c) \<le> raw_endDate e"
    by (simp_all add: getEventsAsync_def)
  define J where "J = 12 * js_year (getFullYear c) + getMonth c"
  define K where "K = 12 * YearFromTime (raw_startDate e) + MonthFromTime (raw_startDate e)"
  define D where "D = Day (raw_startDate e)"
  have w: "load_window c = (month_first_day J * msPerDay, (month_first_day (J + 1) - 1) * msPerDay)"
    unfolding J_def by (rule load_window_month)
  have D: "D + 1 = month_first_day (K + 1)"
    using last_day_month_first_day [OF last] unfolding D_def K_def .
  have "raw_startDate e = D * msPerDay + TimeWithinDay (raw_startDate e)"
    unfolding D_def Day_def TimeWithinDay_def by simp
  with s w late have "D * msPerDay < (month_first_day (J + 1) - 1) * msPerDay" by simp
  then have "D < month_first_day (J + 1) - 1" by (simp add: msPerDay_def)
  with D have "K + 1 < J + 1" using month_first_day_less_iff [of "K + 1" "J + 1"] by simp
  then have "month_first_day (K + 1) \<le> month_first_day J"
    using month_first_day_less_iff [of "K + 1" J] by (cases "K + 1 = J") simp_all
  with D t w have "(D + 1) * msPerDay \<le> raw_endDate e" by (simp add: msPerDay_def)
  then have "D + 1 \<le> Day (raw_endDate e)" using le_Day_iff by simp
  with same show False unfolding D_def by simp
qed

lemma formatEvent_fields [simp]:
  "startDate (formatEvent e) = raw_startDate e" "endDate (formatEvent e) = raw_endDate e"
  by (simp_all add: formatEvent_def)

lemma fetch_result_mem:
  assumes "fetch_result st c = Some evs" and "ev \<in> set evs"
  shows "\<exists>e\<in>set (getEventsAsync st (map cal_id (calendars st)) (fst (load_window c)) (snd (load_window c))).
    ev = formatEvent e"
  using assms by (cases "load_window c") (auto simp: fetch_result_def Let_def split: if_splits)

lemma loaded_inv_step:
  assumes "loaded_inv st a"
  shows "loaded_inv st (app_apply st a ev)"
proof (cases ev)
  case (FetchDone i)
  have "loaded_inv st \<lparr>screen = complete_fetch st f (screen a), pending = p\<rparr>" for f p
  proof (cases "perm_at_call f = Granted \<and> fetch_result st (anchor f) \<noteq> None")
    case True
    then show ?thesis
      by (auto simp: loaded_inv_def) (blast dest: fetch_result_mem)
  next
    case False
    with assms show ?thesis by (auto simp: loaded_inv_def)
  qed
  with FetchDone assms show ?thesis by simp
qed (use assms in \<open>auto simp: loaded_inv_def Let_def split: option.split\<close>)

lemma reachable_loaded_inv:
  assumes "reachable_by ok st now a"
  shows "loaded_inv st a"
  using assms
proof induction
  case init
  show ?case by (simp add: loaded_inv_def initial_app_def initial_screen_def)
next
  case (step a ev)
  then show ?case by (intro loaded_inv_step)
qed

lemma pending_FetchDone_0 [simp]: "pending (app_apply st a (FetchDone 0)) = tl (pending a)"
  by (simp add: remove_nth_0)

lemma reachable_run_example:
  "list_all ok evs \<Longrightarrow> reachable_by ok st now (app_run st (initial_app now) evs)"
  using reachable_by_run by blast

text \<open>Evaluation of the two runs on \<open>example_store\<close> used below, from 15 February 2024, 12:00.\<close>

lemma example_fetches:
  "setMonth 1707998400000 (getMonth 1707998400000 + 1) = 1710504000000"
  "getMonth 1710504000000 = 2"
  "fetch_result example_store 1707998400000 = Some []"
  "fetch_result example_store 1710504000000 = Some (map formatEvent (store_events example_store))"
  "store_events example_store \<noteq> []"
  by (simp_all add: fetch_result_def load_window_def getEventsAsync_def example_store_def date_eval)

lemmas example_run_simps = app_run_def initial_app_def initial_screen_def run_effect_def
  call_loadEvents_def navigateMonth_def Let_def complete_fetch_def example_fetches remove_nth_def

subsection \<open>Properties of loading\<close>

text \<open>
  C11: when the fetches complete in the order they were started and none fails, then
  once none is pending (and the permission is granted) the screen shows exactly the
  events of the displayed month's window.
\<close>

theorem loadEvents_in_order_current:
  assumes "reachable_by in_order st now a" and "calendarPermission (screen a) = Granted"
    and "pending a = []" and "fetch_result st (currentDate (screen a)) = Some evs"
  shows "events (screen a) = evs"
  using reachable_fresh_inv [OF assms(1)] assms(2-4) by (simp add: fresh_inv_def)

theorem loadEvents_in_order_current_witness:
  "let a = app_run example_store (initial_app 1707998400000)
             [PermissionResolved Granted, UINavigate Next, FetchDone 0, FetchDone 0]
   in calendarPermission (screen a) = Granted \<and> pending a = [] \<and>
      fetch_result example_store (currentDate (screen a)) = Some (map formatEvent (store_events example_store)) \<and>
      events (screen a) = map formatEvent (store_events example_store)"
proof -
  let ?evs = "[PermissionResolved Granted, UINavigate Next, FetchDone 0, FetchDone 0]"
  let ?a = "app_run example_store (initial_app 1707998400000) ?evs"
  have r: "reachable_by in_order example_store 1707998400000 ?a"
    by (rule reachable_run_example) simp
  have h: "calendarPermission (screen ?a) = Granted" "pending ?a = []"
    "fetch_result example_store (currentDate (screen ?a)) = Some (map formatEvent (store_events example_store))"
    by (simp_all add: example_run_simps)
  show ?thesis using loadEvents_in_order_current [OF r h] h by (simp add: Let_def)
qed

text \<open>
  C12: nothing cancels or orders the fetches, and a completing fetch writes its own
  month's result whatever month is displayed by then. For every store and every start
  whose month and next month give different results, granting the permission, pressing
  "next month" and letting the second fetch answer before the first leaves the screen
  settled on the next month, nothing pending, showing the first month's events.
\<close>

theorem loadEvents_stale_response:
  assumes "fetch_result st now = Some evs0"
    and "fetch_result st (setMonth now (getMonth now + 1)) = Some evs1" and "evs0 \<noteq> evs1"
  shows "let a = app_run st (initial_app now) [PermissionResolved Granted, UINavigate Next, FetchDone 1, FetchDone 0]
         in reachable_by (\<lambda>_. True) st now a \<and> pending a = [] \<and> calendarPermission (screen a) = Granted \<and>
            currentDate (screen a) = setMonth now (getMonth now + 1) \<and>
            fetch_result st (currentDate (screen a)) = Some evs1 \<and> events (screen a) = evs0 \<and>
            events (screen a) \<noteq> evs1"
proof -
  let ?a = "app_run st (initial_app now) [PermissionResolved Granted, UINavigate Next, FetchDone 1, FetchDone 0]"
  have r: "reachable_by (\<lambda>_. True) st now ?a" by (rule reachable_run_example) simp
  have "pending ?a = [] \<and> calendarPermission (screen ?a) = Granted \<and>
      currentDate (screen ?a) = setMonth now (getMonth now + 1) \<and> events (screen ?a) = evs0"
    by (simp add: app_run_def initial_app_def initial_screen_def run_effect_def call_loadEvents_def
        navigateMonth_def Let_def complete_fetch_def remove_nth_def assms(1,2))
  with r assms show ?thesis by (simp add: Let_def)
qed

theorem loadEvents_stale_response_witness:
  "fetch_result example_store 1707998400000 = Some [] \<and>
   fetch_result example_store (setMonth 1707998400000 (getMonth 1707998400000 + 1)) =
     Some (map formatEvent (store_events example_store)) \<and>
   [] \<noteq> map formatEvent (store_events example_store) \<and>
   (let a = app_run example_store (initial_app 1707998400000)
              [PermissionResolved Granted, UINavigate Next, FetchDone 1, FetchDone 0]
    in pending a = [] \<and> getMonth (currentDate (screen a)) = 2 \<and> events (screen a) = [])"
proof -
  have h: "fetch_result example_store 1707998400000 = Some []"
    "fetch_result example_store (setMonth 1707998400000 (getMonth 1707998400000 + 1)) =
       Some (map formatEvent (store_events example_store))"
    "[] \<noteq> map formatEvent (store_events example_store)"
    by (simp_all add: example_fetches)
  show ?thesis using loadEvents_stale_response [OF h] h by (simp add: Let_def example_fetches)
qed

text \<open>
  C13: the refresh indicator never stays on: in every reachable state (any interleaving,
  failed fetches included) it is off once no fetch is pending.
\<close>

theorem refresh_indicator_settles:
  assumes "reachable_by ok st now a" and "pending a = []"
  shows "\<not> isRefreshing (screen a)"
  using reachable_refresh_inv [OF assms(1)] assms(2) by (simp add: refresh_inv_def)

theorem refresh_indicator_settles_witness:
  "let a = app_run example_store (initial_app 1707998400000) [UIRefresh, FetchFailed 0]
   in pending a = [] \<and> \<not> isRefreshing (screen a)"
proof -
  let ?a = "app_run example_store (initial_app 1707998400000) [UIRefresh, FetchFailed 0]"
  have r: "reachable_by (\<lambda>_. True) example_store 1707998400000 ?a"
    by (rule reachable_run_example) simp
  have p: "pending ?a = []" by (simp add: example_run_simps)
  show ?thesis using refresh_indicator_settles [OF r p] p by (simp add: Let_def)
qed

end
