(* ===== verification/Add_Event_Form.thy ===== *)
theory Add_Event_Form
  imports Screen_Fetch
begin

text \<open>
  The event-creation form \<open>AddEventModal\<close> (\<open>src/components/AddEventModal.tsx\<close>): its
  \<open>useState\<close> hooks as the record \<open>event_form\<close>, \<open>resetForm\<close>, \<open>validateForm\<close>,
  \<open>handleSaveEvent\<close> with the choice of calendar and the all-day normalisation, and
  the handlers of the four date/time pickers. The store calls it makes
  (\<open>createEventAsync\<close>) are modelled from the spec on the device store of
  \<open>Screen_Fetch\<close>; whether a store call throws is an argument chosen by the
  environment. \<open>String.prototype.trim\<close> is modelled on the 8-bit characters of HOL
  strings (tab, line feed, vertical tab, form feed, carriage return, space, no-break space).
\<close>

record event_form =
  form_title :: string
  form_description :: string
  form_location :: string
  form_startDate :: time_value
  form_endDate :: time_value
  showStartDatePicker :: bool
  showEndDatePicker :: bool
  showStartTimePicker :: bool
  showEndTimePicker :: bool
  isAllDay :: bool
  isLoading :: bool

datatype form_alert = TitleRequired | EndNotAfterStart | NoCalendar | EventCreated | CreateFailed

text \<open>One hour in milliseconds: \<open>60 * 60 * 1000\<close>.\<close>

definition hour_ms :: int where
  "hour_ms = 60 * 60 * 1000"

definition initial_form :: "time_value \<Rightarrow> event_form" where
  "initial_form sel =
     \<lparr>form_title = [], form_description = [], form_location = [],
      form_startDate = sel, form_endDate = sel + hour_ms,
      showStartDatePicker = False, showEndDatePicker = False,
      showStartTimePicker = False, showEndTimePicker = False,
      isAllDay = False, isLoading = False\<rparr>"

definition resetForm :: "time_value \<Rightarrow> event_form \<Rightarrow> event_form" where
  "resetForm sel f =
     f\<lparr>form_title := [], form_description := [], form_location := [],
       form_startDate := sel, form_endDate := sel + hour_ms, isAllDay := False\<rparr>"

definition js_space :: "char \<Rightarrow> bool" where
  "js_space c = (c \<in> {CHR 0x09, CHR 0x0A, CHR 0x0B, CHR 0x0C, CHR 0x0D, CHR 0x20, CHR 0xA0})"

definition js_trim :: "string \<Rightarrow> string" where
  "js_trim s = rev (dropWhile js_space (rev (dropWhile js_space s)))"

definition validateForm :: "event_form \<Rightarrow> form_alert + unit" where
  "validateForm f =
     (if js_trim (form_title f) = [] then Inl TitleRequired
      else if form_endDate f \<le> form_startDate f then Inl EndNotAfterStart
      else Inr ())"

text \<open>\<open>calendars.find(cal => cal.allowsModifications) || calendars[0]\<close>.\<close>

definition defaultCalendar :: "store_calendar list \<Rightarrow> store_calendar option" where
  "defaultCalendar cals =
     (case find allowsModifications cals of
        Some c \<Rightarrow> Some c
      | None \<Rightarrow> (case cals of [] \<Rightarrow> None | c # _ \<Rightarrow> Some c))"

record event_data =
  data_title :: string
  data_startDate :: time_value
  data_endDate :: time_value
  data_allDay :: bool
  data_notes :: string
  data_location :: string
  data_timeZone :: string

definition eventData :: "event_form \<Rightarrow> event_data" where
  "eventData f =
     (let sd = form_startDate f; ed = form_endDate f
      in \<lparr>data_title = js_trim (form_title f),
          data_startDate = (if isAllDay f
            then Date_new (getFullYear sd) (getMonth sd) (getDate sd) 0 0 0 0
            else sd),
          data_endDate = (if isAllDay f
            then Date_new (getFullYear ed) (getMonth ed) (getDate ed) 23 59 59 0
            else ed),
          data_allDay = isAllDay f,
          data_notes = js_trim (form_description f),
          data_location = js_trim (form_location f),
          data_timeZone = ''Europe/Rome''\<rparr>)"

text \<open>
  \<open>Calendar.createEventAsync(calendarId, fields)\<close>: the store records a new event under
  the identifier it returns (an argument here).
\<close>

definition createEventAsync :: "device_store \<Rightarrow> string \<Rightarrow> string \<Rightarrow> event_data \<Rightarrow> device_store" where
  "createEventAsync st calendarId eventId d =
     st\<lparr>store_events := store_events st @
        [\<lparr>raw_id = eventId, raw_calendarId = calendarId, raw_title = data_title d,
          raw_startDate = data_startDate d, raw_endDate = data_endDate d,
          raw_notes = Some (data_notes d), raw_location = Some (data_location d),
          raw_allDay = Some (data_allDay d)\<rparr>]\<rparr>"

text \<open>
  \<open>handleSaveEvent\<close>: the alert it shows and the store after it. \<open>storeFails\<close> says
  whether \<open>getCalendarsAsync\<close> or \<open>createEventAsync\<close> throws (the catch branch);
  \<open>isLoading\<close> is set before the first await and cleared in \<open>finally\<close>, and the save
  button is disabled in between, so it is false again afterwards.
\<close>

definition handleSaveEvent ::
  "device_store \<Rightarrow> string \<Rightarrow> bool \<Rightarrow> event_form \<Rightarrow> event_form \<times> device_store \<times> form_alert" where
  "handleSaveEvent st eventId storeFails f =
     (case validateForm f of
        Inl alert \<Rightarrow> (f, st, alert)
      | Inr _ \<Rightarrow>
          (let f1 = f\<lparr>isLoading := True\<rparr>
           in if storeFails then (f1\<lparr>isLoading := False\<rparr>, st, CreateFailed)
              else (case defaultCalendar (calendars st) of
                      None \<Rightarrow> (f1\<lparr>isLoading := False\<rparr>, st, NoCalendar)
                    | Some cal \<Rightarrow>
                        (f1\<lparr>isLoading := False\<rparr>, createEventAsync st (cal_id cal) eventId (eventData f),
                         EventCreated))))"

definition toggleAllDay :: "event_form \<Rightarrow> event_form" where
  "toggleAllDay f = f\<lparr>isAllDay := \<not> isAllDay f\<rparr>"

definition onStartDateChange :: "time_value option \<Rightarrow> event_form \<Rightarrow> event_form" where
  "onStartDateChange selected f =
     (let f1 = f\<lparr>showStartDatePicker := False\<rparr>
      in case selected of
           None \<Rightarrow> f1
         | Some d \<Rightarrow>
             (let f2 = f1\<lparr>form_startDate := d\<rparr>
              in if form_endDate f \<le> d then f2\<lparr>form_endDate := d + hour_ms\<rparr> else f2))"

definition onEndDateChange :: "time_value option \<Rightarrow> event_form \<Rightarrow> event_form" where
  "onEndDateChange selected f =
     (let f1 = f\<lparr>showEndDatePicker := False\<rparr>
      in case selected of None \<Rightarrow> f1 | Some d \<Rightarrow> f1\<lparr>form_endDate := d\<rparr>)"

definition onStartTimeChange :: "time_value option \<Rightarrow> event_form \<Rightarrow> event_form" where
  "onStartTimeChange selected f =
     (let f1 = f\<lparr>showStartTimePicker := False\<rparr>
      in case selected of
           None \<Rightarrow> f1
         | Some t \<Rightarrow>
             (let f2 = f1\<lparr>form_startDate := t\<rparr>
              in if toDateString (form_startDate f) = toDateString (form_endDate f)
                 then f2\<lparr>form_endDate := t + hour_ms\<rparr> else f2))"

definition onEndTimeChange :: "time_value option \<Rightarrow> event_form \<Rightarrow> event_form" where
  "onEndTimeChange selected f =
     (let f1 = f\<lparr>showEndTimePicker := False\<rparr>
      in case selected of None \<Rightarrow> f1 | Some t \<Rightarrow> f1\<lparr>form_endDate := t\<rparr>)"

text \<open>
  The text fields store what the user types, cut at their \<open>maxLength\<close> (100 for the
  title, 200 for the location, 500 for the description); the date and time buttons open
  their picker.
\<close>

definition changeTitle :: "string \<Rightarrow> event_form \<Rightarrow> event_form" where
  "changeTitle txt f = f\<lparr>form_title := take 100 txt\<rparr>"

definition changeLocation :: "string \<Rightarrow> event_form \<Rightarrow> event_form" where
  "changeLocation txt f = f\<lparr>form_location := take 200 txt\<rparr>"

definition changeDescription :: "string \<Rightarrow> event_form \<Rightarrow> event_form" where
  "changeDescription txt f = f\<lparr>form_description := take 500 txt\<rparr>"

datatype form_picker = StartDatePicker | EndDatePicker | StartTimePicker | EndTimePicker

definition openFormPicker :: "form_picker \<Rightarrow> event_form \<Rightarrow> event_form" where
  "openFormPicker p f =
     (case p of
        StartDatePicker \<Rightarrow> f\<lparr>showStartDatePicker := True\<rparr>
      | EndDatePicker \<Rightarrow> f\<lparr>showEndDatePicker := True\<rparr>
      | StartTimePicker \<Rightarrow> f\<lparr>showStartTimePicker := True\<rparr>
      | EndTimePicker \<Rightarrow> f\<lparr>showEndTimePicker := True\<rparr>)"

text \<open>
  The rendered form. A picker element carries the value it shows and, for the end date,
  its \<open>minimumDate\<close>; the formatted dates and times are kept as the time values they
  format.
\<close>

datatype picker_view = DatePickerView time_value "time_value option" | TimePickerView time_value

record form_view =
  fv_visible :: bool
  fv_save_label :: string
  fv_save_enabled :: bool
  fv_title :: string
  fv_all_day :: bool
  fv_start_date :: time_value
  fv_start_time :: "time_value option"
  fv_end_date :: time_value
  fv_end_time :: "time_value option"
  fv_location :: string
  fv_description :: string
  fv_pickers :: "picker_view list"

definition renderAddEventModal :: "bool \<Rightarrow> event_form \<Rightarrow> form_view" where
  "renderAddEventModal visible f =
     \<lparr>fv_visible = visible,
      fv_save_label = (if isLoading f then ''Salvataggio...'' else ''Salva''),
      fv_save_enabled = (\<not> isLoading f),
      fv_title = form_title f, fv_all_day = isAllDay f,
      fv_start_date = form_startDate f,
      fv_start_time = (if \<not> isAllDay f then Some (form_startDate f) else None),
      fv_end_date = form_endDate f,
      fv_end_time = (if \<not> isAllDay f then Some (form_endDate f) else None),
      fv_location = form_location f, fv_description = form_description f,
      fv_pickers =
        (if showStartDatePicker f then [DatePickerView (form_startDate f) None] else []) @
        (if showEndDatePicker f then [DatePickerView (form_endDate f) (Some (form_startDate f))] else []) @
        (if showStartTimePicker f then [TimePickerView (form_startDate f)] else []) @
        (if showEndTimePicker f then [TimePickerView (form_endDate f)] else [])\<rparr>"

subsection \<open>Facts on the form\<close>

lemma validateForm_Inl_iff:
  "validateForm f = Inl TitleRequired \<longleftrightarrow> js_trim (form_title f) = []"
  "validateForm f = Inl EndNotAfterStart \<longleftrightarrow> js_trim (form_title f) \<noteq> [] \<and> form_endDate f \<le> form_startDate f"
  "validateForm f = Inr u \<longleftrightarrow> js_trim (form_title f) \<noteq> [] \<and> form_startDate f < form_endDate f"
  by (auto simp: validateForm_def)

lemma defaultCalendar_mem:
  assumes "defaultCalendar cals = Some cal"
  shows "cal \<in> set cals"
proof (cases "find allowsModifications cals")
  case None
  with assms show ?thesis by (cases cals) (simp_all add: defaultCalendar_def)
next
  case (Some c)
  then have "c \<in> set cals" by (metis find_Some_iff nth_mem)
  with Some assms show ?thesis by (simp add: defaultCalendar_def)
qed

lemma defaultCalendar_writable:
  assumes "\<exists>c\<in>set cals. allowsModifications c"
  shows "\<exists>cal. defaultCalendar cals = Some cal \<and> allowsModifications cal"
proof -
  from assms have "find allowsModifications cals \<noteq> None" by (auto simp: find_None_iff)
  then obtain c where c: "find allowsModifications cals = Some c" by blast
  then have "allowsModifications c" by (metis find_Some_iff)
  with c show ?thesis by (simp add: defaultCalendar_def)
qed

lemma validateForm_alerts: "validateForm f = Inl a \<Longrightarrow> a = TitleRequired \<or> a = EndNotAfterStart"
  by (auto simp: validateForm_def split: if_splits)

lemma handleSaveEvent_created:
  assumes "handleSaveEvent st eventId storeFails f = (f', st', EventCreated)"
  shows "\<exists>cal. validateForm f = Inr () \<and> defaultCalendar (calendars st) = Some cal \<and>
    st' = createEventAsync st (cal_id cal) eventId (eventData f)"
proof (cases "validateForm f")
  case (Inl a)
  with assms validateForm_alerts [OF Inl] show ?thesis by (auto simp: handleSaveEvent_def)
next
  case (Inr u)
  then have v: "validateForm f = Inr ()" by simp
  show ?thesis
  proof (cases "defaultCalendar (calendars st)")
    case None
    with v assms show ?thesis by (cases storeFails) (simp_all add: handleSaveEvent_def Let_def)
  next
    case (Some cal)
    with v assms show ?thesis by (cases storeFails) (simp_all add: handleSaveEvent_def Let_def)
  qed
qed

lemma all_day_bounds:
  assumes "\<not> (0 \<le> getFullYear d \<and> getFullYear d \<le> 99)"
  shows "Date_new (getFullYear d) (getMonth d) (getDate d) 0 0 0 0 = Day d * msPerDay"
    and "Date_new (getFullYear d) (getMonth d) (getDate d) 23 59 59 0 = Day d * msPerDay + 86399000"
  using day_window [OF assms] by simp_all

lemma Day_mono: "x \<le> y \<Longrightarrow> Day x \<le> Day y"
  by (simp add: Day_def zdiv_mono1 msPerDay_def)

lemma eventData_order:
  assumes "form_startDate f < form_endDate f"
    and "\<not> (0 \<le> getFullYear (form_startDate f) \<and> getFullYear (form_startDate f) \<le> 99)"
    and "\<not> (0 \<le> getFullYear (form_endDate f) \<and> getFullYear (form_endDate f) \<le> 99)"
  shows "data_startDate (eventData f) < data_endDate (eventData f)"
proof (cases "isAllDay f")
  case True
  have "Day (form_startDate f) \<le> Day (form_endDate f)" using assms(1) by (intro Day_mono) simp
  with True show ?thesis
    by (simp add: eventData_def Let_def all_day_bounds [OF assms(2)] all_day_bounds [OF assms(3)] msPerDay_def)
next
  case False
  with assms(1) show ?thesis by (simp add: eventData_def Let_def)
qed

lemma eventData_all_day:
  assumes "isAllDay f"
    and "\<not> (0 \<le> getFullYear (form_startDate f) \<and> getFullYear (form_startDate f) \<le> 99)"
    and "\<not> (0 \<le> getFullYear (form_endDate f) \<and> getFullYear (form_endDate f) \<le> 99)"
  shows "TimeWithinDay (data_startDate (eventData f)) = 0 \<and> TimeWithinDay (data_endDate (eventData f)) = 86399000"
  using assms by (simp add: eventData_def Let_def all_day_bounds TimeWithinDay_def msPerDay_def)

lemma year_2024_form: "\<not> (0 \<le> getFullYear 1710061200000 \<and> getFullYear 1710061200000 \<le> 99)"
  "\<not> (0 \<le> getFullYear 1710064800000 \<and> getFullYear 1710064800000 \<le> 99)"
  by (simp_all add: date_eval)

text \<open>
  The form is mounted once with the screen (\<open>index.tsx\<close>, lines 438-443), so
  \<open>useState(selectedDate)\<close> keeps the date selected at mount: after pressing another
  day and opening the form, its start is still on the mount day.
\<close>

lemma form_start_from_mount:
  "let s0 = (initial_screen 1710072000000)\<lparr>calendarPermission := Granted\<rparr>;
       f0 = initial_form (selectedDate s0);
       s1 = fst (handleAddEvent (handleDatePress 1710158400000 s0))
   in showAddEventModal s1 \<and> toDateString (form_startDate f0) \<noteq> toDateString (selectedDate s1)"
  by (simp add: initial_form_def handleAddEvent_def handleDatePress_def initial_screen_def
      toDateString_eq_iff Day_def msPerDay_def)

lemma created_event_data:
  assumes "handleSaveEvent st eventId storeFails f = (f', st', EventCreated)"
  shows "\<exists>cal. cal \<in> set (calendars st) \<and>
    last (store_events st') = \<lparr>raw_id = eventId, raw_calendarId = cal_id cal, raw_title = data_title (eventData f),
       raw_startDate = data_startDate (eventData f), raw_endDate = data_endDate (eventData f),
       raw_notes = Some (data_notes (eventData f)), raw_location = Some (data_location (eventData f)),
       raw_allDay = Some (data_allDay (eventData f))\<rparr>"
proof -
  obtain cal :: store_calendar where c: "defaultCalendar (calendars st) = Some cal"
    and st': "st' = createEventAsync st (cal_id cal) eventId (eventData f)"
    using handleSaveEvent_created [OF assms] by blast
  show ?thesis using defaultCalendar_mem [OF c] st' by (auto simp: createEventAsync_def)
qed

subsection \<open>Properties of the form\<close>

text \<open>
  C15: a form whose end is not after its start is rejected before any store call: the
  form and the store are unchanged and the alert names the first failed check.
\<close>

theorem handleSaveEvent_rejects_before_store:
  assumes "form_endDate f \<le> form_startDate f"
  shows "handleSaveEvent st eventId storeFails f =
    (f, st, if js_trim (form_title f) = [] then TitleRequired else EndNotAfterStart)"
  using assms by (simp add: handleSaveEvent_def validateForm_def)

theorem handleSaveEvent_rejects_before_store_witness:
  "form_endDate ((initial_form 1710061200000)\<lparr>form_title := ''Riunione'', form_endDate := 1710061200000\<rparr>) \<le>
     form_startDate ((initial_form 1710061200000)\<lparr>form_title := ''Riunione'', form_endDate := 1710061200000\<rparr>) \<and>
   handleSaveEvent example_store ''e2'' False
     ((initial_form 1710061200000)\<lparr>form_title := ''Riunione'', form_endDate := 1710061200000\<rparr>) =
   ((initial_form 1710061200000)\<lparr>form_title := ''Riunione'', form_endDate := 1710061200000\<rparr>, example_store,
    EndNotAfterStart)"
proof -
  let ?f = "(initial_form 1710061200000)\<lparr>form_title := ''Riunione'', form_endDate := 1710061200000\<rparr>"
  have h: "form_endDate ?f \<le> form_startDate ?f" by (simp add: initial_form_def)
  have t: "js_trim (form_title ?f) \<noteq> []" by (simp add: js_trim_def js_space_def)
  show ?thesis using handleSaveEvent_rejects_before_store [OF h, of example_store "''e2''" False] h t by simp
qed

text \<open>
  C16: a save that reports success added exactly one event to a calendar of the store,
  under the identifier the store returned, with the trimmed non-empty title and its end
  after its start; an all-day event runs from midnight to 23:59:59 of its days.
\<close>

theorem handleSaveEvent_creates_valid_event:
  assumes "handleSaveEvent st eventId storeFails f = (f', st', EventCreated)"
    and "\<not> (0 \<le> getFullYear (form_startDate f) \<and> getFullYear (form_startDate f) \<le> 99)"
    and "\<not> (0 \<le> getFullYear (form_endDate f) \<and> getFullYear (form_endDate f) \<le> 99)"
  shows "\<exists>e cal. store_events st' = store_events st @ [e] \<and> cal \<in> set (calendars st) \<and>
    raw_calendarId e = cal_id cal \<and> raw_id e = eventId \<and> raw_startDate e < raw_endDate e \<and>
    raw_title e = js_trim (form_title f) \<and> raw_title e \<noteq> [] \<and>
    (isAllDay f \<longrightarrow> TimeWithinDay (raw_startDate e) = 0 \<and> TimeWithinDay (raw_endDate e) = 86399000)"
proof -
  obtain cal where v: "validateForm f = Inr ()" and c: "defaultCalendar (calendars st) = Some cal"
    and st': "st' = createEventAsync st (cal_id cal) eventId (eventData f)"
    using handleSaveEvent_created [OF assms(1)] by blast
  have ok: "js_trim (form_title f) \<noteq> []" "form_startDate f < form_endDate f"
    using v validateForm_Inl_iff(3) by blast+
  show ?thesis
    using st' defaultCalendar_mem [OF c] ok eventData_order [OF ok(2) assms(2,3)]
      eventData_all_day [OF _ assms(2,3)]
    by (auto simp: createEventAsync_def eventData_def Let_def)
qed

theorem handleSaveEvent_creates_valid_event_witness:
  "let f = (initial_form 1710061200000)\<lparr>form_title := '' Riunione '', isAllDay := True\<rparr>
   in snd (snd (handleSaveEvent example_store ''e2'' False f)) = EventCreated \<and>
      (\<exists>e cal. store_events (fst (snd (handleSaveEvent example_store ''e2'' False f))) = store_events example_store @ [e] \<and>
        cal \<in> set (calendars example_store) \<and> raw_calendarId e = cal_id cal \<and> raw_id e = ''e2'' \<and>
        raw_startDate e < raw_endDate e \<and> raw_title e = js_trim (form_title f) \<and> raw_title e \<noteq> [] \<and>
        (isAllDay f \<longrightarrow> TimeWithinDay (raw_startDate e) = 0 \<and> TimeWithinDay (raw_endDate e) = 86399000))"
proof -
  let ?f = "(initial_form 1710061200000)\<lparr>form_title := '' Riunione '', isAllDay := True\<rparr>"
  have v: "validateForm ?f = Inr ()"
    by (simp add: validateForm_def js_trim_def js_space_def initial_form_def hour_ms_def)
  have c: "defaultCalendar (calendars example_store) = Some \<lparr>cal_id = ''1'', cal_title = ''Personale'', cal_color = None, cal_source_name = ''iCloud'',
        allowsModifications = True\<rparr>"
    by (simp add: defaultCalendar_def example_store_def)
  let ?r = "handleSaveEvent example_store ''e2'' False ?f"
  have r: "?r = (fst ?r, fst (snd ?r), EventCreated)"
    by (simp add: handleSaveEvent_def v c Let_def)
  have y: "\<not> (0 \<le> getFullYear (form_startDate ?f) \<and> getFullYear (form_startDate ?f) \<le> 99)"
    "\<not> (0 \<le> getFullYear (form_endDate ?f) \<and> getFullYear (form_endDate ?f) \<le> 99)"
    using year_2024_form by (simp_all add: initial_form_def hour_ms_def)
  have e: "snd (snd ?r) = EventCreated" by (simp add: handleSaveEvent_def v c Let_def)
  from handleSaveEvent_creates_valid_event [OF r y] e show ?thesis by (simp add: Let_def)
qed

text \<open>
  C17: choosing a start date always leaves the end after the start: the handler moves the
  end to one hour after the new start when it is not after it.
\<close>

theorem onStartDateChange_orders:
  "form_startDate (onStartDateChange (Some d) f) < form_endDate (onStartDateChange (Some d) f)"
  by (simp add: onStartDateChange_def Let_def hour_ms_def)

text \<open>
  C18: choosing a start time on the start's day keeps the end after the start: on a
  one-day event the end moves to an hour after the new start, otherwise the end lies on
  a later day.
\<close>

theorem onStartTimeChange_keeps_order:
  assumes "form_startDate f < form_endDate f" and "Day t = Day (form_startDate f)"
  shows "form_startDate (onStartTimeChange (Some t) f) < form_endDate (onStartTimeChange (Some t) f)"
proof (cases "Day (form_startDate f) = Day (form_endDate f)")
  case True
  then show ?thesis by (simp add: onStartTimeChange_def Let_def toDateString_eq_iff hour_ms_def)
next
  case False
  with assms(1) have "Day (form_startDate f) < Day (form_endDate f)"
    using Day_mono [of "form_startDate f" "form_endDate f"] by simp
  with assms(2) have "Day t < Day (form_endDate f)" by simp
  then have "t < form_endDate f"
    using Day_mono [of "form_endDate f" t] by linarith
  with False show ?thesis by (simp add: onStartTimeChange_def Let_def toDateString_eq_iff)
qed

theorem onStartTimeChange_keeps_order_witness:
  "form_startDate (initial_form 1710061200000) < form_endDate (initial_form 1710061200000) \<and>
   Day 1710068400000 = Day (form_startDate (initial_form 1710061200000)) \<and>
   form_startDate (onStartTimeChange (Some 1710068400000) (initial_form 1710061200000)) <
     form_endDate (onStartTimeChange (Some 1710068400000) (initial_form 1710061200000))"
proof -
  have h: "form_startDate (initial_form 1710061200000) < form_endDate (initial_form 1710061200000)"
    "Day 1710068400000 = Day (form_startDate (initial_form 1710061200000))"
    by (simp_all add: initial_form_def hour_ms_def Day_def msPerDay_def)
  show ?thesis using onStartTimeChange_keeps_order [OF h] h by simp
qed


text \<open>
  C26: a save that does not report success leaves the device store as it was and keeps
  everything the user entered (only the loading flag is reset), whether validation failed,
  no calendar exists or the store threw.
\<close>

theorem handleSaveEvent_error_keeps_input:
  assumes "handleSaveEvent st eventId storeFails f = (f', st', alert)" and "alert \<noteq> EventCreated"
  shows "st' = st \<and> f'\<lparr>isLoading := isLoading f\<rparr> = f"
  using assms by (auto simp: handleSaveEvent_def Let_def split: sum.splits option.splits if_splits)

theorem handleSaveEvent_error_keeps_input_witness:
  "let f = (initial_form 1710061200000)\<lparr>form_title := ''Riunione''\<rparr>;
       r = handleSaveEvent example_store ''e2'' True f
   in r = (fst r, fst (snd r), CreateFailed) \<and> CreateFailed \<noteq> EventCreated \<and>
      fst (snd r) = example_store \<and> (fst r)\<lparr>isLoading := isLoading f\<rparr> = f"
proof -
  let ?f = "(initial_form 1710061200000)\<lparr>form_title := ''Riunione''\<rparr>"
  let ?r = "handleSaveEvent example_store ''e2'' True ?f"
  have v: "validateForm ?f = Inr ()"
    by (simp add: validateForm_def js_trim_def js_space_def initial_form_def hour_ms_def)
  have r: "?r = (fst ?r, fst (snd ?r), CreateFailed)" by (simp add: handleSaveEvent_def v Let_def)
  show ?thesis using handleSaveEvent_error_keeps_input [OF r] r by (simp add: Let_def)
qed

text \<open>
  C27: an all-day event the form creates is listed by the event locator on exactly the
  days from its start to its end: the stored end at 23:59:59 keeps it off the next day.
\<close>

theorem created_all_day_listed:
  assumes "handleSaveEvent st eventId storeFails f = (f', st', EventCreated)" and "isAllDay f"
    and "\<not> (0 \<le> getFullYear (form_startDate f) \<and> getFullYear (form_startDate f) \<le> 99)"
    and "\<not> (0 \<le> getFullYear (form_endDate f) \<and> getFullYear (form_endDate f) \<le> 99)"
    and "\<not> (0 \<le> getFullYear date \<and> getFullYear date \<le> 99)"
  shows "getEventsForDate [formatEvent (last (store_events st'))] date \<noteq> [] \<longleftrightarrow>
    Day (form_startDate f) \<le> Day date \<and> Day date \<le> Day (form_endDate f)"
proof -
  have v: "form_startDate f < form_endDate f"
    using handleSaveEvent_created [OF assms(1)] validateForm_Inl_iff(3) by blast
  then have le: "Day (form_startDate f) \<le> Day (form_endDate f)" by (intro Day_mono) simp
  obtain cal :: store_calendar where l: "last (store_events st') = \<lparr>raw_id = eventId, raw_calendarId = cal_id cal,
       raw_title = data_title (eventData f),
       raw_startDate = data_startDate (eventData f), raw_endDate = data_endDate (eventData f),
       raw_notes = Some (data_notes (eventData f)), raw_location = Some (data_location (eventData f)),
       raw_allDay = Some (data_allDay (eventData f))\<rparr>"
    using created_event_data [OF assms(1)] by blast
  have s: "Day (data_startDate (eventData f)) = Day (form_startDate f)"
    and e: "Day (data_endDate (eventData f)) = Day (form_endDate f)"
    using assms(2) by (simp_all add: eventData_def Let_def all_day_bounds [OF assms(3)]
        all_day_bounds [OF assms(4)] Day_def msPerDay_def)
  show ?thesis
    unfolding getEventsForDate_eventsOnDate [OF assms(5)] l
    using s e le by (auto simp: eventsOnDate_def occurs_on_day_def)
qed
theorem created_all_day_listed_witness:
  "let f = (initial_form 1710061200000)\<lparr>form_title := ''Ferie'', isAllDay := True\<rparr>;
       r = handleSaveEvent example_store ''e2'' False f
   in r = (fst r, fst (snd r), EventCreated) \<and> isAllDay f \<and>
      \<not> (0 \<le> getFullYear (form_startDate f) \<and> getFullYear (form_startDate f) \<le> 99) \<and>
      \<not> (0 \<le> getFullYear (form_endDate f) \<and> getFullYear (form_endDate f) \<le> 99) \<and>
      \<not> (0 \<le> getFullYear 1710158400000 \<and> getFullYear 1710158400000 \<le> 99) \<and>
      (getEventsForDate [formatEvent (last (store_events (fst (snd r))))] 1710158400000 \<noteq> [] \<longleftrightarrow>
       Day (form_startDate f) \<le> Day 1710158400000 \<and> Day 1710158400000 \<le> Day (form_endDate f))"
proof -
  let ?f = "(initial_form 1710061200000)\<lparr>form_title := ''Ferie'', isAllDay := True\<rparr>"
  let ?r = "handleSaveEvent example_store ''e2'' False ?f"
  have v: "validateForm ?f = Inr ()"
    by (simp add: validateForm_def js_trim_def js_space_def initial_form_def hour_ms_def)
  have c: "defaultCalendar (calendars example_store) \<noteq> None"
    by (simp add: defaultCalendar_def example_store_def)
  have r: "?r = (fst ?r, fst (snd ?r), EventCreated)"
    using c by (auto simp: handleSaveEvent_def v Let_def split: option.split)
  have h: "isAllDay ?f"
    "\<not> (0 \<le> getFullYear (form_startDate ?f) \<and> getFullYear (form_startDate ?f) \<le> 99)"
    "\<not> (0 \<le> getFullYear (form_endDate ?f) \<and> getFullYear (form_endDate ?f) \<le> 99)"
    "\<not> (0 \<le> getFullYear 1710158400000 \<and> getFullYear 1710158400000 \<le> 99)"
    using year_2024_form year_2024_march(2) by (simp_all add: initial_form_def hour_ms_def)
  show ?thesis using created_all_day_listed [OF r h] r h by (simp add: Let_def)
qed

text \<open>
  The all-day normalisation rebuilds dates with \<open>new Date(getFullYear(), ...)\<close>, which reads
  a year 0..99 as 1900..1999: an all-day event from 31 December 99 to 1 January 100 passes
  validation and is stored ending about nineteen centuries before it starts.
\<close>

lemma handleSaveEvent_all_day_year_99:
  "let f = (initial_form (- 59011502400000))\<lparr>form_title := ''Capodanno'', form_endDate := - 59011416000000,
             isAllDay := True\<rparr>;
       r = handleSaveEvent example_store ''e2'' False f
   in r = (fst r, fst (snd r), EventCreated) \<and> form_startDate f < form_endDate f \<and>
      getFullYear (form_startDate f) = 99 \<and> getFullYear (form_endDate f) = 100 \<and>
      raw_endDate (last (store_events (fst (snd r)))) < raw_startDate (last (store_events (fst (snd r))))"
proof -
  let ?f = "(initial_form (- 59011502400000))\<lparr>form_title := ''Capodanno'', form_endDate := - 59011416000000,
             isAllDay := True\<rparr>"
  have v: "validateForm ?f = Inr ()"
    by (simp add: validateForm_def js_trim_def js_space_def initial_form_def)
  have c: "defaultCalendar (calendars example_store) = Some (hd (calendars example_store))"
    by (simp add: defaultCalendar_def example_store_def)
  have y: "getFullYear (- 59011502400000) = 99" "getMonth (- 59011502400000) = 11"
    "getDate (- 59011502400000) = 31" "getFullYear (- 59011416000000) = 100"
    "getMonth (- 59011416000000) = 0" "getDate (- 59011416000000) = 1"
    by (simp_all add: date_eval)
  have n: "Date_new 99 11 31 0 0 0 0 = 946598400000" "Date_new 100 0 1 23 59 59 0 < 0"
    by (simp_all add: date_eval)
  have d: "data_startDate (eventData ?f) = 946598400000" "data_endDate (eventData ?f) < 0"
    by (simp_all add: eventData_def initial_form_def Let_def y n)
  have r: "handleSaveEvent example_store ''e2'' False ?f =
      (?f\<lparr>isLoading := False\<rparr>, createEventAsync example_store (cal_id (hd (calendars example_store))) ''e2'' (eventData ?f),
       EventCreated)"
    by (simp add: handleSaveEvent_def v c Let_def)
  have s: "form_startDate ?f < form_endDate ?f" by (simp add: initial_form_def)
  show ?thesis using d r s y by (simp add: createEventAsync_def Let_def initial_form_def)
qed

text \<open>
  C28: for every all-day event the form saves, a start or end in a year 0..99 is stored on
  the same month and day of the year 1900 later (\<open>new Date\<close>'s two-digit year rule, with
  its day overflow), so the stored event is not the one the user chose.
\<close>

theorem handleSaveEvent_all_day_two_digit_year:
  assumes "handleSaveEvent st eventId storeFails f = (f', st', EventCreated)" and "isAllDay f"
  shows "(0 \<le> getFullYear (form_startDate f) \<and> getFullYear (form_startDate f) \<le> 99 \<longrightarrow>
            Day (raw_startDate (last (store_events st'))) =
              MakeDay (getFullYear (form_startDate f) + 1900) (getMonth (form_startDate f)) (getDate (form_startDate f))) \<and>
         (0 \<le> getFullYear (form_endDate f) \<and> getFullYear (form_endDate f) \<le> 99 \<longrightarrow>
            Day (raw_endDate (last (store_events st'))) =
              MakeDay (getFullYear (form_endDate f) + 1900) (getMonth (form_endDate f)) (getDate (form_endDate f)))"
proof -
  obtain cal :: store_calendar where e: "last (store_events st') = \<lparr>raw_id = eventId, raw_calendarId = cal_id cal, raw_title = data_title (eventData f),
       raw_startDate = data_startDate (eventData f), raw_endDate = data_endDate (eventData f),
       raw_notes = Some (data_notes (eventData f)), raw_location = Some (data_location (eventData f)),
       raw_allDay = Some (data_allDay (eventData f))\<rparr>"
    using created_event_data [OF assms(1)] by blast
  have end_day: "Day (Date_new y m d 23 59 59 0) = MakeDay (js_year y) m d" for y m d
    by (rule Day_Date_new) (simp_all add: MakeTime_def msPerDay_def)
  show ?thesis
    using assms(2) by (simp add: e eventData_def Let_def Day_Date_new_midnight end_day js_year_def add.commute)
qed

theorem handleSaveEvent_all_day_two_digit_year_witness:
  "let f = (initial_form (- 59011502400000))\<lparr>form_title := ''Capodanno'', form_endDate := - 59011416000000,
             isAllDay := True\<rparr>;
       r = handleSaveEvent example_store ''e2'' False f
   in r = (fst r, fst (snd r), EventCreated) \<and> isAllDay f \<and>
      0 \<le> getFullYear (form_startDate f) \<and> getFullYear (form_startDate f) \<le> 99 \<and>
      Day (raw_startDate (last (store_events (fst (snd r))))) = MakeDay 1999 11 31"
proof -
  let ?f = "(initial_form (- 59011502400000))\<lparr>form_title := ''Capodanno'', form_endDate := - 59011416000000,
             isAllDay := True\<rparr>"
  let ?r = "handleSaveEvent example_store ''e2'' False ?f"
  have r: "?r = (fst ?r, fst (snd ?r), EventCreated)" and y: "getFullYear (form_startDate ?f) = 99"
    using handleSaveEvent_all_day_year_99 by (simp_all add: Let_def)
  have m: "getMonth (form_startDate ?f) = 11" "getDate (form_startDate ?f) = 31"
    by (simp_all add: initial_form_def date_eval)
  have "Day (raw_startDate (last (store_events (fst (snd ?r))))) = MakeDay (99 + 1900) 11 31"
    using handleSaveEvent_all_day_two_digit_year [OF r] y m by simp
  then show ?thesis using r y by (simp add: Let_def)
qed

end
