(* ===== verification/Screen_View.thy ===== *)
theory Screen_View
  imports Calendar_Screen Month_Grid
begin

text \<open>
  What \<open>CalendarScreen\<close> renders (\<open>src/app/(tabs)/(home)/index.tsx\<close>, lines 178-446), as
  view models: one value per rendered element carrying the data and the conditions the
  JSX tests (selected, today, event dots, the "+n" label, the cards of the selected day).
  Locale formatting (\<open>toLocaleDateString\<close>, \<open>toLocaleTimeString\<close>) is kept here as the
  time value it formats; the month header's label is built in \<open>Locale_Format\<close>, and the
  styles and widths of the grid in \<open>Grid_Layout\<close>.
\<close>

definition weekDays :: "string list" where
  "weekDays = [''Dom'', ''Lun'', ''Mar'', ''Mer'', ''Gio'', ''Ven'', ''Sab'']"

datatype day_cell_view =
    EmptyCell
  | DayCell (cell_date: time_value) (cell_selected: bool) (cell_today: bool) (cell_label: int)
      (cell_dots: nat) (cell_more: "nat option")

definition renderDayCell :: "screen_state \<Rightarrow> time_value \<Rightarrow> time_value \<Rightarrow> day_cell_view" where
  "renderDayCell s now day =
     (let isSelected = (toDateString (selectedDate s) = toDateString day);
          isToday = (toDateString now = toDateString day);
          dayEvents = getEventsForDate (events s) day;
          hasEvents = 0 < length dayEvents
      in DayCell day isSelected isToday (getDate day)
           (if hasEvents then length (take 3 dayEvents) else 0)
           (if hasEvents \<and> 3 < length dayEvents then Some (length dayEvents - 3) else None))"

definition renderCalendarGrid :: "screen_state \<Rightarrow> time_value \<Rightarrow> day_cell_view list" where
  "renderCalendarGrid s now =
     map (\<lambda>day. case day of None \<Rightarrow> EmptyCell | Some d \<Rightarrow> renderDayCell s now d)
       (getDaysInMonth (currentDate s))"

record event_card =
  card_title :: string
  card_time :: "(time_value \<times> time_value) option"
  card_all_day :: bool
  card_description :: "string option"
  card_location :: "string option"

text \<open>A JavaScript string is truthy when it is defined and non-empty.\<close>

definition shown_text :: "string option \<Rightarrow> string option" where
  "shown_text s = (case s of Some t \<Rightarrow> if t = [] then None else Some t | None \<Rightarrow> None)"

definition renderEventCard :: "calendar_event \<Rightarrow> event_card" where
  "renderEventCard event =
     \<lparr>card_title = title event,
      card_time = (if allDay event \<noteq> Some True then Some (startDate event, endDate event) else None),
      card_all_day = (allDay event = Some True),
      card_description = shown_text (description event),
      card_location = shown_text (location event)\<rparr>"

datatype day_list_view = NoEventsForDate | EventCards "event_card list"

definition renderSelectedDateEvents :: "screen_state \<Rightarrow> time_value \<times> day_list_view" where
  "renderSelectedDateEvents s =
     (let dayEvents = getEventsForDate (events s) (selectedDate s)
      in (selectedDate s,
          if length dayEvents = 0 then NoEventsForDate else EventCards (map renderEventCard dayEvents)))"

record screen_view =
  header_month :: time_value
  week_day_headers :: "string list"
  grid :: "day_cell_view list"
  day_list :: "time_value \<times> day_list_view"
  refreshing :: bool
  date_picker :: "time_value option"
  add_modal_visible :: bool
  add_modal_date :: time_value

definition is_selected_cell :: "day_cell_view \<Rightarrow> bool" where
  "is_selected_cell c = (case c of EmptyCell \<Rightarrow> False | DayCell _ sel _ _ _ _ \<Rightarrow> sel)"

definition is_today_cell :: "day_cell_view \<Rightarrow> bool" where
  "is_today_cell c = (case c of EmptyCell \<Rightarrow> False | DayCell _ _ today _ _ _ \<Rightarrow> today)"

text \<open>A cell showing the day of \<open>t\<close>.\<close>

definition cell_on_day :: "time_value \<Rightarrow> day_cell_view \<Rightarrow> bool" where
  "cell_on_day t c = (case c of EmptyCell \<Rightarrow> False | DayCell d _ _ _ _ _ \<Rightarrow> Day t = Day d)"

definition renderScreen :: "screen_state \<Rightarrow> time_value \<Rightarrow> screen_view" where
  "renderScreen s now =
     \<lparr>header_month = currentDate s, week_day_headers = weekDays,
      grid = renderCalendarGrid s now, day_list = renderSelectedDateEvents s,
      refreshing = isRefreshing s,
      date_picker = (if showDatePicker s then Some (currentDate s) else None),
      add_modal_visible = showAddEventModal s, add_modal_date = selectedDate s\<rparr>"

subsection \<open>Facts on the view\<close>

text \<open>The locator reads its date only through the day it falls on.\<close>

lemma getEventsForDate_same_Day:
  assumes "Day d = Day d'"
  shows "getEventsForDate evs d = getEventsForDate evs d'"
proof -
  have "getFullYear d = getFullYear d'" "getMonth d = getMonth d'" "getDate d = getDate d'"
    using fields_same_Day [OF assms] by (simp_all add: getFullYear_def getMonth_def getDate_def)
  moreover have "toDateString d = toDateString d'" using assms by (simp add: toDateString_eq_iff)
  ultimately show ?thesis by (simp add: getEventsForDate_def)
qed

lemma renderDayCell_fields [simp]:
  "renderDayCell s now d \<noteq> EmptyCell"
  "cell_date (renderDayCell s now d) = d"
  "cell_selected (renderDayCell s now d) = (Day (selectedDate s) = Day d)"
  "cell_dots (renderDayCell s now d) = min 3 (length (getEventsForDate (events s) d))"
  "cell_more (renderDayCell s now d) =
     (if 3 < length (getEventsForDate (events s) d) then Some (length (getEventsForDate (events s) d) - 3) else None)"
  by (simp_all add: renderDayCell_def Let_def toDateString_eq_iff min_def)

lemma filter_eq_distinct:
  "distinct xs \<Longrightarrow> filter (\<lambda>k. k = c) xs = (if c \<in> set xs then [c] else [])"
  by (induction xs) auto

lemma count_upto_eq:
  "length (filter (\<lambda>k. k = c) [1..n]) = (if 1 \<le> c \<and> c \<le> n then 1 else 0)"
  by (simp add: filter_eq_distinct)

lemma grid_cell_selected_iff:
  assumes "\<not> (0 \<le> y \<and> y \<le> 99)" and "0 \<le> m" "m < 12" and "1 \<le> k" "k \<le> days_in_month y m"
  shows "Day sel = Day (Date_new y m k 0 0 0 0) \<longleftrightarrow>
    YearFromTime sel = y \<and> MonthFromTime sel = m \<and> DateFromTime sel = k"
proof -
  have d: "Day (Date_new y m k 0 0 0 0) = MakeDay y m k"
    using Day_Date_new_midnight [of y m k] js_year_id [OF assms(1)] by simp
  show ?thesis
  proof
    assume "Day sel = Day (Date_new y m k 0 0 0 0)"
    with d have "Day sel = MakeDay y m k" by simp
    from fields_MakeDay [OF assms(2-5) this] show "YearFromTime sel = y \<and> MonthFromTime sel = m \<and> DateFromTime sel = k" .
  next
    assume "YearFromTime sel = y \<and> MonthFromTime sel = m \<and> DateFromTime sel = k"
    with d MakeDay_fields [of sel] show "Day sel = Day (Date_new y m k 0 0 0 0)" by simp
  qed
qed

lemma is_selected_cell_simps [simp]:
  "is_selected_cell EmptyCell = False"
  "is_selected_cell (renderDayCell s now d) = (Day (selectedDate s) = Day d)"
  by (simp_all add: is_selected_cell_def renderDayCell_def Let_def toDateString_eq_iff)

lemma renderCalendarGrid_days:
  assumes "\<not> (0 \<le> getFullYear (currentDate s) \<and> getFullYear (currentDate s) \<le> 99)"
  defines "y \<equiv> getFullYear (currentDate s)" and "m \<equiv> getMonth (currentDate s)"
  shows "renderCalendarGrid s now =
    replicate (nat ((MakeDay y m 1 + 4) mod 7)) EmptyCell @
    map (\<lambda>k. renderDayCell s now (Date_new y m k 0 0 0 0)) [1..days_in_month y m]"
  using assms unfolding renderCalendarGrid_def getDaysInMonth_eq grid_year_def js_year_id [OF assms(1)]
  by simp

lemma cell_views_on_day:
  "filter is_selected_cell (renderCalendarGrid s now) = filter (cell_on_day (selectedDate s)) (renderCalendarGrid s now)"
  "filter is_today_cell (renderCalendarGrid s now) = filter (cell_on_day now) (renderCalendarGrid s now)"
proof -
  have c: "is_selected_cell c = cell_on_day (selectedDate s) c \<and> is_today_cell c = cell_on_day now c"
    if "c \<in> set (renderCalendarGrid s now)" for c
    using that by (auto simp: renderCalendarGrid_def is_selected_cell_def is_today_cell_def cell_on_day_def
        renderDayCell_def Let_def toDateString_eq_iff split: option.splits)
  show "filter is_selected_cell (renderCalendarGrid s now) = filter (cell_on_day (selectedDate s)) (renderCalendarGrid s now)"
    using c by (intro filter_cong) auto
  show "filter is_today_cell (renderCalendarGrid s now) = filter (cell_on_day now) (renderCalendarGrid s now)"
    using c by (intro filter_cong) auto
qed

text \<open>
  For years outside 0..99 the grid has exactly one cell on the day of \<open>t\<close> when \<open>t\<close> lies
  in the displayed month, and none otherwise.
\<close>

lemma renderCalendarGrid_day_count:
  assumes "\<not> (0 \<le> getFullYear (currentDate s) \<and> getFullYear (currentDate s) \<le> 99)"
  shows "length (filter (cell_on_day t) (renderCalendarGrid s now)) =
    (if YearFromTime t = getFullYear (currentDate s) \<and> MonthFromTime t = getMonth (currentDate s) then 1 else 0)"
proof -
  let ?y = "getFullYear (currentDate s)" and ?m = "getMonth (currentDate s)"
  let ?n = "days_in_month ?y ?m"
  have m: "0 \<le> ?m" "?m < 12" using grid_month_range [of "currentDate s"] by auto
  have "length (filter (cell_on_day t) (renderCalendarGrid s now)) =
      length (filter (\<lambda>k. Day t = Day (Date_new ?y ?m k 0 0 0 0)) [1..?n])"
    unfolding renderCalendarGrid_days [OF assms]
    by (simp add: filter_map comp_def cell_on_day_def renderDayCell_def Let_def)
  also have "\<dots> = length (filter (\<lambda>k. YearFromTime t = ?y \<and> MonthFromTime t = ?m \<and> k = DateFromTime t) [1..?n])"
    using grid_cell_selected_iff [OF assms m] by (intro arg_cong [where f = length] filter_cong) auto
  also have "\<dots> = (if YearFromTime t = ?y \<and> MonthFromTime t = ?m then 1 else 0)"
  proof (cases "YearFromTime t = ?y \<and> MonthFromTime t = ?m")
    case True
    then have "1 \<le> DateFromTime t \<and> DateFromTime t \<le> ?n" using DateFromTime_bounds [of t] by simp
    with True show ?thesis using count_upto_eq [of "DateFromTime t" ?n] by simp
  next
    case False
    then have "filter (\<lambda>k. YearFromTime t = ?y \<and> MonthFromTime t = ?m \<and> k = DateFromTime t) [1..?n] = []"
      by (auto simp: filter_empty_conv)
    with False show ?thesis by simp
  qed
  finally show ?thesis .
qed

subsection \<open>Properties of the view\<close>

text \<open>
  C19: a day cell's dots and its "+n" label account for every event of that day: at most
  three dots, and the label shows the rest exactly when there are more than three.
\<close>

theorem renderDayCell_counts_events:
  "cell_dots (renderDayCell s now d) + (case cell_more (renderDayCell s now d) of None \<Rightarrow> 0 | Some k \<Rightarrow> k) =
     length (getEventsForDate (events s) d) \<and>
   cell_dots (renderDayCell s now d) \<le> 3 \<and>
   (cell_more (renderDayCell s now d) \<noteq> None \<longleftrightarrow> 3 < length (getEventsForDate (events s) d))"
  by simp

text \<open>
  C20: the selected day's cell and the list under the grid count the same events: the cell
  is built from the cell's midnight, the list from the selected instant, and the locator
  depends only on the day.
\<close>

theorem selected_cell_matches_day_list:
  assumes "cell_selected (renderDayCell s now d)"
  shows "cell_dots (renderDayCell s now d) + (case cell_more (renderDayCell s now d) of None \<Rightarrow> 0 | Some k \<Rightarrow> k) =
    (case snd (renderSelectedDateEvents s) of NoEventsForDate \<Rightarrow> 0 | EventCards cs \<Rightarrow> length cs)"
proof -
  have "Day d = Day (selectedDate s)" using assms by simp
  then have eq: "getEventsForDate (events s) d = getEventsForDate (events s) (selectedDate s)"
    by (rule getEventsForDate_same_Day)
  show ?thesis by (simp add: renderSelectedDateEvents_def Let_def eq)
qed

theorem selected_cell_matches_day_list_witness:
  "cell_selected (renderDayCell (initial_screen 1710072000000) 1710072000000 1710028800000) \<and>
   cell_dots (renderDayCell (initial_screen 1710072000000) 1710072000000 1710028800000) +
     (case cell_more (renderDayCell (initial_screen 1710072000000) 1710072000000 1710028800000) of None \<Rightarrow> 0 | Some k \<Rightarrow> k) =
   (case snd (renderSelectedDateEvents (initial_screen 1710072000000)) of NoEventsForDate \<Rightarrow> 0 | EventCards cs \<Rightarrow> length cs)"
proof -
  have h: "cell_selected (renderDayCell (initial_screen 1710072000000) 1710072000000 1710028800000)"
    by (simp add: initial_screen_def Day_def msPerDay_def)
  show ?thesis using selected_cell_matches_day_list [OF h] h by simp
qed

text \<open>
  C21: the grid highlights exactly one cell when the selected date lies in the displayed
  month and none otherwise (for years outside 0..99, where \<open>new Date\<close> builds the
  displayed year).
\<close>

theorem renderCalendarGrid_one_selected:
  assumes "\<not> (0 \<le> getFullYear (currentDate s) \<and> getFullYear (currentDate s) \<le> 99)"
  shows "length (filter is_selected_cell (renderCalendarGrid s now)) =
    (if getFullYear (selectedDate s) = getFullYear (currentDate s) \<and> getMonth (selectedDate s) = getMonth (currentDate s)
     then 1 else 0)"
  unfolding cell_views_on_day renderCalendarGrid_day_count [OF assms] by (simp add: getFullYear_def getMonth_def)

theorem renderCalendarGrid_one_selected_witness:
  "\<not> (0 \<le> getFullYear (currentDate (initial_screen 1707998400000)) \<and>
      getFullYear (currentDate (initial_screen 1707998400000)) \<le> 99) \<and>
   length (filter is_selected_cell (renderCalendarGrid (initial_screen 1707998400000) 1707998400000)) = 1"
proof -
  have h: "\<not> (0 \<le> getFullYear (currentDate (initial_screen 1707998400000)) \<and>
      getFullYear (currentDate (initial_screen 1707998400000)) \<le> 99)"
    by (simp add: initial_screen_def date_eval)
  show ?thesis using renderCalendarGrid_one_selected [OF h, of 1707998400000] h
    by (simp add: initial_screen_def)
qed


text \<open>
  C29: after "today" is pressed the grid shows the current month with exactly one cell
  marked as today, and that cell is the selected one.
\<close>

theorem goToToday_marks_one_cell:
  assumes "\<not> (0 \<le> getFullYear now \<and> getFullYear now \<le> 99)"
  shows "length (filter is_today_cell (renderCalendarGrid (handleGoToToday now s) now)) = 1 \<and>
    filter is_today_cell (renderCalendarGrid (handleGoToToday now s) now) =
    filter is_selected_cell (renderCalendarGrid (handleGoToToday now s) now)"
proof -
  have "\<not> (0 \<le> getFullYear (currentDate (handleGoToToday now s)) \<and>
      getFullYear (currentDate (handleGoToToday now s)) \<le> 99)"
    using assms by (simp add: handleGoToToday_def)
  from renderCalendarGrid_day_count [OF this, of now now] show ?thesis
    by (simp add: cell_views_on_day handleGoToToday_def getFullYear_def getMonth_def)
qed

theorem goToToday_marks_one_cell_witness:
  "\<not> (0 \<le> getFullYear 1710072000000 \<and> getFullYear 1710072000000 \<le> 99) \<and>
   length (filter is_today_cell (renderCalendarGrid (handleGoToToday 1710072000000 (initial_screen 1707998400000))
     1710072000000)) = 1"
proof -
  have h: "\<not> (0 \<le> getFullYear 1710072000000 \<and> getFullYear 1710072000000 \<le> 99)" by (rule year_2024_march(1))
  show ?thesis using conjunct1 [OF goToToday_marks_one_cell [OF h, of "initial_screen 1707998400000"]] h by simp
qed

end
