(* ===== verification/Styles.thy ===== *)
theory Styles
  imports Cal_Prelude
begin

text \<open>
  The colour table \<open>colors\<close> of \<open>src/styles/commonStyles.ts\<close> (lines 4-17), which the
  screens use to signal states (success, warning, error, secondary text). Colours are the
  hex strings of the source. The style sheets of the same file (\<open>buttonStyles\<close>,
  \<open>textStyles\<close>, \<open>commonStyles\<close>) are modelled in \<open>Style_Sheets\<close>, the screens'
  own sheets in \<open>Screen_Styles\<close> and \<open>Grid_Layout\<close>.
\<close>

record app_colors =
  background :: string
  text_colour :: string
  textSecondary :: string
  primary :: string
  secondary :: string
  accent :: string
  card_colour :: string
  highlight :: string
  border :: string
  success :: string
  warning :: string
  error :: string

definition colors :: app_colors where
  "colors =
     \<lparr>background = ''#F5F5F5'', text_colour = ''#212121'', textSecondary = ''#757575'',
      primary = ''#3F51B5'', secondary = ''#E91E63'', accent = ''#03A9F4'', card_colour = ''#FFFFFF'',
      highlight = ''#FFEB3B'', border = ''#E0E0E0'', success = ''#4CAF50'', warning = ''#FF9800'',
      error = ''#F44336''\<rparr>"

text \<open>The four colours that signal a state are pairwise different.\<close>

lemma status_colours_distinct:
  "distinct [success colors, error colors, warning colors, textSecondary colors]"
  by (simp add: colors_def)

end
