(* ===== verification/Event_Details.thy ===== *)
theory Event_Details
  imports Add_Event_Form Screen_View Styles
begin

text \<open>
  The event details view \<open>EventDetailsModal\<close> (\<open>src/components/EventDetailsModal.tsx\<close>):
  its one piece of state \<open>isDeleting\<close>, the confirmation and the deletion
  (\<open>handleDeleteEvent\<close>, \<open>confirmDeleteEvent\<close>, with \<open>deleteEventAsync\<close> of the
  device store modelled from the spec and its failure as an argument), the text of
  \<open>formatDateTime\<close> and the rendered view. The locale formatters \<open>formatDate\<close> and
  \<open>formatTime\<close> (\<open>toLocaleDateString\<close>/\<open>toLocaleTimeString\<close> in Italian) are
  parameters: the model fixes how their results are put together. No screen of the
  app renders this component.
\<close>

record details_state =
  isDeleting :: bool

datatype details_alert = ConfirmDelete string | DeleteSucceeded | DeleteFailed

definition handleDeleteEvent :: "calendar_event \<Rightarrow> details_alert" where
  "handleDeleteEvent event = ConfirmDelete (''Sei sicuro di voler eliminare \"'' @ title event @ ''\"?'')"

text \<open>\<open>Calendar.deleteEventAsync(id)\<close>: the store drops the event with that identifier.\<close>

definition deleteEventAsync :: "device_store \<Rightarrow> string \<Rightarrow> device_store" where
  "deleteEventAsync st eventId = st\<lparr>store_events := filter (\<lambda>e. raw_id e \<noteq> eventId) (store_events st)\<rparr>"

text \<open>
  \<open>confirmDeleteEvent\<close>: \<open>isDeleting\<close> is set before the await and cleared in
  \<open>finally\<close>; \<open>storeFails\<close> is whether \<open>deleteEventAsync\<close> throws.
\<close>

definition confirmDeleteEvent ::
  "device_store \<Rightarrow> bool \<Rightarrow> calendar_event \<Rightarrow> details_state \<Rightarrow> details_state \<times> device_store \<times> details_alert" where
  "confirmDeleteEvent st storeFails event d =
     (let d1 = d\<lparr>isDeleting := True\<rparr>
      in if storeFails then (d1\<lparr>isDeleting := False\<rparr>, st, DeleteFailed)
         else (d1\<lparr>isDeleting := False\<rparr>, deleteEventAsync st (event_id event), DeleteSucceeded))"

definition formatDateTime ::
  "(time_value \<Rightarrow> string) \<Rightarrow> (time_value \<Rightarrow> string) \<Rightarrow> calendar_event \<Rightarrow> string" where
  "formatDateTime formatDate formatTime event =
     (if allDay event = Some True
      then (if toDateString (startDate event) = toDateString (endDate event)
            then formatDate (startDate event) @ '' - Tutto il giorno''
            else formatDate (startDate event) @ '' - '' @ formatDate (endDate event) @ '' (Tutto il giorno)'')
      else (if toDateString (startDate event) = toDateString (endDate event)
            then formatDate (startDate event) @ [CHR 0x0A] @
                 formatTime (startDate event) @ '' - '' @ formatTime (endDate event)
            else formatDate (startDate event) @ '' '' @ formatTime (startDate event) @ [CHR 0x0A] @
                 formatDate (endDate event) @ '' '' @ formatTime (endDate event)))"

record details_view =
  dv_title :: string
  dv_date_time :: string
  dv_location :: "string option"
  dv_description :: "string option"
  dv_type :: string
  dv_delete_label :: string
  dv_delete_enabled :: bool
  dv_trash_colour :: string

definition renderEventDetails ::
  "(time_value \<Rightarrow> string) \<Rightarrow> (time_value \<Rightarrow> string) \<Rightarrow> calendar_event option \<Rightarrow> details_state \<Rightarrow>
   details_view option" where
  "renderEventDetails formatDate formatTime event d =
     (case event of
        None \<Rightarrow> None
      | Some e \<Rightarrow> Some
          \<lparr>dv_title = title e, dv_date_time = formatDateTime formatDate formatTime e,
           dv_location = shown_text (location e), dv_description = shown_text (description e),
           dv_type = (if allDay e = Some True then ''Evento giornata intera'' else ''Evento con orario''),
           dv_delete_label = (if isDeleting d then ''Eliminazione...'' else ''Elimina Evento''),
           dv_delete_enabled = (\<not> isDeleting d),
           dv_trash_colour = (if isDeleting d then textSecondary colors else error colors)\<rparr>)"

subsection \<open>Facts on deletion and display\<close>

lemma formatEvent_id_allDay [simp]:
  "event_id (formatEvent e) = raw_id e"
  "allDay (formatEvent e) = Some (case raw_allDay e of None \<Rightarrow> False | Some b \<Rightarrow> b)"
  by (simp_all add: formatEvent_def)

lemma confirmDeleteEvent_success:
  assumes "confirmDeleteEvent st storeFails event d = (d', st', DeleteSucceeded)"
  shows "\<not> storeFails \<and> st' = deleteEventAsync st (event_id event) \<and> \<not> isDeleting d'"
  using assms by (auto simp: confirmDeleteEvent_def Let_def split: if_splits)

lemma fetch_result_ids:
  assumes "fetch_result st c = Some evs" and "ev \<in> set evs"
  shows "\<exists>e\<in>set (store_events st). event_id ev = raw_id e"
proof -
  obtain e where "e \<in> set (getEventsAsync st (map cal_id (calendars st)) (fst (load_window c)) (snd (load_window c)))"
    and "ev = formatEvent e"
    using fetch_result_mem [OF assms] by blast
  then show ?thesis by (auto simp: getEventsAsync_def)
qed

lemma day_start_Day: "Day (d * msPerDay) = d" and day_end_Day: "Day (d * msPerDay + 86399000) = d"
  by (simp_all add: Day_def msPerDay_def)

subsection \<open>Properties of the details view\<close>

text \<open>
  C22: after a deletion that reports success the view's spinner is off and no later load
  of any month brings an event with that identifier back.
\<close>

theorem confirmDeleteEvent_removes_event:
  assumes "confirmDeleteEvent st storeFails event d = (d', st', DeleteSucceeded)"
    and "fetch_result st' c = Some evs"
  shows "event_id event \<notin> event_id ` set evs \<and> \<not> isDeleting d'"
proof -
  have s: "st' = deleteEventAsync st (event_id event)" and n: "\<not> isDeleting d'"
    using confirmDeleteEvent_success [OF assms(1)] by auto
  have "event_id event \<noteq> event_id ev" if "ev \<in> set evs" for ev
    using fetch_result_ids [OF assms(2) that] s by (auto simp: deleteEventAsync_def)
  with n show ?thesis by auto
qed

theorem confirmDeleteEvent_removes_event_witness:
  "let ev = formatEvent (hd (store_events example_store));
       r = confirmDeleteEvent example_store False ev \<lparr>isDeleting = False\<rparr>
   in r = (fst r, fst (snd r), DeleteSucceeded) \<and> fetch_result (fst (snd r)) 1710504000000 = Some [] \<and>
      event_id ev \<notin> event_id ` set [] \<and> \<not> isDeleting (fst r)"
proof -
  let ?ev = "formatEvent (hd (store_events example_store))"
  let ?r = "confirmDeleteEvent example_store False ?ev \<lparr>isDeleting = False\<rparr>"
  have r: "?r = (fst ?r, fst (snd ?r), DeleteSucceeded)" by (simp add: confirmDeleteEvent_def Let_def)
  have f: "fetch_result (fst (snd ?r)) 1710504000000 = Some []"
    by (simp add: confirmDeleteEvent_def deleteEventAsync_def fetch_result_def example_store_def
        getEventsAsync_def formatEvent_def)
  show ?thesis using confirmDeleteEvent_removes_event [OF r f] r f by (simp add: Let_def)
qed

text \<open>
  C23: an all-day event the form creates within one day is described as that day
  "- Tutto il giorno": the stored start is the day's midnight and the end 23:59:59 of the
  same day, so \<open>formatDateTime\<close> takes its one-day all-day branch.
\<close>

theorem created_all_day_event_details:
  assumes "handleSaveEvent st eventId storeFails f = (f', st', EventCreated)"
    and "isAllDay f" and "Day (form_startDate f) = Day (form_endDate f)"
    and "\<not> (0 \<le> getFullYear (form_startDate f) \<and> getFullYear (form_startDate f) \<le> 99)"
    and "\<not> (0 \<le> getFullYear (form_endDate f) \<and> getFullYear (form_endDate f) \<le> 99)"
  shows "formatDateTime formatDate formatTime (formatEvent (last (store_events st'))) =
    formatDate (Day (form_startDate f) * msPerDay) @ '' - Tutto il giorno''"
proof -
  obtain cal :: store_calendar where "st' = createEventAsync st (cal_id cal) eventId (eventData f)"
    using handleSaveEvent_created [OF assms(1)] by blast
  then have "formatEvent (last (store_events st')) = formatEvent
      \<lparr>raw_id = eventId, raw_calendarId = cal_id cal, raw_title = data_title (eventData f),
       raw_startDate = Day (form_startDate f) * msPerDay,
       raw_endDate = Day (form_endDate f) * msPerDay + 86399000,
       raw_notes = Some (data_notes (eventData f)), raw_location = Some (data_location (eventData f)),
       raw_allDay = Some True\<rparr>"
    using assms(2) by (simp add: createEventAsync_def eventData_def Let_def all_day_bounds [OF assms(4)]
        all_day_bounds [OF assms(5)])
  then show ?thesis using assms(3)
    by (simp add: formatDateTime_def toDateString_eq_iff day_start_Day day_end_Day)
qed

theorem created_all_day_event_details_witness:
  "let f = (initial_form 1710061200000)\<lparr>form_title := ''Ferie'', isAllDay := True\<rparr>;
       r = handleSaveEvent example_store ''e2'' False f
   in r = (fst r, fst (snd r), EventCreated) \<and> isAllDay f \<and> Day (form_startDate f) = Day (form_endDate f) \<and>
      \<not> (0 \<le> getFullYear (form_startDate f) \<and> getFullYear (form_startDate f) \<le> 99) \<and>
      \<not> (0 \<le> getFullYear (form_endDate f) \<and> getFullYear (form_endDate f) \<le> 99) \<and>
      formatDateTime (\<lambda>_. ''dom 10 mar 2024'') (\<lambda>_. []) (formatEvent (last (store_events (fst (snd r))))) =
        ''dom 10 mar 2024 - Tutto il giorno''"
proof -
  let ?f = "(initial_form 1710061200000)\<lparr>form_title := ''Ferie'', isAllDay := True\<rparr>"
  let ?r = "handleSaveEvent example_store ''e2'' False ?f"
  have v: "validateForm ?f = Inr ()"
    by (simp add: validateForm_def js_trim_def js_space_def initial_form_def hour_ms_def)
  have c: "defaultCalendar (calendars example_store) \<noteq> None"
    by (simp add: defaultCalendar_def example_store_def)
  have r: "?r = (fst ?r, fst (snd ?r), EventCreated)"
    using c by (auto simp: handleSaveEvent_def v Let_def split: option.split)
  have h: "isAllDay ?f" "Day (form_startDate ?f) = Day (form_endDate ?f)"
    "\<not> (0 \<le> getFullYear (form_startDate ?f) \<and> getFullYear (form_startDate ?f) \<le> 99)"
    "\<not> (0 \<le> getFullYear (form_endDate ?f) \<and> getFullYear (form_endDate ?f) \<le> 99)"
    using year_2024_form by (simp_all add: initial_form_def hour_ms_def Day_def msPerDay_def)
  show ?thesis
    using created_all_day_event_details [OF r h, of "\<lambda>_. ''dom 10 mar 2024''" "\<lambda>_. []"] r h
    by (simp add: Let_def)
qed

end
