(* ===== verification/Settings.thy ===== *)
theory Settings
  imports Screen_Fetch Screen_View Styles
begin

text \<open>
  The settings screen \<open>ProfileScreen\<close> (\<open>src/app/(tabs)/profile.tsx\<close>): its state
  (the permission as the string the OS reports, the calendars, three preference
  switches), the asynchronous calls \<open>checkPermissions\<close>, \<open>loadCalendars\<close> and
  \<open>requestPermissions\<close> as events whose outcome (a status, or \<open>None\<close> when the call
  throws) the environment chooses, and the rendered view: status text and colour, the
  request button, the preference rows and the list of calendars.
\<close>

definition status_string :: "permission_status \<Rightarrow> string" where
  "status_string p = (case p of Granted \<Rightarrow> ''granted'' | Denied \<Rightarrow> ''denied'' | Undetermined \<Rightarrow> ''undetermined'')"

record settings_state =
  settings_permission :: string
  availableCalendars :: "store_calendar list"
  notifications :: bool
  weekStartsOnMonday :: bool
  showWeekNumbers :: bool

definition initial_settings :: settings_state where
  "initial_settings =
     \<lparr>settings_permission = ''undetermined'', availableCalendars = [], notifications = True,
      weekStartsOnMonday = True, showWeekNumbers = False\<rparr>"

datatype settings_alert = PermissionsGranted | PermissionsDenied | PermissionRequestFailed

definition checkPermissions :: "permission_status option \<Rightarrow> settings_state \<Rightarrow> settings_state" where
  "checkPermissions result s =
     (case result of None \<Rightarrow> s | Some status \<Rightarrow> s\<lparr>settings_permission := status_string status\<rparr>)"

text \<open>
  \<open>loadCalendars\<close> asks the OS for the permission itself and lists the calendars only
  when it is granted; the component's own \<open>calendarPermission\<close> is not consulted.
\<close>

definition loadCalendars :: "device_store \<Rightarrow> permission_status option \<Rightarrow> settings_state \<Rightarrow> settings_state" where
  "loadCalendars st result s =
     (case result of
        Some status \<Rightarrow> if status_string status = ''granted'' then s\<lparr>availableCalendars := calendars st\<rparr> else s
      | None \<Rightarrow> s)"

text \<open>
  \<open>requestPermissions\<close>: the alert it shows; on \<open>granted\<close> it also starts
  \<open>loadCalendars\<close> without awaiting it, which completes as a later event.
\<close>

definition requestPermissions ::
  "permission_status option \<Rightarrow> settings_state \<Rightarrow> settings_state \<times> settings_alert" where
  "requestPermissions result s =
     (case result of
        None \<Rightarrow> (s, PermissionRequestFailed)
      | Some status \<Rightarrow>
          (s\<lparr>settings_permission := status_string status\<rparr>,
           if status_string status = ''granted'' then PermissionsGranted else PermissionsDenied))"

definition getPermissionStatusText :: "settings_state \<Rightarrow> string" where
  "getPermissionStatusText s =
     (let p = settings_permission s
      in if p = ''granted'' then ''Concessi''
         else if p = ''denied'' then ''Negati''
         else if p = ''undetermined'' then ''Non richiesti''
         else ''Sconosciuto'')"

definition getPermissionStatusColor :: "settings_state \<Rightarrow> string" where
  "getPermissionStatusColor s =
     (let p = settings_permission s
      in if p = ''granted'' then success colors
         else if p = ''denied'' then error colors
         else if p = ''undetermined'' then warning colors
         else textSecondary colors)"

record setting_item =
  item_title :: string
  item_description :: string
  item_value :: bool
  item_icon :: string
  item_thumb_colour :: string

definition renderSettingItem :: "string \<Rightarrow> string \<Rightarrow> bool \<Rightarrow> string \<Rightarrow> setting_item" where
  "renderSettingItem t d value icon =
     \<lparr>item_title = t, item_description = d, item_value = value, item_icon = icon,
      item_thumb_colour = (if value then card_colour colors else textSecondary colors)\<rparr>"

record calendar_item =
  ci_key :: string
  ci_colour :: string
  ci_title :: string
  ci_caption :: string
  ci_icon :: string
  ci_icon_colour :: string

text \<open>The bullet between source and access is U+2022, three bytes in UTF-8.\<close>

definition renderCalendarItem :: "store_calendar \<Rightarrow> calendar_item" where
  "renderCalendarItem calendar =
     \<lparr>ci_key = cal_id calendar,
      ci_colour = (case shown_text (cal_color calendar) of Some c \<Rightarrow> c | None \<Rightarrow> primary colors),
      ci_title = cal_title calendar,
      ci_caption = cal_source_name calendar @ '' '' @ [CHR 0xE2, CHR 0x80, CHR 0xA2] @ '' '' @
        (if allowsModifications calendar then ''Modificabile'' else ''Solo lettura''),
      ci_icon = (if allowsModifications calendar then ''checkmark.circle'' else ''eye''),
      ci_icon_colour = (if allowsModifications calendar then success colors else textSecondary colors)\<rparr>"

record settings_view =
  status_text :: string
  status_colour :: string
  request_button :: bool
  success_row :: bool
  preference_items :: "setting_item list"
  calendars_section :: "(string \<times> calendar_item list) option"

definition renderSettings :: "settings_state \<Rightarrow> settings_view" where
  "renderSettings s =
     \<lparr>status_text = getPermissionStatusText s, status_colour = getPermissionStatusColor s,
      request_button = (settings_permission s \<noteq> ''granted''),
      success_row = (settings_permission s = ''granted''),
      preference_items =
        [renderSettingItem ''Notifiche'' ''Ricevi notifiche per gli eventi imminenti'' (notifications s) ''bell'',
         renderSettingItem (''Settimana inizia di Luned'' @ [CHR 0xC3, CHR 0xAC])
           (''La settimana inizia il luned'' @ [CHR 0xC3, CHR 0xAC] @ '' invece della domenica'')
           (weekStartsOnMonday s) ''calendar'',
         renderSettingItem ''Mostra numeri settimana'' ''Visualizza i numeri delle settimane nel calendario''
           (showWeekNumbers s) ''number''],
      calendars_section =
        (if 0 < length (availableCalendars s)
         then Some (''Calendari Disponibili ('' @ dec_digits (length (availableCalendars s)) @ '')'',
                    map renderCalendarItem (availableCalendars s))
         else None)\<rparr>"

datatype settings_event =
    CheckResolved "permission_status option"
  | CalendarsResolved "permission_status option"
  | RequestResolved "permission_status option"
  | SetNotifications bool
  | SetWeekStartsOnMonday bool
  | SetShowWeekNumbers bool

fun settings_apply :: "device_store \<Rightarrow> settings_state \<Rightarrow> settings_event \<Rightarrow> settings_state" where
  "settings_apply st s (CheckResolved r) = checkPermissions r s"
| "settings_apply st s (CalendarsResolved r) = loadCalendars st r s"
| "settings_apply st s (RequestResolved r) = fst (requestPermissions r s)"
| "settings_apply st s (SetNotifications v) = s\<lparr>notifications := v\<rparr>"
| "settings_apply st s (SetWeekStartsOnMonday v) = s\<lparr>weekStartsOnMonday := v\<rparr>"
| "settings_apply st s (SetShowWeekNumbers v) = s\<lparr>showWeekNumbers := v\<rparr>"

inductive settings_reachable :: "device_store \<Rightarrow> settings_state \<Rightarrow> bool" for st where
  init: "settings_reachable st initial_settings"
| step: "settings_reachable st s \<Longrightarrow> settings_reachable st (settings_apply st s ev)"

subsection \<open>Facts on the settings screen\<close>

lemma status_string_cases [simp]:
  "status_string p = ''granted'' \<longleftrightarrow> p = Granted"
  "status_string p = ''denied'' \<longleftrightarrow> p = Denied"
  "status_string p = ''undetermined'' \<longleftrightarrow> p = Undetermined"
  by (cases p; simp add: status_string_def)+

lemma settings_apply_permission:
  "settings_permission (settings_apply st s ev) = settings_permission s \<or>
   (\<exists>p. settings_permission (settings_apply st s ev) = status_string p)"
  by (cases ev)
    (auto simp: checkPermissions_def loadCalendars_def requestPermissions_def split: option.split)

subsection \<open>Properties of the settings screen\<close>

text \<open>
  C24: in every reachable state of the settings screen the stored permission is one of the
  three strings the OS reports, so the status text is never the \<open>default\<close> branch
  "Sconosciuto".
\<close>

theorem settings_permission_well_typed:
  assumes "settings_reachable st s"
  shows "settings_permission s \<in> range status_string \<and> getPermissionStatusText s \<noteq> ''Sconosciuto''"
proof -
  from assms have "settings_permission s \<in> range status_string"
  proof induction
    case init
    show ?case by (rule range_eqI [of _ _ Undetermined]) (simp add: initial_settings_def status_string_def)
  next
    case (step s ev)
    then show ?case using settings_apply_permission [of st s ev] by auto
  qed
  then show ?thesis
    by (auto simp: getPermissionStatusText_def status_string_def split: permission_status.splits)
qed

theorem settings_permission_well_typed_witness:
  "let s = settings_apply example_store initial_settings (RequestResolved (Some Denied))
   in settings_reachable example_store s \<and> settings_permission s \<in> range status_string \<and>
      getPermissionStatusText s \<noteq> ''Sconosciuto''"
proof -
  let ?s = "settings_apply example_store initial_settings (RequestResolved (Some Denied))"
  have r: "settings_reachable example_store ?s"
    by (rule settings_reachable.step [OF settings_reachable.init])
  show ?thesis using settings_permission_well_typed [OF r] r by (simp add: Let_def)
qed

text \<open>
  C30: the header of the calendar list states how many calendars it lists: reading back
  the number between "Calendari Disponibili (" and ")" gives the length of the list.
\<close>

theorem calendars_header_count:
  assumes "calendars_section (renderSettings s) = Some (h, items)"
  shows "take 23 h = ''Calendari Disponibili ('' \<and> last h = CHR '')'' \<and>
    digits_value (butlast (drop 23 h)) = length items \<and> items \<noteq> []"
proof -
  have h: "h = ''Calendari Disponibili ('' @ dec_digits (length (availableCalendars s)) @ '')''"
    and i: "items = map renderCalendarItem (availableCalendars s)" and n: "0 < length (availableCalendars s)"
    using assms by (auto simp: renderSettings_def split: if_splits)
  have "butlast (drop 23 h) = dec_digits (length (availableCalendars s))"
    unfolding h by (simp add: butlast_append)
  then show ?thesis using h i n by (simp add: digits_value_dec_digits)
qed

theorem calendars_header_count_witness:
  "let s = loadCalendars example_store (Some Granted) initial_settings
   in calendars_section (renderSettings s) =
        Some (fst (the (calendars_section (renderSettings s))), snd (the (calendars_section (renderSettings s)))) \<and>
      digits_value (butlast (drop 23 (fst (the (calendars_section (renderSettings s)))))) =
        length (snd (the (calendars_section (renderSettings s)))) \<and>
      length (snd (the (calendars_section (renderSettings s)))) = 1"
proof -
  let ?s = "loadCalendars example_store (Some Granted) initial_settings"
  have c: "availableCalendars ?s = calendars example_store"
    by (simp add: loadCalendars_def status_string_def)
  have n: "length (calendars example_store) = 1" by (simp add: example_store_def)
  let ?c = "calendars_section (renderSettings ?s)"
  have r: "?c = Some (fst (the ?c), snd (the ?c))" using c n by (simp add: renderSettings_def)
  have l: "length (snd (the ?c)) = 1" using c n by (simp add: renderSettings_def)
  show ?thesis using calendars_header_count [OF r] r l by (simp add: Let_def)
qed

end
