(* ===== verification/Tab_Layout.thy ===== *)
theory Tab_Layout
  imports Cal_Prelude
begin

text \<open>
  The tab layout \<open>TabLayout\<close> (\<open>src/app/(tabs)/_layout.tsx\<close>): on iOS the native tab bar
  with its two screens, elsewhere a stack of the same screens under the app's floating tab
  bar, fed by the list \<open>tabs\<close>. The rendered layout is a value of \<open>tab_layout\<close>.
\<close>

record tab_item =
  tab_name :: string
  tab_title :: string
  tab_icon :: string
  tab_route :: string

definition tabs :: "tab_item list" where
  "tabs =
     [\<lparr>tab_name = ''(home)'', tab_title = ''Calendario'', tab_icon = ''calendar'', tab_route = ''/(home)''\<rparr>,
      \<lparr>tab_name = ''profile'', tab_title = ''Impostazioni'', tab_icon = ''gear'', tab_route = ''/profile''\<rparr>]"

datatype platform = IOS | Android | Web

datatype tab_layout =
    NativeTabs "(string \<times> string \<times> string) list"
  | StackWithFloatingTabBar "string list" "tab_item list"

definition TabLayout :: "platform \<Rightarrow> tab_layout" where
  "TabLayout os =
     (if os = IOS
      then NativeTabs [(''(home)'', ''Calendario'', ''calendar''), (''profile'', ''Impostazioni'', ''gear'')]
      else StackWithFloatingTabBar [''(home)'', ''profile''] tabs)"

end
