(* ===== verification/Calendar_System.thy ===== *)
theory Calendar_System
  imports Add_Event_Form
begin

text \<open>
  The app as one system: the calendar screen (its state and pending fetches), the
  add-event form it renders (\<open>index.tsx\<close>, lines 438-443) and the device store they
  share. The store now changes during a run: the form's saves write to it and every
  fetch reads it when it completes. The form's callbacks are wired as in the source:
  \<open>onClose\<close> closes the modal, \<open>onEventAdded\<close> is \<open>loadEvents\<close>, and
  \<open>handleClose\<close> resets the form to the screen's \<open>selectedDate\<close>. The success alert
  of a save is part of the state until its OK button is pressed.
\<close>

record system =
  sys_app :: app_state
  sys_form :: event_form
  sys_store :: device_store
  sys_alert :: "form_alert option"

datatype form_input =
    TitleInput string
  | LocationInput string
  | DescriptionInput string
  | ToggleAllDayInput
  | OpenPickerInput form_picker
  | StartDatePicked "time_value option"
  | EndDatePicked "time_value option"
  | StartTimePicked "time_value option"
  | EndTimePicked "time_value option"

fun form_input_apply :: "form_input \<Rightarrow> event_form \<Rightarrow> event_form" where
  "form_input_apply (TitleInput t) f = changeTitle t f"
| "form_input_apply (LocationInput t) f = changeLocation t f"
| "form_input_apply (DescriptionInput t) f = changeDescription t f"
| "form_input_apply ToggleAllDayInput f = toggleAllDay f"
| "form_input_apply (OpenPickerInput p) f = openFormPicker p f"
| "form_input_apply (StartDatePicked d) f = onStartDateChange d f"
| "form_input_apply (EndDatePicked d) f = onEndDateChange d f"
| "form_input_apply (StartTimePicked t) f = onStartTimeChange t f"
| "form_input_apply (EndTimePicked t) f = onEndTimeChange t f"

datatype sys_event =
    ScreenEvent app_event
  | FormEvent form_input
  | SaveEvent string bool
  | SavedOk
  | CloseForm

text \<open>\<open>handleClose\<close>: \<open>resetForm\<close> with the screen's \<open>selectedDate\<close>, then \<open>onClose\<close>.\<close>

definition form_handleClose :: "system \<Rightarrow> system" where
  "form_handleClose S =
     S\<lparr>sys_form := resetForm (selectedDate (screen (sys_app S))) (sys_form S),
       sys_app := (sys_app S)\<lparr>screen := closeAddEventModal (screen (sys_app S))\<rparr>\<rparr>"

fun sys_apply :: "system \<Rightarrow> sys_event \<Rightarrow> system" where
  "sys_apply S (ScreenEvent ev) = S\<lparr>sys_app := app_apply (sys_store S) (sys_app S) ev\<rparr>"
| "sys_apply S (FormEvent i) = S\<lparr>sys_form := form_input_apply i (sys_form S)\<rparr>"
| "sys_apply S (SaveEvent eventId storeFails) =
     (case handleSaveEvent (sys_store S) eventId storeFails (sys_form S) of
        (f', st', alert) \<Rightarrow> S\<lparr>sys_form := f', sys_store := st', sys_alert := Some alert\<rparr>)"
| "sys_apply S SavedOk =
     form_handleClose (S\<lparr>sys_app := app_apply (sys_store S) (sys_app S) EventAdded, sys_alert := None\<rparr>)"
| "sys_apply S CloseForm = form_handleClose S"

text \<open>
  Which events can happen in a state: the form's controls and its save button only while
  the modal is shown, OK only on the success alert. The identifier of a new event is
  whatever the store returns; nothing is assumed of it.
\<close>

fun sys_enabled :: "system \<Rightarrow> sys_event \<Rightarrow> bool" where
  "sys_enabled S (FormEvent i) = showAddEventModal (screen (sys_app S))"
| "sys_enabled S (SaveEvent eventId storeFails) = showAddEventModal (screen (sys_app S))"
| "sys_enabled S SavedOk = (sys_alert S = Some EventCreated)"
| "sys_enabled S CloseForm = showAddEventModal (screen (sys_app S))"
| "sys_enabled S (ScreenEvent ev) = True"

definition sys_init :: "time_value \<Rightarrow> device_store \<Rightarrow> system" where
  "sys_init now st =
     \<lparr>sys_app = initial_app now, sys_form = initial_form now, sys_store = st, sys_alert = None\<rparr>"

inductive sys_reachable :: "time_value \<Rightarrow> device_store \<Rightarrow> system \<Rightarrow> bool" for now st0 where
  init: "sys_reachable now st0 (sys_init now st0)"
| step: "sys_reachable now st0 S \<Longrightarrow> sys_enabled S ev \<Longrightarrow> sys_reachable now st0 (sys_apply S ev)"

text \<open>
  What the app guarantees of the events it writes: a non-empty title, and either the
  bounds of an all-day event (midnight to 23:59:59) or an end after the start.
\<close>

definition app_event_ok :: "raw_event \<Rightarrow> bool" where
  "app_event_ok e =
     (raw_title e \<noteq> [] \<and>
      (if raw_allDay e = Some True
       then TimeWithinDay (raw_startDate e) = 0 \<and> TimeWithinDay (raw_endDate e) = 86399000
       else raw_startDate e < raw_endDate e))"

definition store_inv :: "device_store \<Rightarrow> device_store \<Rightarrow> bool" where
  "store_inv st0 st =
     (\<forall>e\<in>set (store_events st). e \<in> set (store_events st0) \<or> app_event_ok e)"


subsection \<open>Facts on the system\<close>

lemma handleSaveEvent_store_cases:
  "fst (snd (handleSaveEvent st eventId storeFails f)) = st \<or>
   (\<exists>cal :: store_calendar. validateForm f = Inr () \<and>
      fst (snd (handleSaveEvent st eventId storeFails f)) = createEventAsync st (cal_id cal) eventId (eventData f))"
  by (auto simp: handleSaveEvent_def Let_def split: sum.split option.split)

lemma TimeWithinDay_Date_new:
  assumes "0 \<le> MakeTime h mi sec milli" and "MakeTime h mi sec milli < msPerDay"
  shows "TimeWithinDay (Date_new y m d h mi sec milli) = MakeTime h mi sec milli"
  using Day_MakeDate [OF assms] by (simp add: Date_new_def)

lemma created_event_ok:
  assumes "validateForm f = Inr ()"
  shows "app_event_ok \<lparr>raw_id = eventId, raw_calendarId = c, raw_title = data_title (eventData f),
      raw_startDate = data_startDate (eventData f), raw_endDate = data_endDate (eventData f),
      raw_notes = Some (data_notes (eventData f)), raw_location = Some (data_location (eventData f)),
      raw_allDay = Some (data_allDay (eventData f))\<rparr>"
proof -
  have v: "js_trim (form_title f) \<noteq> []" "form_startDate f < form_endDate f"
    using assms validateForm_Inl_iff(3) by blast+
  have t: "TimeWithinDay (Date_new y m d 0 0 0 0) = 0" "TimeWithinDay (Date_new y m d 23 59 59 0) = 86399000"
    for y m d by (simp_all add: TimeWithinDay_Date_new MakeTime_def msPerDay_def)
  show ?thesis using v by (simp add: app_event_ok_def eventData_def Let_def t)
qed

lemma store_inv_save:
  assumes "store_inv st0 st"
  shows "store_inv st0 (fst (snd (handleSaveEvent st eventId storeFails f)))"
  using handleSaveEvent_store_cases [of st eventId storeFails f]
proof
  assume "fst (snd (handleSaveEvent st eventId storeFails f)) = st"
  with assms(1) show ?thesis by simp
next
  assume "\<exists>cal :: store_calendar. validateForm f = Inr () \<and>
      fst (snd (handleSaveEvent st eventId storeFails f)) = createEventAsync st (cal_id cal) eventId (eventData f)"
  then obtain cal :: store_calendar where v: "validateForm f = Inr ()"
    and e: "fst (snd (handleSaveEvent st eventId storeFails f)) = createEventAsync st (cal_id cal) eventId (eventData f)"
    by blast
  show ?thesis
    using assms created_event_ok [OF v, of eventId "cal_id cal"] unfolding e
    by (auto simp: store_inv_def createEventAsync_def)
qed

lemma sys_store_inv:
  assumes "sys_reachable now st0 S"
  shows "store_inv st0 (sys_store S)"
  using assms
proof induction
  case init
  show ?case by (simp add: store_inv_def sys_init_def)
next
  case (step S ev)
  show ?case
  proof (cases ev)
    case (SaveEvent eventId storeFails)
    obtain f' st' alert where h: "handleSaveEvent (sys_store S) eventId storeFails (sys_form S) = (f', st', alert)"
      by (cases "handleSaveEvent (sys_store S) eventId storeFails (sys_form S)") auto
    then show ?thesis
      using store_inv_save [OF step.IH, of eventId storeFails "sys_form S"] SaveEvent by simp
  qed (use step.IH in \<open>simp_all add: form_handleClose_def\<close>)
qed


text \<open>
  The window of \<open>loadEvents\<close> for a displayed date \<open>c\<close> reaches every event that
  starts in the displayed month before its last day and ends no earlier than it starts.
\<close>

lemma load_window_reaches:
  assumes y: "getFullYear t = getFullYear c" and m: "getMonth t = getMonth c"
    and d: "getDate t < days_in_month (getFullYear c) (getMonth c)"
    and y2: "\<not> (0 \<le> getFullYear c \<and> getFullYear c \<le> 99)" and le: "t \<le> t'"
  shows "t \<le> snd (load_window c) \<and> fst (load_window c) \<le> t'"
proof -
  define J where "J = 12 * js_year (getFullYear c) + getMonth c"
  let ?Y = "YearFromTime t" and ?M = "MonthFromTime t" and ?D = "DateFromTime t"
  have mb: "0 \<le> ?M" "?M < 12" using MonthFromTime_bounds [of t] by simp_all
  have J: "J = 12 * ?Y + ?M" using y m js_year_id [OF y2] unfolding J_def by (simp add: getFullYear_def getMonth_def)
  have jd: "J div 12 = ?Y" "J mod 12 = ?M" using mb unfolding J by simp_all
  have day: "Day t = month_first_day J + (?D - 1)"
    using MakeDay_fields [of t] MakeDay_shift [of ?Y ?M ?D] MakeDay_month_first_day [OF mb, of ?Y] J by simp
  have d1: "1 \<le> ?D" using DateFromTime_range [of t] by simp
  have dlt: "?D < days_in_month ?Y ?M" using d y m by (simp add: getFullYear_def getMonth_def getDate_def)
  have nxt: "month_first_day (J + 1) = month_first_day J + days_in_month ?Y ?M"
    using month_first_day_Suc [of J] jd by simp
  have ms: "0 < msPerDay" by (simp add: msPerDay_def)
  have dm: "t = Day t * msPerDay + t mod msPerDay" by (simp add: Day_def)
  have lo: "Day t * msPerDay \<le> t" and hi: "t < (Day t + 1) * msPerDay"
    using dm pos_mod_sign [OF ms, of t] pos_mod_bound [OF ms, of t] by (simp_all add: distrib_right)
  have "month_first_day J * msPerDay \<le> Day t * msPerDay" using day d1 ms by simp
  moreover have "(Day t + 1) * msPerDay \<le> (month_first_day (J + 1) - 1) * msPerDay"
    using day nxt dlt ms by simp
  ultimately show ?thesis using lo hi le load_window_month [of c] unfolding J_def by simp
qed

lemma createEventAsync_fetch:
  assumes "cal \<in> set (calendars st)"
    and "raw_startDate e \<le> snd (load_window c)" and "fst (load_window c) \<le> raw_endDate e"
    and "e = last (store_events (createEventAsync st (cal_id cal) eventId d))"
  shows "\<exists>evs. fetch_result (createEventAsync st (cal_id cal) eventId d) c = Some evs \<and> formatEvent e \<in> set evs"
proof -
  let ?st' = "createEventAsync st (cal_id cal) eventId d"
  have e: "e \<in> set (store_events ?st')" "raw_calendarId e = cal_id cal"
    using assms(4) by (simp_all add: createEventAsync_def)
  have c: "calendars ?st' = calendars st" "0 < length (calendars st)"
    using assms(1) by (auto simp: createEventAsync_def)
  have "e \<in> set (getEventsAsync ?st' (map cal_id (calendars ?st')) (fst (load_window c)) (snd (load_window c)))"
    using e c(1) assms(1-3) by (auto simp: getEventsAsync_def)
  then show ?thesis using c by (cases "load_window c") (auto simp: fetch_result_def Let_def)
qed

text \<open>A save followed by the OK of its alert queues exactly one reload, at the end.\<close>

lemma save_ok_queues_reload:
  assumes "sys_apply S (SaveEvent eventId storeFails) = S1"
  shows "pending (sys_app (sys_apply S1 SavedOk)) = pending (sys_app S) @ [call_loadEvents (screen (sys_app S)) False]"
    and "screen (sys_app (sys_apply S1 SavedOk)) = closeAddEventModal (screen (sys_app S))"
    and "sys_store (sys_apply S1 SavedOk) = sys_store S1"
  using assms by (auto simp: form_handleClose_def split: prod.splits)

lemma example_session:
  "let S3 = sys_apply (sys_apply (sys_apply (sys_init 1710061200000 example_store)
              (ScreenEvent (PermissionResolved Granted))) (ScreenEvent UIAddEvent)) (FormEvent (TitleInput ''Riunione''));
       S4 = sys_apply S3 (SaveEvent ''e2'' False)
   in sys_reachable 1710061200000 example_store S4 \<and>
      calendarPermission (screen (sys_app S3)) = Granted \<and> currentDate (screen (sys_app S3)) = 1710061200000 \<and>
      sys_alert S4 = Some EventCreated \<and>
      sys_store S4 = createEventAsync example_store ''1'' ''e2''
        (eventData ((initial_form 1710061200000)\<lparr>form_title := ''Riunione''\<rparr>))"
proof -
  let ?S0 = "sys_init 1710061200000 example_store"
  let ?S1 = "sys_apply ?S0 (ScreenEvent (PermissionResolved Granted))"
  let ?S2 = "sys_apply ?S1 (ScreenEvent UIAddEvent)"
  let ?S3 = "sys_apply ?S2 (FormEvent (TitleInput ''Riunione''))"
  let ?S4 = "sys_apply ?S3 (SaveEvent ''e2'' False)"
  have m: "showAddEventModal (screen (sys_app ?S2))" "showAddEventModal (screen (sys_app ?S3))"
    by (simp_all add: sys_init_def initial_app_def initial_screen_def run_effect_def Let_def)
  have a3: "calendarPermission (screen (sys_app ?S3)) = Granted" "currentDate (screen (sys_app ?S3)) = 1710061200000"
    by (simp_all add: sys_init_def initial_app_def initial_screen_def run_effect_def Let_def)
  have st: "sys_store ?S3 = example_store" "sys_form ?S3 = (initial_form 1710061200000)\<lparr>form_title := ''Riunione''\<rparr>"
    by (simp_all add: sys_init_def changeTitle_def)
  have r1: "sys_reachable 1710061200000 example_store ?S1"
    by (rule sys_reachable.step [OF sys_reachable.init]) simp
  have r2: "sys_reachable 1710061200000 example_store ?S2"
    by (rule sys_reachable.step [OF r1]) simp
  have r3: "sys_reachable 1710061200000 example_store ?S3"
    by (rule sys_reachable.step [OF r2]) (simp only: sys_enabled.simps m(1))
  have r: "sys_reachable 1710061200000 example_store ?S4"
    by (rule sys_reachable.step [OF r3]) (simp only: sys_enabled.simps m(2))
  have v: "validateForm ((initial_form 1710061200000)\<lparr>form_title := ''Riunione''\<rparr>) = Inr ()"
    by (simp add: validateForm_def js_trim_def js_space_def initial_form_def hour_ms_def)
  have h: "handleSaveEvent (sys_store ?S3) ''e2'' False (sys_form ?S3) =
      (((initial_form 1710061200000)\<lparr>form_title := ''Riunione''\<rparr>)\<lparr>isLoading := True, isLoading := False\<rparr>,
       createEventAsync example_store ''1'' ''e2'' (eventData ((initial_form 1710061200000)\<lparr>form_title := ''Riunione''\<rparr>)),
       EventCreated)"
    unfolding st by (simp add: handleSaveEvent_def v Let_def defaultCalendar_def example_store_def)
  have s4: "sys_store ?S4 = createEventAsync example_store ''1'' ''e2''
      (eventData ((initial_form 1710061200000)\<lparr>form_title := ''Riunione''\<rparr>))" "sys_alert ?S4 = Some EventCreated"
    using h [unfolded st] by (simp_all add: sys_init_def changeTitle_def)
  show ?thesis using r a3 s4 by (simp only: Let_def simp_thms)
qed

subsection \<open>Properties of the system\<close>

text \<open>
  C31: every event the app adds to the store has a non-empty title, and is either a timed
  event ending after it starts or an all-day event running from midnight to 23:59:59 (the
  start and end of an all-day event are not compared, see C28).
\<close>

theorem sys_store_events_ok:
  assumes "sys_reachable now st0 S" and "e \<in> set (store_events (sys_store S))"
    and "e \<notin> set (store_events st0)"
  shows "app_event_ok e"
  using sys_store_inv [OF assms(1)] assms(2,3) by (auto simp: store_inv_def)


theorem sys_store_events_ok_witness:
  "let S = sys_apply (sys_apply (sys_apply (sys_apply (sys_init 1710061200000 example_store)
              (ScreenEvent (PermissionResolved Granted))) (ScreenEvent UIAddEvent)) (FormEvent (TitleInput ''Riunione''))) (SaveEvent ''e2'' False)
   in sys_reachable 1710061200000 example_store S \<and>
      last (store_events (sys_store S)) \<in> set (store_events (sys_store S)) \<and>
      last (store_events (sys_store S)) \<notin> set (store_events example_store) \<and>
      app_event_ok (last (store_events (sys_store S)))"
proof -
  let ?S = "sys_apply (sys_apply (sys_apply (sys_apply (sys_init 1710061200000 example_store)
              (ScreenEvent (PermissionResolved Granted))) (ScreenEvent UIAddEvent)) (FormEvent (TitleInput ''Riunione''))) (SaveEvent ''e2'' False)"
  have r: "sys_reachable 1710061200000 example_store ?S"
    and s: "sys_store ?S = createEventAsync example_store ''1'' ''e2''
      (eventData ((initial_form 1710061200000)\<lparr>form_title := ''Riunione''\<rparr>))"
    using example_session by (simp_all only: Let_def)
  have new: "raw_id (last (store_events (sys_store ?S))) = ''e2''" and ne: "store_events (sys_store ?S) \<noteq> []"
    unfolding s by (simp_all add: createEventAsync_def)
  have out: "last (store_events (sys_store ?S)) \<notin> set (store_events example_store)"
    using new by (auto simp: example_store_def)
  show ?thesis using sys_store_events_ok [OF r last_in_set [OF ne] out] r ne out by (simp add: Let_def)
qed

text \<open>
  C25: an event saved through the form is on the calendar screen once the user confirms
  the success alert and the reload it triggers completes: OK runs \<open>handleClose\<close> after
  \<open>onEventAdded\<close>, which is \<open>loadEvents\<close>, and that fetch, the last one queued,
  reads the store the save wrote. This holds when the permission is granted and the event
  starts in the displayed month before its last day and ends no earlier than it starts.
\<close>

theorem created_event_shown_after_reload:
  assumes save: "sys_apply S (SaveEvent eventId storeFails) = S1"
    and ok: "sys_alert S1 = Some EventCreated"
    and perm: "calendarPermission (screen (sys_app S)) = Granted"
    and y: "getFullYear (raw_startDate (last (store_events (sys_store S1)))) = getFullYear (currentDate (screen (sys_app S)))"
    and m: "getMonth (raw_startDate (last (store_events (sys_store S1)))) = getMonth (currentDate (screen (sys_app S)))"
    and d: "getDate (raw_startDate (last (store_events (sys_store S1)))) <
      days_in_month (getFullYear (currentDate (screen (sys_app S)))) (getMonth (currentDate (screen (sys_app S))))"
    and y2: "\<not> (0 \<le> getFullYear (currentDate (screen (sys_app S))) \<and> getFullYear (currentDate (screen (sys_app S))) \<le> 99)"
    and le: "raw_startDate (last (store_events (sys_store S1))) \<le> raw_endDate (last (store_events (sys_store S1)))"
  shows "formatEvent (last (store_events (sys_store S1))) \<in>
    set (events (screen (sys_app (sys_apply (sys_apply S1 SavedOk) (ScreenEvent (FetchDone (length (pending (sys_app S)))))))))"
proof -
  obtain f' st' where h: "handleSaveEvent (sys_store S) eventId storeFails (sys_form S) = (f', st', EventCreated)"
    and s1: "sys_store S1 = st'"
    using save ok by (cases "handleSaveEvent (sys_store S) eventId storeFails (sys_form S)") auto
  obtain cal :: store_calendar where c: "defaultCalendar (calendars (sys_store S)) = Some cal"
    and st': "st' = createEventAsync (sys_store S) (cal_id cal) eventId (eventData (sys_form S))"
    using handleSaveEvent_created [OF h] by blast
  let ?c = "currentDate (screen (sys_app S))"
  have w: "raw_startDate (last (store_events st')) \<le> snd (load_window ?c)"
    "fst (load_window ?c) \<le> raw_endDate (last (store_events st'))"
    using load_window_reaches [OF y m d y2 le] unfolding s1 by simp_all
  obtain evs where ev: "fetch_result st' ?c = Some evs" "formatEvent (last (store_events st')) \<in> set evs"
    using createEventAsync_fetch [OF defaultCalendar_mem [OF c] w [unfolded st'] refl] st' by blast
  have q: "pending (sys_app (sys_apply S1 SavedOk)) = pending (sys_app S) @ [call_loadEvents (screen (sys_app S)) False]"
    "screen (sys_app (sys_apply S1 SavedOk)) = closeAddEventModal (screen (sys_app S))"
    "sys_store (sys_apply S1 SavedOk) = st'"
    using save_ok_queues_reload [OF save] s1 by simp_all
  show ?thesis
    using q ev perm s1
    by (simp add: complete_fetch_def call_loadEvents_def closeAddEventModal_def)
qed

theorem created_event_shown_after_reload_witness:
  "let S = sys_apply (sys_apply (sys_apply (sys_init 1710061200000 example_store)
              (ScreenEvent (PermissionResolved Granted))) (ScreenEvent UIAddEvent)) (FormEvent (TitleInput ''Riunione''));
       S1 = sys_apply S (SaveEvent ''e2'' False)
   in sys_alert S1 = Some EventCreated \<and> calendarPermission (screen (sys_app S)) = Granted \<and>
      getFullYear (raw_startDate (last (store_events (sys_store S1)))) = 2024 \<and>
      getMonth (raw_startDate (last (store_events (sys_store S1)))) = 2 \<and>
      getFullYear (currentDate (screen (sys_app S))) = 2024 \<and> getMonth (currentDate (screen (sys_app S))) = 2 \<and>
      getDate (raw_startDate (last (store_events (sys_store S1)))) = 10 \<and>
      raw_startDate (last (store_events (sys_store S1))) \<le> raw_endDate (last (store_events (sys_store S1))) \<and>
      formatEvent (last (store_events (sys_store S1))) \<in>
        set (events (screen (sys_app (sys_apply (sys_apply S1 SavedOk) (ScreenEvent (FetchDone (length (pending (sys_app S)))))))))"
proof -
  let ?S = "sys_apply (sys_apply (sys_apply (sys_init 1710061200000 example_store)
              (ScreenEvent (PermissionResolved Granted))) (ScreenEvent UIAddEvent)) (FormEvent (TitleInput ''Riunione''))"
  let ?S1 = "sys_apply ?S (SaveEvent ''e2'' False)"
  have a: "calendarPermission (screen (sys_app ?S)) = Granted" "currentDate (screen (sys_app ?S)) = 1710061200000"
    "sys_alert ?S1 = Some EventCreated"
    "sys_store ?S1 = createEventAsync example_store ''1'' ''e2''
        (eventData ((initial_form 1710061200000)\<lparr>form_title := ''Riunione''\<rparr>))"
    using example_session by (simp_all only: Let_def)
  have e: "raw_startDate (last (store_events (sys_store ?S1))) = 1710061200000"
    "raw_endDate (last (store_events (sys_store ?S1))) = 1710064800000"
    unfolding a(4) by (simp_all add: createEventAsync_def eventData_def initial_form_def hour_ms_def)
  have f: "getFullYear 1710061200000 = 2024" "getMonth 1710061200000 = 2" "getDate 1710061200000 = 10"
    by (simp_all add: date_eval)
  have dm: "days_in_month 2024 2 = 31" by (simp add: date_eval)
  have "formatEvent (last (store_events (sys_store ?S1))) \<in>
      set (events (screen (sys_app (sys_apply (sys_apply ?S1 SavedOk) (ScreenEvent (FetchDone (length (pending (sys_app ?S)))))))))"
    by (rule created_event_shown_after_reload [OF refl a(3) a(1)]) (simp_all only: a(2) e f dm, simp)
  then show ?thesis using a e f by (simp only: Let_def simp_thms)
qed

end
