(* ===== verification/Style_Sheets.thy ===== *)
theory Style_Sheets
  imports Styles Complex_Main
begin

text \<open>
  The style sheets of \<open>src/styles/commonStyles.ts\<close> (\<open>buttonStyles\<close>, \<open>textStyles\<close>,
  \<open>commonStyles\<close>, lines 19-137) and the two ways the screens combine styles: the object
  literal with spread (\<open>{...commonStyles.center, width: CELL_SIZE}\<close>) and the style array
  (\<open>[styles.dayCell, isSelected && styles.selectedDayCell]\<close>).

  A style is a JavaScript object: an association list from property names to values, in
  insertion order, one entry per key. Assigning a key that is present replaces its value
  in place (\<open>obj_set\<close>), so an object literal is the fold of its entries over the empty
  object and a spread assigns every entry of the spread object. \<open>StyleSheet.create\<close>
  returns its argument, so a sheet is an object from style names to styles; reading a name
  the sheet lacks gives \<open>undefined\<close>, which React Native draws as the empty style. A style
  array is flattened left to right, skipping the \<open>false\<close> of an unmet \<open>c && s\<close>, so a
  later style wins on a shared key. Numbers are exact rationals (rounding of the device's
  floating point is not modelled), strings are kept as written, colours are the entries
  of \<open>colors\<close>.
\<close>

datatype style_value = SNum rat | SStr string

type_synonym style = "(string \<times> style_value) list"

datatype style_entry = Prop string style_value | Spread style

fun obj_set :: "string \<Rightarrow> style_value \<Rightarrow> style \<Rightarrow> style" where
  "obj_set k v [] = [(k, v)]"
| "obj_set k v ((k', v') # ps) = (if k' = k then (k, v) # ps else (k', v') # obj_set k v ps)"

definition obj_assign :: "style \<Rightarrow> style \<Rightarrow> style" where
  "obj_assign src obj = fold (\<lambda>(k, v). obj_set k v) src obj"

fun entry_apply :: "style_entry \<Rightarrow> style \<Rightarrow> style" where
  "entry_apply (Prop k v) obj = obj_set k v obj"
| "entry_apply (Spread s) obj = obj_assign s obj"

definition obj_lit :: "style_entry list \<Rightarrow> style" where
  "obj_lit es = fold entry_apply es []"

definition style_get :: "style \<Rightarrow> string \<Rightarrow> style_value option" where
  "style_get s k = map_of s k"

definition style_num :: "style \<Rightarrow> string \<Rightarrow> rat option" where
  "style_num s k = (case style_get s k of Some (SNum x) \<Rightarrow> Some x | _ \<Rightarrow> None)"

type_synonym style_sheet = "(string \<times> style) list"

definition sheet_get :: "style_sheet \<Rightarrow> string \<Rightarrow> style" where
  "sheet_get sh n = (case map_of sh n of Some s \<Rightarrow> s | None \<Rightarrow> [])"

text \<open>\<open>c && s\<close> inside a style array.\<close>

definition when_style :: "bool \<Rightarrow> style \<Rightarrow> style option" where
  "when_style c s = (if c then Some s else None)"

definition flatten_style :: "style option list \<Rightarrow> style" where
  "flatten_style ss = fold (\<lambda>s obj. case s of None \<Rightarrow> obj | Some st \<Rightarrow> obj_assign st obj) ss []"

definition colour :: "(app_colors \<Rightarrow> string) \<Rightarrow> style_value" where
  "colour c = SStr (c colors)"

definition shadow_css :: style_value where
  "shadow_css = SStr ''0px 2px 8px rgba(0, 0, 0, 0.1)''"

subsection \<open>The shared sheets\<close>

definition filled_button :: "(app_colors \<Rightarrow> string) \<Rightarrow> style" where
  "filled_button c =
     obj_lit [Prop ''backgroundColor'' (colour c), Prop ''paddingHorizontal'' (SNum 20),
              Prop ''paddingVertical'' (SNum 12), Prop ''borderRadius'' (SNum 8),
              Prop ''alignItems'' (SStr ''center''), Prop ''justifyContent'' (SStr ''center'')]"

definition buttonStyles :: style_sheet where
  "buttonStyles =
     [(''primary'', filled_button primary), (''secondary'', filled_button secondary),
      (''accent'', filled_button accent),
      (''outline'', obj_lit [Prop ''backgroundColor'' (SStr ''transparent''),
         Prop ''borderWidth'' (SNum 1), Prop ''borderColor'' (colour primary),
         Prop ''paddingHorizontal'' (SNum 20), Prop ''paddingVertical'' (SNum 12),
         Prop ''borderRadius'' (SNum 8), Prop ''alignItems'' (SStr ''center''),
         Prop ''justifyContent'' (SStr ''center'')])]"

definition textStyles :: style_sheet where
  "textStyles =
     [(''title'', obj_lit [Prop ''fontSize'' (SNum 24), Prop ''fontWeight'' (SStr ''700''),
         Prop ''color'' (colour text_colour), Prop ''marginBottom'' (SNum 8)]),
      (''subtitle'', obj_lit [Prop ''fontSize'' (SNum 18), Prop ''fontWeight'' (SStr ''600''),
         Prop ''color'' (colour text_colour), Prop ''marginBottom'' (SNum 6)]),
      (''body'', obj_lit [Prop ''fontSize'' (SNum 16), Prop ''fontWeight'' (SStr ''400''),
         Prop ''color'' (colour text_colour), Prop ''lineHeight'' (SNum 24)]),
      (''caption'', obj_lit [Prop ''fontSize'' (SNum 14), Prop ''fontWeight'' (SStr ''400''),
         Prop ''color'' (colour textSecondary), Prop ''lineHeight'' (SNum 20)]),
      (''buttonText'', obj_lit [Prop ''fontSize'' (SNum 16), Prop ''fontWeight'' (SStr ''600''),
         Prop ''color'' (colour card_colour)]),
      (''buttonTextOutline'', obj_lit [Prop ''fontSize'' (SNum 16),
         Prop ''fontWeight'' (SStr ''600''), Prop ''color'' (colour primary)])]"

definition commonStyles :: style_sheet where
  "commonStyles =
     [(''container'', obj_lit [Prop ''flex'' (SNum 1), Prop ''backgroundColor'' (colour background)]),
      (''safeArea'', obj_lit [Prop ''flex'' (SNum 1), Prop ''backgroundColor'' (colour background)]),
      (''content'', obj_lit [Prop ''flex'' (SNum 1), Prop ''paddingHorizontal'' (SNum 16),
         Prop ''paddingVertical'' (SNum 8)]),
      (''card'', obj_lit [Prop ''backgroundColor'' (colour card_colour), Prop ''borderRadius'' (SNum 12),
         Prop ''padding'' (SNum 16), Prop ''marginVertical'' (SNum 8),
         Prop ''boxShadow'' shadow_css, Prop ''elevation'' (SNum 3)]),
      (''row'', obj_lit [Prop ''flexDirection'' (SStr ''row''), Prop ''alignItems'' (SStr ''center'')]),
      (''spaceBetween'', obj_lit [Prop ''flexDirection'' (SStr ''row''),
         Prop ''alignItems'' (SStr ''center''), Prop ''justifyContent'' (SStr ''space-between'')]),
      (''center'', obj_lit [Prop ''alignItems'' (SStr ''center''), Prop ''justifyContent'' (SStr ''center'')]),
      (''shadow'', obj_lit [Prop ''boxShadow'' shadow_css, Prop ''elevation'' (SNum 3)]),
      (''divider'', obj_lit [Prop ''height'' (SNum 1), Prop ''backgroundColor'' (colour border),
         Prop ''marginVertical'' (SNum 8)])]"

named_theorems style_eval "definitions unfolded when a style is read on a concrete key"

declare obj_lit_def [style_eval] obj_assign_def [style_eval] sheet_get_def [style_eval]
  style_num_def [style_eval] style_get_def [style_eval] colour_def [style_eval]
  shadow_css_def [style_eval] when_style_def [style_eval] flatten_style_def [style_eval]
  commonStyles_def [style_eval] textStyles_def [style_eval] buttonStyles_def [style_eval]
  filled_button_def [style_eval]

subsection \<open>Objects keep one entry per key\<close>

definition keys_distinct :: "style \<Rightarrow> bool" where
  "keys_distinct s = distinct (map fst s)"

lemma map_of_obj_set [simp]: "map_of (obj_set k v obj) = (map_of obj)(k \<mapsto> v)"
  by (induction obj) (auto simp: fun_eq_iff)

lemma keys_obj_set [simp]: "fst ` set (obj_set k v obj) = insert k (fst ` set obj)"
  using map_of_obj_set [of k v obj] by (metis dom_map_of_conv_image_fst dom_fun_upd option.distinct(1))

lemma distinct_obj_set: "distinct (map fst obj) \<Longrightarrow> distinct (map fst (obj_set k v obj))"
  by (induction obj) (auto simp: image_iff)

lemma map_of_obj_assign [simp]: "map_of (obj_assign src obj) = map_of obj ++ map_of (rev src)"
  by (induction src arbitrary: obj) (auto simp: obj_assign_def)

lemma distinct_obj_assign: "distinct (map fst obj) \<Longrightarrow> distinct (map fst (obj_assign src obj))"
  by (induction src arbitrary: obj) (auto simp: obj_assign_def intro: distinct_obj_set)

lemma keys_distinct_obj_lit: "keys_distinct (obj_lit es)"
proof -
  have "distinct (map fst obj) \<Longrightarrow> distinct (map fst (fold entry_apply es obj))" for obj
  proof (induction es arbitrary: obj)
    case (Cons e es)
    then show ?case
      by (cases e) (auto intro: distinct_obj_set distinct_obj_assign)
  qed simp
  then show ?thesis by (simp add: obj_lit_def keys_distinct_def)
qed

text \<open>Flattening a style array is assigning, in order, every style the array holds.\<close>

lemma flatten_style_assign:
  "flatten_style ss = obj_assign (concat (map (\<lambda>s. case s of None \<Rightarrow> [] | Some st \<Rightarrow> st) ss)) []"
proof -
  have "fold (\<lambda>s obj. case s of None \<Rightarrow> obj | Some st \<Rightarrow> obj_assign st obj) ss obj =
        obj_assign (concat (map (\<lambda>s. case s of None \<Rightarrow> [] | Some st \<Rightarrow> st) ss)) obj" for obj
    by (induction ss arbitrary: obj) (auto simp: obj_assign_def split: option.split)
  then show ?thesis by (simp add: flatten_style_def)
qed

lemma keys_distinct_flatten: "keys_distinct (flatten_style ss)"
  unfolding flatten_style_assign keys_distinct_def by (rule distinct_obj_assign) simp

text \<open>A key of a flattened style array has the value of the last style that sets it.\<close>

lemma style_get_flatten_snoc:
  "style_get (flatten_style (ss @ [s])) k =
     (case s of Some st \<Rightarrow> (case map_of (rev st) k of Some v \<Rightarrow> Some v
                                                 | None \<Rightarrow> style_get (flatten_style ss) k)
              | None \<Rightarrow> style_get (flatten_style ss) k)"
  by (simp add: flatten_style_assign style_get_def map_add_def split: option.split)

end
