(* ===== verification/Yoga_Layout.thy ===== *)
theory Yoga_Layout
  imports Style_Sheets
begin

text \<open>
  The part of React Native's layout engine (Yoga) the screens' widths depend on, modelled
  from its documented behaviour since it is not code of the repository: a box with a
  \<open>width\<close> occupies it plus its horizontal margins; a child stretched across its parent (the
  default \<open>alignItems: 'stretch'\<close> of a column) gets the parent's content width less its own
  margins, and its content lies inside its paddings and borders; a row with
  \<open>flexWrap: 'wrap'\<close> starts a new line before a child that would overflow the line, unless
  the line is empty. Vertical layout, growth, shrinking and alignment are not modelled.
\<close>

text \<open>A side's margin or padding: the side's own key, else the axis key, else the shorthand.\<close>

definition edge_value :: "style \<Rightarrow> string \<Rightarrow> string \<Rightarrow> string \<Rightarrow> rat" where
  "edge_value s side axis all =
     (case style_num s side of Some x \<Rightarrow> x
      | None \<Rightarrow> (case style_num s axis of Some x \<Rightarrow> x
                 | None \<Rightarrow> (case style_num s all of Some x \<Rightarrow> x | None \<Rightarrow> 0)))"

definition border_value :: "style \<Rightarrow> string \<Rightarrow> rat" where
  "border_value s side =
     (case style_num s side of Some x \<Rightarrow> x
      | None \<Rightarrow> (case style_num s ''borderWidth'' of Some x \<Rightarrow> x | None \<Rightarrow> 0))"

definition horizontal_margin :: "style \<Rightarrow> rat" where
  "horizontal_margin s =
     edge_value s ''marginLeft'' ''marginHorizontal'' ''margin''
     + edge_value s ''marginRight'' ''marginHorizontal'' ''margin''"

definition horizontal_inset :: "style \<Rightarrow> rat" where
  "horizontal_inset s =
     edge_value s ''paddingLeft'' ''paddingHorizontal'' ''padding''
     + edge_value s ''paddingRight'' ''paddingHorizontal'' ''padding''
     + border_value s ''borderLeftWidth'' + border_value s ''borderRightWidth''"

definition item_outer_width :: "style \<Rightarrow> rat" where
  "item_outer_width s = (case style_num s ''width'' of Some x \<Rightarrow> x | None \<Rightarrow> 0) + horizontal_margin s"

definition stretched_inner :: "style \<Rightarrow> rat \<Rightarrow> rat" where
  "stretched_inner s avail = avail - horizontal_margin s - horizontal_inset s"

fun wrap_lines :: "rat \<Rightarrow> rat \<Rightarrow> nat \<Rightarrow> rat list \<Rightarrow> nat list" where
  "wrap_lines avail used n [] = (if n = 0 then [] else [n])"
| "wrap_lines avail used n (x # xs) =
     (if 0 < n \<and> avail < used + x then n # wrap_lines avail x 1 xs
      else wrap_lines avail (used + x) (Suc n) xs)"

definition flex_wrap_rows :: "rat \<Rightarrow> rat list \<Rightarrow> nat list" where
  "flex_wrap_rows avail ws = wrap_lines avail 0 0 ws"

lemmas box_eval = item_outer_width_def horizontal_margin_def horizontal_inset_def edge_value_def
  border_value_def stretched_inner_def

subsection \<open>Line breaking\<close>

text \<open>Every cell is placed on exactly one line, and no line is empty.\<close>

lemma wrap_lines_sum: "sum_list (wrap_lines avail used n ws) = n + length ws"
  by (induction avail used n ws rule: wrap_lines.induct) auto

lemma wrap_lines_pos: "m \<in> set (wrap_lines avail used n ws) \<Longrightarrow> 0 < m"
  by (induction avail used n ws rule: wrap_lines.induct) (auto split: if_splits)

text \<open>
  If every item is at least \<open>c\<close> wide and \<open>k\<close> of them are wider than the line, no line holds
  \<open>k\<close> items.
\<close>

lemma wrap_lines_below:
  fixes c :: rat
  assumes "0 < c" "\<forall>x\<in>set ws. c \<le> x" "avail < of_nat k * c" "of_nat n * c \<le> used" "n < k" "1 < k"
  shows "m \<in> set (wrap_lines avail used n ws) \<Longrightarrow> m < k"
  using assms
proof (induction avail used n ws rule: wrap_lines.induct)
  case (1 avail used n)
  then show ?case by (simp split: if_splits)
next
  case (2 avail used n x xs)
  show ?case
  proof (cases "0 < n \<and> avail < used + x")
    case True
    then show ?thesis using 2 by auto
  next
    case False
    have le: "of_nat (Suc n) * c \<le> used + x" using "2.prems"(3,5) by (simp add: algebra_simps)
    have "Suc n < k"
    proof (cases "n = 0")
      case True
      then show ?thesis using "2.prems"(7) by simp
    next
      case n: False
      with False have "used + x \<le> avail" by simp
      with le "2.prems"(4) have "of_nat (Suc n) * c < of_nat k * c" by linarith
      with "2.prems"(2) show ?thesis by simp
    qed
    with False le 2 show ?thesis by auto
  qed
qed


end
