(* ===== verification/Grid_Layout.thy ===== *)
theory Grid_Layout
  imports Screen_View Yoga_Layout
begin

text \<open>
  How the calendar card of \<open>CalendarScreen\<close> (\<open>src/app/(tabs)/(home)/index.tsx\<close>) is laid
  out: the cell size computed from the window width (lines 32-34), the screen's style sheet
  (lines 448-550), the style arrays of a day cell and of its number (lines 246-258), and the
  nesting of the card in the screen (lines 374-411), laid out by the model of the layout
  engine in \<open>Yoga_Layout\<close>. The window width is a rational number; the horizontal
  safe-area insets are taken as zero (a phone in portrait).
\<close>

definition DAYS_IN_WEEK :: rat where
  "DAYS_IN_WEEK = 7"

definition CELL_SIZE :: "rat \<Rightarrow> rat" where
  "CELL_SIZE width = (width - 32) / DAYS_IN_WEEK"

definition home_styles :: "rat \<Rightarrow> style_sheet" where
  "home_styles width =
     [(''header'', obj_lit [Spread (sheet_get commonStyles ''spaceBetween''), Prop ''paddingVertical'' (SNum 16)]),
      (''navButton'', obj_lit [Prop ''padding'' (SNum 8), Prop ''borderRadius'' (SNum 8),
         Prop ''backgroundColor'' (colour card_colour), Spread (sheet_get commonStyles ''shadow'')]),
      (''monthButton'', obj_lit [Prop ''paddingHorizontal'' (SNum 20), Prop ''paddingVertical'' (SNum 8)]),
      (''weekDaysContainer'', obj_lit [Spread (sheet_get commonStyles ''row''),
         Prop ''paddingBottom'' (SNum 8), Prop ''borderBottomWidth'' (SNum 1),
         Prop ''borderBottomColor'' (colour border)]),
      (''weekDayCell'', obj_lit [Prop ''width'' (SNum (CELL_SIZE width)),
         Spread (sheet_get commonStyles ''center''), Prop ''paddingVertical'' (SNum 8)]),
      (''calendarGrid'', obj_lit [Prop ''flexDirection'' (SStr ''row''), Prop ''flexWrap'' (SStr ''wrap''),
         Prop ''paddingTop'' (SNum 8)]),
      (''emptyCell'', obj_lit [Prop ''width'' (SNum (CELL_SIZE width)), Prop ''height'' (SNum (CELL_SIZE width))]),
      (''dayCell'', obj_lit [Prop ''width'' (SNum (CELL_SIZE width)), Prop ''height'' (SNum (CELL_SIZE width)),
         Spread (sheet_get commonStyles ''center''), Prop ''borderRadius'' (SNum 8), Prop ''margin'' (SNum 2),
         Prop ''position'' (SStr ''relative'')]),
      (''selectedDayCell'', obj_lit [Prop ''backgroundColor'' (colour primary)]),
      (''todayCell'', obj_lit [Prop ''backgroundColor'' (colour highlight), Prop ''borderRadius'' (SNum 8)]),
      (''eventIndicatorContainer'', obj_lit [Prop ''position'' (SStr ''absolute''), Prop ''bottom'' (SNum 4),
         Prop ''flexDirection'' (SStr ''row''), Prop ''alignItems'' (SStr ''center'')]),
      (''eventIndicator'', obj_lit [Prop ''width'' (SNum 4), Prop ''height'' (SNum 4),
         Prop ''borderRadius'' (SNum 2), Prop ''backgroundColor'' (colour secondary)]),
      (''moreEventsText'', obj_lit [Prop ''fontSize'' (SNum 8), Prop ''color'' (colour textSecondary),
         Prop ''marginLeft'' (SNum 2)]),
      (''eventsSection'', obj_lit [Prop ''marginTop'' (SNum 16)]),
      (''addEventButton'', obj_lit [Prop ''padding'' (SNum 8), Prop ''borderRadius'' (SNum 6),
         Prop ''backgroundColor'' (colour card_colour), Spread (sheet_get commonStyles ''shadow'')]),
      (''noEventsContainer'', obj_lit [Spread (sheet_get commonStyles ''center''), Prop ''paddingVertical'' (SNum 32)]),
      (''addFirstEventButton'', obj_lit [Prop ''marginTop'' (SNum 16), Prop ''paddingVertical'' (SNum 8),
         Prop ''paddingHorizontal'' (SNum 16)]),
      (''eventCard'', obj_lit [Prop ''backgroundColor'' (colour card_colour), Prop ''borderRadius'' (SNum 8),
         Prop ''padding'' (SNum 12), Prop ''marginBottom'' (SNum 8), Prop ''borderLeftWidth'' (SNum 4),
         Prop ''borderLeftColor'' (colour accent), Spread (sheet_get commonStyles ''shadow'')]),
      (''eventHeader'', obj_lit [Spread (sheet_get commonStyles ''spaceBetween''),
         Prop ''alignItems'' (SStr ''flex-start'')]),
      (''headerButton'', obj_lit [Prop ''padding'' (SNum 8)])]"

subsection \<open>The day cell's style arrays\<close>

definition dayCellStyle :: "rat \<Rightarrow> bool \<Rightarrow> bool \<Rightarrow> style" where
  "dayCellStyle width isSelected isToday =
     flatten_style [Some (sheet_get (home_styles width) ''dayCell''),
                    when_style isSelected (sheet_get (home_styles width) ''selectedDayCell''),
                    when_style isToday (sheet_get (home_styles width) ''todayCell'')]"

definition dayTextStyle :: "bool \<Rightarrow> bool \<Rightarrow> style" where
  "dayTextStyle isSelected isToday =
     flatten_style [Some (sheet_get textStyles ''body''), Some (obj_lit [Prop ''fontSize'' (SNum 16)]),
                    when_style isSelected (obj_lit [Prop ''color'' (colour card_colour)]),
                    when_style (isToday \<and> \<not> isSelected)
                      (obj_lit [Prop ''color'' (colour primary), Prop ''fontWeight'' (SStr ''700'')])]"

definition cell_style :: "rat \<Rightarrow> day_cell_view \<Rightarrow> style" where
  "cell_style width c =
     (case c of EmptyCell \<Rightarrow> sheet_get (home_styles width) ''emptyCell''
              | DayCell _ sel today _ _ _ \<Rightarrow> dayCellStyle width sel today)"

subsection \<open>The calendar card in the screen\<close>

definition calendar_card_style :: style where
  "calendar_card_style =
     flatten_style [Some (sheet_get commonStyles ''card''), Some (obj_lit [Prop ''marginVertical'' (SNum 16)])]"

definition card_inner_width :: "rat \<Rightarrow> rat" where
  "card_inner_width width =
     stretched_inner calendar_card_style
       (stretched_inner (sheet_get commonStyles ''content'')
         (stretched_inner (sheet_get commonStyles ''container'')
           (stretched_inner (sheet_get commonStyles ''safeArea'') width)))"

definition grid_inner_width :: "rat \<Rightarrow> rat" where
  "grid_inner_width width = stretched_inner (sheet_get (home_styles width) ''calendarGrid'') (card_inner_width width)"

definition week_header_inner_width :: "rat \<Rightarrow> rat" where
  "week_header_inner_width width =
     stretched_inner (sheet_get (home_styles width) ''weekDaysContainer'') (card_inner_width width)"

definition week_header_width :: "rat \<Rightarrow> rat" where
  "week_header_width width =
     sum_list (map (\<lambda>_. item_outer_width (sheet_get (home_styles width) ''weekDayCell'')) weekDays)"

definition grid_rows :: "rat \<Rightarrow> screen_state \<Rightarrow> time_value \<Rightarrow> nat list" where
  "grid_rows width s now =
     flex_wrap_rows (grid_inner_width width) (map (\<lambda>c. item_outer_width (cell_style width c)) (renderCalendarGrid s now))"

declare home_styles_def [style_eval]

subsection \<open>Widths\<close>

text \<open>
  Seven cells of \<open>CELL_SIZE\<close> fill the window less 32 pixels, but the card's content is the
  window less 64 (16 of \<open>content\<close> padding and 16 of \<open>card\<close> padding on each side), and a
  day cell adds a margin of 2 on each side.
\<close>

lemma seven_cells: "DAYS_IN_WEEK * CELL_SIZE w = w - 32"
  by (simp add: CELL_SIZE_def DAYS_IN_WEEK_def)

lemma cell_width:
  "item_outer_width (cell_style w c) = CELL_SIZE w + (if c = EmptyCell then 0 else 4)"
proof (cases c)
  case EmptyCell
  then show ?thesis by (simp add: cell_style_def style_eval box_eval)
next
  case (DayCell d sel today l n m)
  then show ?thesis
    by (cases sel; cases today) (simp_all add: cell_style_def dayCellStyle_def style_eval box_eval)
qed

lemma weekDayCell_width: "item_outer_width (sheet_get (home_styles w) ''weekDayCell'') = CELL_SIZE w"
  by (simp add: style_eval box_eval)

lemma card_inner_width_eq: "card_inner_width w = w - 64"
  by (simp add: card_inner_width_def calendar_card_style_def style_eval box_eval)

lemma grid_inner_width_eq: "grid_inner_width w = w - 64"
  by (simp add: grid_inner_width_def card_inner_width_eq style_eval box_eval)

text \<open>The week-day header row, which does not wrap, is 32 pixels wider than its content box.\<close>

lemma week_header_overflow: "week_header_width w = week_header_inner_width w + 32"
proof -
  have "week_header_width w = DAYS_IN_WEEK * CELL_SIZE w"
    by (simp add: week_header_width_def weekDayCell_width weekDays_def DAYS_IN_WEEK_def)
  moreover have "week_header_inner_width w = w - 64"
    by (simp add: week_header_inner_width_def card_inner_width_eq style_eval box_eval)
  ultimately show ?thesis by (simp add: seven_cells)
qed

lemma grid_cell_widths:
  "map (\<lambda>c. item_outer_width (cell_style w c)) (renderCalendarGrid s now) =
   map (\<lambda>d. case d of None \<Rightarrow> CELL_SIZE w | Some _ \<Rightarrow> CELL_SIZE w + 4) (getDaysInMonth (currentDate s))"
  by (simp add: renderCalendarGrid_def cell_width renderDayCell_def Let_def split: option.split)

subsection \<open>The grid does not have seven columns\<close>

text \<open>
  C32. For every window wider than 32 pixels (so that \<open>CELL_SIZE\<close> is positive), the
  month grid is laid out in lines that together hold every cell, and no line holds seven
  cells: the day cells cannot stand under the seven week-day headers, where the spec's grid
  wraps rows at seven.
\<close>

theorem grid_rows_below_seven:
  assumes "32 < width"
  shows "sum_list (grid_rows width s now) = length (renderCalendarGrid s now) \<and>
         (\<forall>n\<in>set (grid_rows width s now). 0 < n \<and> n < 7)"
proof -
  let ?ws = "map (\<lambda>c. item_outer_width (cell_style width c)) (renderCalendarGrid s now)"
  have c: "0 < CELL_SIZE width" using assms by (simp add: CELL_SIZE_def DAYS_IN_WEEK_def)
  have ws: "\<forall>x\<in>set ?ws. CELL_SIZE width \<le> x" by (auto simp: cell_width)
  have avail: "grid_inner_width width < of_nat 7 * CELL_SIZE width"
    using seven_cells [of width] by (simp add: grid_inner_width_eq DAYS_IN_WEEK_def)
  have "n \<in> set (grid_rows width s now) \<Longrightarrow> n < 7" for n
    unfolding grid_rows_def flex_wrap_rows_def by (rule wrap_lines_below [OF c ws avail]) simp_all
  then show ?thesis
    by (auto simp: grid_rows_def flex_wrap_rows_def wrap_lines_sum intro: wrap_lines_pos)
qed

theorem grid_rows_below_seven_witness:
  "32 < (390::rat) \<and>
   sum_list (grid_rows 390 (initial_screen 1707998400000) 1707998400000) =
     length (renderCalendarGrid (initial_screen 1707998400000) 1707998400000) \<and>
   list_all (\<lambda>n. 0 < n \<and> n < 7) (grid_rows 390 (initial_screen 1707998400000) 1707998400000)"
  using grid_rows_below_seven [of 390 "initial_screen 1707998400000" 1707998400000] by (simp add: list_all_iff)

text \<open>
  March 2024 on a 390-pixel phone: the five blanks and the 1st fill the first line, then
  five days a line, so the 36 cells take seven lines instead of six.
\<close>

lemma march_2024_rows:
  "grid_rows 390 (initial_screen 1710158400000) now = [6, 5, 5, 5, 5, 5, 5]"
proof -
  have y: "getFullYear 1710158400000 = 2024" and m: "getMonth 1710158400000 = 2"
    and b: "(MakeDay (grid_year 1710158400000) (getMonth 1710158400000) 1 + 4) mod 7 = 5"
    and n: "days_in_month (grid_year 1710158400000) (getMonth 1710158400000) = 31"
    by (simp_all add: date_eval grid_year_def)
  have g: "getDaysInMonth 1710158400000 =
      replicate 5 None @ map (\<lambda>day. Some (Date_new 2024 2 day 0 0 0 0)) [1..31]"
    unfolding getDaysInMonth_eq unfolding b n unfolding y m by simp
  show ?thesis
    unfolding grid_rows_def grid_cell_widths by (simp add: initial_screen_def g grid_inner_width_eq
      CELL_SIZE_def DAYS_IN_WEEK_def flex_wrap_rows_def upto.simps numeral_eq_Suc)
qed

subsection \<open>Colours of a day cell\<close>

text \<open>
  The cell's background comes from the last of \<open>selectedDayCell\<close> and \<open>todayCell\<close> that
  applies, the number's colour from the last of the two colour objects that applies: on
  today's cell when it is selected, \<open>todayCell\<close> wins the background (highlight yellow)
  while the number takes the selected colour (the card's white).
\<close>

lemma day_cell_colours:
  "style_get (dayCellStyle w sel today) ''backgroundColor'' =
     (if today then Some (colour highlight) else if sel then Some (colour primary) else None) \<and>
   style_get (dayTextStyle sel today) ''color'' =
     Some (if sel then colour card_colour else if today then colour primary else colour text_colour)"
  by (cases sel; cases today) (simp_all add: dayCellStyle_def dayTextStyle_def style_eval)

end
