(* ===== verification/Screen_Styles.thy ===== *)
theory Screen_Styles
  imports Yoga_Layout
begin

text \<open>
  The style sheets of the add-event form (\<open>src/components/AddEventModal.tsx\<close>, lines
  348-425), of the details view (\<open>src/components/EventDetailsModal.tsx\<close>, lines 234-277)
  and of the settings screen (\<open>src/app/(tabs)/profile.tsx\<close>, lines 263-331), with the
  style arrays those components build from their state. The lemmas read the flattened
  styles: a key written after a spread overrides the spread's value, and a style array's
  later member wins.
\<close>

subsection \<open>Add-event form\<close>

definition form_styles :: style_sheet where
  "form_styles =
     [(''header'', obj_lit [Spread (sheet_get commonStyles ''spaceBetween''), Prop ''paddingHorizontal'' (SNum 16),
         Prop ''paddingVertical'' (SNum 12), Prop ''borderBottomWidth'' (SNum 1),
         Prop ''borderBottomColor'' (colour border), Prop ''backgroundColor'' (colour card_colour)]),
      (''headerButton'', obj_lit [Prop ''paddingVertical'' (SNum 8), Prop ''paddingHorizontal'' (SNum 4)]),
      (''inputSection'', obj_lit [Prop ''marginBottom'' (SNum 24)]),
      (''label'', obj_lit [Spread (sheet_get textStyles ''body''), Prop ''fontWeight'' (SStr ''600''),
         Prop ''marginBottom'' (SNum 8), Prop ''color'' (colour text_colour)]),
      (''textInput'', obj_lit [Prop ''borderWidth'' (SNum 1), Prop ''borderColor'' (colour border),
         Prop ''borderRadius'' (SNum 8), Prop ''paddingHorizontal'' (SNum 16), Prop ''paddingVertical'' (SNum 12),
         Prop ''fontSize'' (SNum 16), Prop ''color'' (colour text_colour), Prop ''backgroundColor'' (colour card_colour)]),
      (''textArea'', obj_lit [Prop ''height'' (SNum 100), Prop ''textAlignVertical'' (SStr ''top'')]),
      (''toggleRow'', obj_lit [Spread (sheet_get commonStyles ''spaceBetween'')]),
      (''toggle'', obj_lit [Prop ''width'' (SNum 50), Prop ''height'' (SNum 30), Prop ''borderRadius'' (SNum 15),
         Prop ''backgroundColor'' (colour border), Prop ''justifyContent'' (SStr ''center''),
         Prop ''paddingHorizontal'' (SNum 2)]),
      (''toggleActive'', obj_lit [Prop ''backgroundColor'' (colour primary)]),
      (''toggleIndicator'', obj_lit [Prop ''width'' (SNum 26), Prop ''height'' (SNum 26), Prop ''borderRadius'' (SNum 13),
         Prop ''backgroundColor'' (colour card_colour), Prop ''alignSelf'' (SStr ''flex-end'')]),
      (''dateTimeRow'', obj_lit [Prop ''flexDirection'' (SStr ''row''), Prop ''gap'' (SNum 12)]),
      (''dateTimeButton'', obj_lit [Prop ''flex'' (SNum 1), Prop ''flexDirection'' (SStr ''row''),
         Prop ''alignItems'' (SStr ''center''), Prop ''paddingHorizontal'' (SNum 16), Prop ''paddingVertical'' (SNum 12),
         Prop ''borderWidth'' (SNum 1), Prop ''borderColor'' (colour border), Prop ''borderRadius'' (SNum 8),
         Prop ''backgroundColor'' (colour card_colour)]),
      (''dateTimeText'', obj_lit [Spread (sheet_get textStyles ''body''), Prop ''marginLeft'' (SNum 8),
         Prop ''color'' (colour text_colour)])]"

definition saveTextStyle :: "bool \<Rightarrow> style" where
  "saveTextStyle isLoading =
     flatten_style [Some (sheet_get textStyles ''body''),
       Some (obj_lit [Prop ''color'' (if isLoading then colour textSecondary else colour primary),
                      Prop ''fontWeight'' (SStr ''600'')])]"

definition toggleStyle :: "bool \<Rightarrow> style" where
  "toggleStyle isAllDay =
     flatten_style [Some (sheet_get form_styles ''toggle''), when_style isAllDay (sheet_get form_styles ''toggleActive'')]"

definition descriptionInputStyle :: style where
  "descriptionInputStyle = flatten_style [Some (sheet_get form_styles ''textInput''), Some (sheet_get form_styles ''textArea'')]"

subsection \<open>Details view\<close>

definition details_styles :: style_sheet where
  "details_styles =
     [(''header'', obj_lit [Spread (sheet_get commonStyles ''spaceBetween''), Prop ''paddingHorizontal'' (SNum 16),
         Prop ''paddingVertical'' (SNum 12), Prop ''borderBottomWidth'' (SNum 1),
         Prop ''borderBottomColor'' (colour border), Prop ''backgroundColor'' (colour card_colour)]),
      (''headerButton'', obj_lit [Prop ''padding'' (SNum 8)]),
      (''section'', obj_lit [Prop ''marginBottom'' (SNum 24)]),
      (''detailRow'', obj_lit [Spread (sheet_get commonStyles ''row''), Prop ''alignItems'' (SStr ''flex-start'')]),
      (''iconContainer'', obj_lit [Prop ''width'' (SNum 40), Prop ''height'' (SNum 40), Prop ''borderRadius'' (SNum 20),
         Prop ''backgroundColor'' (colour background), Spread (sheet_get commonStyles ''center''),
         Prop ''marginRight'' (SNum 16)]),
      (''detailContent'', obj_lit [Prop ''flex'' (SNum 1)]),
      (''actionsContainer'', obj_lit [Prop ''marginTop'' (SNum 32), Prop ''marginBottom'' (SNum 16)]),
      (''actionButton'', obj_lit [Spread (sheet_get commonStyles ''row''), Spread (sheet_get commonStyles ''center''),
         Prop ''paddingVertical'' (SNum 16), Prop ''paddingHorizontal'' (SNum 24), Prop ''borderRadius'' (SNum 12),
         Prop ''marginBottom'' (SNum 12)])]"

definition deleteButtonStyle :: style where
  "deleteButtonStyle =
     flatten_style [Some (sheet_get details_styles ''actionButton''),
                    Some (obj_lit [Prop ''backgroundColor'' (colour error)])]"

subsection \<open>Settings screen\<close>

definition profile_styles :: style_sheet where
  "profile_styles =
     [(''header'', obj_lit [Prop ''marginBottom'' (SNum 24), Prop ''alignItems'' (SStr ''center'')]),
      (''permissionItem'', obj_lit [Spread (sheet_get commonStyles ''spaceBetween''), Prop ''paddingVertical'' (SNum 8)]),
      (''permissionInfo'', obj_lit [Prop ''flex'' (SNum 1)]),
      (''permissionButton'', obj_lit [Prop ''paddingHorizontal'' (SNum 16), Prop ''paddingVertical'' (SNum 8),
         Prop ''borderRadius'' (SNum 6), Prop ''borderWidth'' (SNum 1), Prop ''borderColor'' (colour primary)]),
      (''permissionSuccess'', obj_lit [Spread (sheet_get commonStyles ''row''), Prop ''marginTop'' (SNum 12),
         Prop ''paddingTop'' (SNum 12), Prop ''borderTopWidth'' (SNum 1), Prop ''borderTopColor'' (colour border)]),
      (''settingItem'', obj_lit [Spread (sheet_get commonStyles ''row''), Prop ''paddingVertical'' (SNum 12),
         Prop ''borderBottomWidth'' (SNum 1), Prop ''borderBottomColor'' (colour border)]),
      (''settingIcon'', obj_lit [Prop ''width'' (SNum 40), Prop ''height'' (SNum 40), Prop ''borderRadius'' (SNum 20),
         Prop ''backgroundColor'' (colour background), Spread (sheet_get commonStyles ''center''),
         Prop ''marginRight'' (SNum 12)]),
      (''settingContent'', obj_lit [Prop ''flex'' (SNum 1)]),
      (''calendarItem'', obj_lit [Spread (sheet_get commonStyles ''row''), Prop ''paddingVertical'' (SNum 12),
         Prop ''borderBottomWidth'' (SNum 1), Prop ''borderBottomColor'' (colour border)]),
      (''calendarColor'', obj_lit [Prop ''width'' (SNum 16), Prop ''height'' (SNum 16), Prop ''borderRadius'' (SNum 8),
         Prop ''marginRight'' (SNum 12)]),
      (''calendarInfo'', obj_lit [Prop ''flex'' (SNum 1)]),
      (''infoItem'', obj_lit [Spread (sheet_get commonStyles ''row''), Prop ''paddingVertical'' (SNum 12),
         Prop ''borderBottomWidth'' (SNum 1), Prop ''borderBottomColor'' (colour border)]),
      (''infoContent'', obj_lit [Prop ''marginLeft'' (SNum 12), Prop ''flex'' (SNum 1)])]"

text \<open>The colour dot of a calendar: \<open>calendar.color || colors.primary\<close>, a non-empty string or the primary colour.\<close>

definition calendarColorStyle :: "string option \<Rightarrow> style" where
  "calendarColorStyle c =
     flatten_style [Some (sheet_get profile_styles ''calendarColor''),
       Some (obj_lit [Prop ''backgroundColor''
         (case c of Some s \<Rightarrow> if s = [] then colour primary else SStr s | None \<Rightarrow> colour primary)])]"

declare form_styles_def [style_eval] details_styles_def [style_eval] profile_styles_def [style_eval]

subsection \<open>What the flattened styles read\<close>

text \<open>
  The save label greys out while saving; the all-day switch is the primary colour exactly
  when on, and the knob (26 wide, shown only when on) fits in the switch's 50 less its
  paddings; the description field is the text field made 100 high and top-aligned, its
  border kept.
\<close>

lemma saveTextStyle_colour:
  "style_get (saveTextStyle isLoading) ''color'' =
     Some (if isLoading then colour textSecondary else colour primary)"
  by (simp add: saveTextStyle_def style_eval)

lemma toggleStyle_colour:
  "style_get (toggleStyle isAllDay) ''backgroundColor'' =
     Some (if isAllDay then colour primary else colour border)"
  by (cases isAllDay) (simp_all add: toggleStyle_def style_eval)

lemma toggle_indicator_fits:
  "item_outer_width (sheet_get form_styles ''toggleIndicator'') + horizontal_inset (toggleStyle isAllDay) \<le>
   item_outer_width (toggleStyle isAllDay)"
  by (cases isAllDay) (simp_all add: toggleStyle_def style_eval box_eval)

lemma descriptionInputStyle_reads:
  "style_get descriptionInputStyle ''height'' = Some (SNum 100) \<and>
   style_get descriptionInputStyle ''textAlignVertical'' = Some (SStr ''top'') \<and>
   style_get descriptionInputStyle ''borderWidth'' = Some (SNum 1) \<and>
   horizontal_inset descriptionInputStyle = horizontal_inset (sheet_get form_styles ''textInput'')"
  by (simp add: descriptionInputStyle_def style_eval box_eval)

text \<open>A form label is body text in weight 600: the key after the spread overrides it.\<close>

lemma form_label_weight:
  "style_get (sheet_get form_styles ''label'') ''fontWeight'' = Some (SStr ''600'') \<and>
   style_get (sheet_get textStyles ''body'') ''fontWeight'' = Some (SStr ''400'') \<and>
   style_get (sheet_get form_styles ''label'') ''fontSize'' = style_get (sheet_get textStyles ''body'') ''fontSize''"
  by (simp add: style_eval)

text \<open>
  The details rows align their icon to the top (the key after the spread of \<open>row\<close>
  overrides its centring); the delete button is a row centred on both axes, red.
\<close>

lemma details_row_alignment:
  "style_get (sheet_get details_styles ''detailRow'') ''alignItems'' = Some (SStr ''flex-start'') \<and>
   style_get (sheet_get commonStyles ''row'') ''alignItems'' = Some (SStr ''center'')"
  by (simp add: style_eval)

lemma deleteButtonStyle_reads:
  "style_get deleteButtonStyle ''flexDirection'' = Some (SStr ''row'') \<and>
   style_get deleteButtonStyle ''alignItems'' = Some (SStr ''center'') \<and>
   style_get deleteButtonStyle ''justifyContent'' = Some (SStr ''center'') \<and>
   style_get deleteButtonStyle ''backgroundColor'' = Some (colour error)"
  by (simp add: deleteButtonStyle_def style_eval)

text \<open>
  The calendar dot and the setting icons are circles (square, radius half the side); the
  dot is the calendar's colour when it has a non-empty one, else the primary colour.
\<close>

lemma profile_circles:
  "map_option (\<lambda>r. 2 * r) (style_num (calendarColorStyle c) ''borderRadius'') = style_num (calendarColorStyle c) ''width'' \<and>
   style_num (calendarColorStyle c) ''height'' = style_num (calendarColorStyle c) ''width'' \<and>
   map_option (\<lambda>r. 2 * r) (style_num (sheet_get profile_styles ''settingIcon'') ''borderRadius'') =
     style_num (sheet_get profile_styles ''settingIcon'') ''width'' \<and>
   style_num (sheet_get profile_styles ''settingIcon'') ''height'' =
     style_num (sheet_get profile_styles ''settingIcon'') ''width''"
  by (simp add: calendarColorStyle_def style_eval)

lemma calendarColorStyle_colour:
  "style_get (calendarColorStyle c) ''backgroundColor'' =
     Some (case c of Some s \<Rightarrow> if s = [] then colour primary else SStr s | None \<Rightarrow> colour primary)"
  by (simp add: calendarColorStyle_def style_eval)

end
