(* ===== verification/Locale_Format.thy ===== *)
theory Locale_Format
  imports Screen_View
begin

text \<open>
  The Italian date labels the app prints with \<open>toLocaleDateString('it-IT', ...)\<close> and
  \<open>toLocaleTimeString('it-IT', ...)\<close>: the month header of the calendar screen
  (\<open>formatMonthYear\<close> and \<open>renderCalendarHeader\<close>, \<open>src/app/(tabs)/(home)/index.tsx\<close>
  lines 178-210) and the date and time buttons of the form (\<open>formatDate\<close>,
  \<open>formatTime\<close>, \<open>src/components/AddEventModal.tsx\<close> lines 117-131). The locale data
  (month and weekday names, the order of the fields, the year of the era for the
  \<open>numeric\<close> year, a 24-hour clock) is ECMA-402 with the CLDR Italian patterns, modelled
  from the documentation since it is not code of the repository; local time is UTC as
  everywhere in the development. The lemmas show the labels identify what they name: the
  header its month, the date button its day, the time button its minute.
\<close>

definition msPerHour :: int where
  [date_eval]: "msPerHour = 3600000"

definition msPerMinute :: int where
  [date_eval]: "msPerMinute = 60000"

definition HourFromTime :: "time_value \<Rightarrow> int" where
  [date_eval]: "HourFromTime t = (t div msPerHour) mod 24"

definition MinFromTime :: "time_value \<Rightarrow> int" where
  [date_eval]: "MinFromTime t = (t div msPerMinute) mod 60"

definition it_months_long :: "string list" where
  [date_eval]: "it_months_long = [''gennaio'', ''febbraio'', ''marzo'', ''aprile'', ''maggio'', ''giugno'',
     ''luglio'', ''agosto'', ''settembre'', ''ottobre'', ''novembre'', ''dicembre'']"

definition it_months_short :: "string list" where
  [date_eval]: "it_months_short = [''gen'', ''feb'', ''mar'', ''apr'', ''mag'', ''giu'', ''lug'', ''ago'', ''set'',
     ''ott'', ''nov'', ''dic'']"

definition it_weekdays_short :: "string list" where
  [date_eval]: "it_weekdays_short = [''dom'', ''lun'', ''mar'', ''mer'', ''gio'', ''ven'', ''sab'']"

text \<open>A \<open>numeric\<close> year is the year of the era: 1 BC, the proleptic year 0, prints as 1.\<close>

definition era_year :: "int \<Rightarrow> string" where
  [date_eval]: "era_year y = dec_digits (nat (if 0 < y then y else 1 - y))"

definition formatMonthYear :: "time_value \<Rightarrow> string" where
  [date_eval]: "formatMonthYear date = it_months_long ! nat (getMonth date) @ '' '' @ era_year (getFullYear date)"

record header_view =
  hv_label :: string
  hv_prev :: "screen_state \<Rightarrow> screen_state"
  hv_month :: "screen_state \<Rightarrow> screen_state"
  hv_next :: "screen_state \<Rightarrow> screen_state"

definition renderCalendarHeader :: "screen_state \<Rightarrow> header_view" where
  "renderCalendarHeader s =
     \<lparr>hv_label = formatMonthYear (currentDate s), hv_prev = navigateMonth Prev,
      hv_month = openDatePicker, hv_next = navigateMonth Next\<rparr>"

definition formatDate :: "time_value \<Rightarrow> string" where
  [date_eval]: "formatDate date =
     it_weekdays_short ! nat (getDay date) @ '' '' @ dec_digits (nat (getDate date)) @ '' '' @
     it_months_short ! nat (getMonth date) @ '' '' @ era_year (getFullYear date)"

definition formatTime :: "time_value \<Rightarrow> string" where
  [date_eval]: "formatTime date =
     zero_padded (nat (HourFromTime date)) 2 @ '':'' @ zero_padded (nat (MinFromTime date)) 2"

subsection \<open>Reading a label back\<close>

lemma dec_digits_digit: "c \<in> set (dec_digits n) \<Longrightarrow> \<exists>k::nat. k < 10 \<and> c = char_of (48 + k)"
proof (induction n rule: dec_digits.induct)
  case (1 n)
  show ?case
  proof (cases "n < 10")
    case True
    with "1.prems" show ?thesis by (auto simp: dec_digits.simps [of n] intro: exI [of _ n])
  next
    case False
    with "1.prems" have "c \<in> set (dec_digits (n div 10)) \<or> c = char_of (48 + n mod 10)"
      by (auto simp: dec_digits.simps [of n])
    moreover have "(n mod 10 :: nat) < 10" by simp
    ultimately show ?thesis using "1.IH" False by blast
  qed
qed

lemma dec_digits_no_space: "CHR '' '' \<notin> set (dec_digits n)"
proof
  assume "CHR '' '' \<in> set (dec_digits n)"
  then obtain k :: nat where k: "k < 10" "CHR '' '' = char_of (48 + k)" using dec_digits_digit by blast
  have "of_char (char_of (48 + k) :: char) = (48 + k :: nat)" using k(1) by (rule of_char_digit)
  with k(2) have "of_char (CHR '' '') = (48 + k :: nat)" by simp
  then show False by simp
qed

lemma append_space_inj:
  assumes "CHR '' '' \<notin> set a" "CHR '' '' \<notin> set c" "a @ CHR '' '' # b = c @ CHR '' '' # d"
  shows "a = c \<and> b = d"
  using assms
proof (induction a arbitrary: c)
  case Nil
  then show ?case by (cases c) auto
next
  case (Cons x a)
  then show ?case by (cases c) auto
qed

lemma nth_names_inj:
  assumes "distinct xs" "i < length xs" "j < length xs" "xs ! i = xs ! j"
  shows "i = j"
  using assms by (simp add: nth_eq_iff_index_eq)

lemma era_year_inj:
  assumes "0 < y" "0 < y'" "era_year y = era_year y'"
  shows "y = y'"
proof -
  have "dec_digits (nat y) = dec_digits (nat y')" using assms by (simp add: era_year_def)
  then have "digits_value (dec_digits (nat y)) = digits_value (dec_digits (nat y'))" by (rule arg_cong)
  then have "nat y = nat y'" by (simp only: digits_value_dec_digits)
  with assms(1,2) show ?thesis by simp
qed

lemma month_index_bounds: "0 \<le> getMonth t \<and> nat (getMonth t) < 12"
  using MonthFromTime_bounds [of t] by (auto simp: getMonth_def nat_less_iff)

lemmas locale_names_facts = it_months_long_def it_months_short_def it_weekdays_short_def

lemma locale_names_shape:
  "distinct it_months_long \<and> length it_months_long = 12 \<and> distinct it_months_short \<and>
   length it_months_short = 12 \<and> length it_weekdays_short = 7"
  by (simp add: locale_names_facts)

lemma locale_names_no_space:
  "(\<forall>x\<in>set it_months_long. CHR '' '' \<notin> set x) \<and> (\<forall>x\<in>set it_months_short. CHR '' '' \<notin> set x) \<and>
   (\<forall>x\<in>set it_weekdays_short. CHR '' '' \<notin> set x)"
  by (simp add: locale_names_facts)

lemma month_name_facts:
  assumes "i < 12"
  shows "CHR '' '' \<notin> set (it_months_long ! i) \<and> CHR '' '' \<notin> set (it_months_short ! i)"
  using nth_mem [of i it_months_long] nth_mem [of i it_months_short] assms locale_names_shape
    locale_names_no_space by auto

lemma weekday_name_facts:
  assumes "i < 7"
  shows "CHR '' '' \<notin> set (it_weekdays_short ! i)"
  using nth_mem [of i it_weekdays_short] assms locale_names_shape locale_names_no_space by auto

subsection \<open>The labels identify what they name\<close>

text \<open>
  C34: for years of the common era the month header names exactly the displayed month:
  two anchors print the same header iff they lie in the same month of the same year.
\<close>

theorem formatMonthYear_eq_iff:
  assumes "0 < getFullYear a" "0 < getFullYear b"
  shows "formatMonthYear a = formatMonthYear b \<longleftrightarrow> getFullYear a = getFullYear b \<and> getMonth a = getMonth b"
proof
  assume eq: "formatMonthYear a = formatMonthYear b"
  have ma: "0 \<le> getMonth a" "nat (getMonth a) < 12" and mb: "0 \<le> getMonth b" "nat (getMonth b) < 12"
    using month_index_bounds by auto
  from append_space_inj [OF conjunct1 [OF month_name_facts [OF ma(2)]] conjunct1 [OF month_name_facts [OF mb(2)]]] eq
  have n: "it_months_long ! nat (getMonth a) = it_months_long ! nat (getMonth b)"
    and y: "era_year (getFullYear a) = era_year (getFullYear b)"
    by (simp_all add: formatMonthYear_def)
  have "nat (getMonth a) = nat (getMonth b)"
    using n ma mb by (intro nth_names_inj [of it_months_long]) (use locale_names_shape in simp_all)
  then show "getFullYear a = getFullYear b \<and> getMonth a = getMonth b"
    using ma mb era_year_inj [OF assms y] by simp
qed (simp add: formatMonthYear_def)

text \<open>
  C33: the form's date button names exactly the day of the date: for years of the common
  era two dates print the same label iff they fall on the same day.
\<close>

theorem formatDate_eq_iff:
  assumes "0 < getFullYear a" "0 < getFullYear b"
  shows "formatDate a = formatDate b \<longleftrightarrow> Day a = Day b"
proof
  assume eq: "formatDate a = formatDate b"
  have ma: "0 \<le> getMonth a" "nat (getMonth a) < 12" and mb: "0 \<le> getMonth b" "nat (getMonth b) < 12"
    using month_index_bounds by auto
  have wa: "nat (getDay a) < 7" and wb: "nat (getDay b) < 7" by (simp_all add: getDay_def WeekDay_def)
  from append_space_inj [OF weekday_name_facts [OF wa] weekday_name_facts [OF wb]] eq
  have "dec_digits (nat (getDate a)) @ CHR '' '' # it_months_short ! nat (getMonth a) @ '' '' @ era_year (getFullYear a) =
        dec_digits (nat (getDate b)) @ CHR '' '' # it_months_short ! nat (getMonth b) @ '' '' @ era_year (getFullYear b)"
    by (simp add: formatDate_def)
  from append_space_inj [OF dec_digits_no_space dec_digits_no_space this]
  have d: "dec_digits (nat (getDate a)) = dec_digits (nat (getDate b))"
    and r: "it_months_short ! nat (getMonth a) @ CHR '' '' # era_year (getFullYear a) =
            it_months_short ! nat (getMonth b) @ CHR '' '' # era_year (getFullYear b)" by simp_all
  from append_space_inj [OF conjunct2 [OF month_name_facts [OF ma(2)]] conjunct2 [OF month_name_facts [OF mb(2)]] r]
  have n: "it_months_short ! nat (getMonth a) = it_months_short ! nat (getMonth b)"
    and y: "era_year (getFullYear a) = era_year (getFullYear b)" by simp_all
  have "nat (getMonth a) = nat (getMonth b)"
    using n ma mb by (intro nth_names_inj [of it_months_short]) (use locale_names_shape in simp_all)
  moreover have "nat (getDate a) = nat (getDate b)"
    using d digits_value_dec_digits by metis
  moreover have "1 \<le> getDate a" "1 \<le> getDate b"
    using DateFromTime_bounds [of a] DateFromTime_bounds [of b] by (simp_all add: getDate_def)
  ultimately have "YearFromTime a = YearFromTime b" "MonthFromTime a = MonthFromTime b" "DateFromTime a = DateFromTime b"
    using ma mb era_year_inj [OF assms y] by (simp_all add: getFullYear_def getMonth_def getDate_def)
  then show "Day a = Day b" using MakeDay_fields [of a] MakeDay_fields [of b] by simp
next
  assume "Day a = Day b"
  from fields_same_Day [OF this] show "formatDate a = formatDate b"
    by (simp add: formatDate_def getFullYear_def getMonth_def getDate_def getDay_def)
qed

lemma formatTime_parts:
  "formatTime t = zero_padded (nat (HourFromTime t)) 2 @ CHR '':'' # zero_padded (nat (MinFromTime t)) 2 \<and>
   length (zero_padded (nat (HourFromTime t)) 2) = 2 \<and> 0 \<le> HourFromTime t \<and> 0 \<le> MinFromTime t"
proof -
  have "0 \<le> HourFromTime t" "HourFromTime t < 24" by (simp_all add: HourFromTime_def)
  then have "nat (HourFromTime t) < 100" by linarith
  then show ?thesis by (simp add: formatTime_def zero_padded_length_2 MinFromTime_def HourFromTime_def)
qed

text \<open>
  C35: the form's time button names exactly the hour and minute of the time: two times
  print the same label iff their hours and minutes agree.
\<close>

theorem formatTime_eq_iff:
  "formatTime a = formatTime b \<longleftrightarrow> HourFromTime a = HourFromTime b \<and> MinFromTime a = MinFromTime b"
proof
  assume eq: "formatTime a = formatTime b"
  have pa: "formatTime a = zero_padded (nat (HourFromTime a)) 2 @ CHR '':'' # zero_padded (nat (MinFromTime a)) 2"
    "length (zero_padded (nat (HourFromTime a)) 2) = 2" "0 \<le> HourFromTime a" "0 \<le> MinFromTime a"
    using formatTime_parts [of a] by auto
  have pb: "formatTime b = zero_padded (nat (HourFromTime b)) 2 @ CHR '':'' # zero_padded (nat (MinFromTime b)) 2"
    "length (zero_padded (nat (HourFromTime b)) 2) = 2" "0 \<le> HourFromTime b" "0 \<le> MinFromTime b"
    using formatTime_parts [of b] by auto
  from eq pa(1) pb(1) pa(2) pb(2)
  have "zero_padded (nat (HourFromTime a)) 2 = zero_padded (nat (HourFromTime b)) 2"
    "zero_padded (nat (MinFromTime a)) 2 = zero_padded (nat (MinFromTime b)) 2"
    by (simp_all add: append_eq_append_conv)
  then have "digits_value (zero_padded (nat (HourFromTime a)) 2) = digits_value (zero_padded (nat (HourFromTime b)) 2)"
    "digits_value (zero_padded (nat (MinFromTime a)) 2) = digits_value (zero_padded (nat (MinFromTime b)) 2)"
    by simp_all
  then have "nat (HourFromTime a) = nat (HourFromTime b)" "nat (MinFromTime a) = nat (MinFromTime b)"
    by (simp_all only: digits_value_zero_padded)
  with pa(3,4) pb(3,4) show "HourFromTime a = HourFromTime b \<and> MinFromTime a = MinFromTime b"
    by (simp add: eq_nat_nat_iff)
qed (simp add: formatTime_def)

text \<open>
  Pressing the header's "next" button on a day up to the 28th shows the following month's
  name and year in the header.
\<close>

lemma renderCalendarHeader_next_label:
  assumes "getDate (currentDate s) \<le> 28"
  shows "hv_label (renderCalendarHeader (hv_next (renderCalendarHeader s) s)) =
     it_months_long ! nat ((getMonth (currentDate s) + 1) mod 12) @ '' '' @
     era_year (getFullYear (currentDate s) + (getMonth (currentDate s) + 1) div 12)"
proof -
  let ?t = "currentDate s" and ?m = "MonthFromTime (currentDate s) + 1"
  have "DateFromTime ?t \<le> days_in_month (YearFromTime ?t + ?m div 12) (?m mod 12)"
    using assms days_in_month_ge_28 [of "YearFromTime ?t + ?m div 12" ?m] by (simp add: getDate_def)
  from setMonth_fields [OF this] show ?thesis
    by (simp add: renderCalendarHeader_def navigateMonth_current formatMonthYear_def getMonth_def getFullYear_def)
qed

lemma locale_labels_example:
  "formatMonthYear 1710158400000 = ''marzo 2024'' \<and> formatDate 1710158400000 = ''lun 11 mar 2024'' \<and>
   formatTime 1710163800000 = ''13:30''"
proof -
  have f: "getFullYear 1710158400000 = 2024" "getMonth 1710158400000 = 2" "getDate 1710158400000 = 11"
    "getDay 1710158400000 = 1" "HourFromTime 1710163800000 = 13" "MinFromTime 1710163800000 = 30"
    by (simp_all add: date_eval getFullYear_def getMonth_def getDate_def getDay_def)
  have d: "dec_digits 2024 = ''2024''" "dec_digits 11 = ''11''" "dec_digits 13 = ''13''" "dec_digits 30 = ''30''"
    by (simp_all add: dec_digits.simps char_of_def bit_0)
  show ?thesis
    by (simp add: formatMonthYear_def formatDate_def formatTime_def era_year_def zero_padded_def f d
      locale_names_facts)
qed


theorem formatMonthYear_eq_iff_witness:
  "0 < getFullYear 1710158400000 \<and> 0 < getFullYear 1709251200000 \<and>
   formatMonthYear 1710158400000 = formatMonthYear 1709251200000 \<and>
   formatMonthYear 1710158400000 \<noteq> formatMonthYear 1706745600000"
proof -
  have f: "getFullYear 1710158400000 = 2024" "getFullYear 1709251200000 = 2024" "getFullYear 1706745600000 = 2024"
    "getMonth 1710158400000 = 2" "getMonth 1709251200000 = 2" "getMonth 1706745600000 = 1"
    by (simp_all add: date_eval getFullYear_def getMonth_def)
  have p: "0 < getFullYear 1710158400000" "0 < getFullYear 1709251200000" "0 < getFullYear 1706745600000"
    using f by simp_all
  show ?thesis
    using formatMonthYear_eq_iff [OF p(1,2)] formatMonthYear_eq_iff [OF p(1,3)] p f by simp
qed

theorem formatDate_eq_iff_witness:
  "0 < getFullYear 1710158400000 \<and> 0 < getFullYear 1710163800000 \<and>
   formatDate 1710158400000 = formatDate 1710163800000 \<and>
   formatDate 1710158400000 \<noteq> formatDate 1710244800000"
proof -
  have f: "getFullYear 1710158400000 = 2024" "getFullYear 1710163800000 = 2024" "getFullYear 1710244800000 = 2024"
    by (simp_all add: date_eval getFullYear_def)
  have p: "0 < getFullYear 1710158400000" "0 < getFullYear 1710163800000" "0 < getFullYear 1710244800000"
    using f by simp_all
  have d: "Day 1710158400000 = Day 1710163800000" "Day 1710158400000 \<noteq> Day 1710244800000"
    by (simp_all add: Day_def msPerDay_def)
  show ?thesis
    using formatDate_eq_iff [OF p(1,2)] formatDate_eq_iff [OF p(1,3)] p d by simp
qed

end
