(* ===== verification/Spec2Isabelle.thy ===== *)
theory Spec2Isabelle
  imports Grid_Loops Event_Details Settings Tab_Layout Calendar_System Grid_Layout Screen_Styles Locale_Format
begin

text \<open>
  \<^bold>\<open>A verification library for the calendar app (creami-digital-calendar).\<close>

  The app (React Native, TypeScript) has two tabs (\<open>src/app/(tabs)/_layout.tsx\<close>):
  the calendar screen \<open>src/app/(tabs)/(home)/index.tsx\<close> and the settings screen
  \<open>src/app/(tabs)/profile.tsx\<close>. The calendar screen builds a month grid
  (\<open>getDaysInMonth\<close>), lists the events of a day (\<open>getEventsForDate\<close>), navigates
  months (\<open>navigateMonth\<close>), loads the month's events from the device calendar store
  (expo-calendar) asynchronously (\<open>loadEvents\<close>, \<open>handleRefresh\<close>, the effect on
  \<open>[calendarPermission, currentDate]\<close>) and opens the form
  \<open>src/components/AddEventModal.tsx\<close>, which validates, normalises and stores a new
  event and then asks the screen to reload. \<open>src/components/EventDetailsModal.tsx\<close>
  shows and deletes an event; \<open>src/styles/commonStyles.ts\<close> holds the colours and the
  shared style sheets, which every screen combines with its own sheet.

  Theories, in import order, with the claims (C1-C35) they hold:
  \<^item> \<open>Cal_Prelude\<close>: \<open>time_value\<close> (milliseconds since the epoch, \<open>int\<close>), the
    \<open>date_eval\<close> collection used to evaluate witnesses, facts on \<open>div\<close>/\<open>mod\<close> and lists.
  \<^item> \<open>Js_Date\<close>: the ECMAScript date arithmetic the code calls (\<open>Day\<close>,
    \<open>YearFromTime\<close>, \<open>MonthFromTime\<close>, \<open>DateFromTime\<close>, \<open>WeekDay\<close>,
    \<open>MakeDay\<close>, \<open>MakeDate\<close>, \<open>new Date(y, m, d, ...)\<close> as \<open>Date_new\<close>, the getters,
    \<open>setMonth\<close>), from the language specification since it is not code of the
    repository; a reference Gregorian calendar; lemmas: the fast year computation is the
    specified greatest year, fields round-trip through the constructor, the weekday is
    Sakamoto's.
  \<^item> \<open>Date_String\<close>: \<open>toDateString\<close> as a string, with a decoder proving that two
    time values print alike exactly when they fall on the same day.
  \<^item> \<open>Month_Grid\<close>: \<open>getDaysInMonth\<close> and the spec's \<open>buildMonthGrid\<close>: refinement
    (C1), weekday columns (C2), at most six rows (C3). \<open>Grid_Loops\<close>: its two
    \<open>for\<close> loops as written, as functions terminating by the measure "bound minus
    counter", and a lemma that they compute the replicate/map form of \<open>Month_Grid\<close>.
  \<^item> \<open>Event_Locator\<close>: \<open>CalendarEvent\<close> as a record, \<open>getEventsForDate\<close> and the
    day-span contract \<open>eventsOnDate\<close>: refinement (C4), the spec's examples (C5-C7).
  \<^item> \<open>Calendar_Screen\<close>: the screen's \<open>useState\<close> hooks as a record, one function per
    synchronous handler; month navigation round-trips from days 1-28 (C8), moves to the
    next month exactly when the day exists there (C9), and "next" then "previous" returns
    to the same date exactly when its day exists in the next month (C10).
  \<^item> \<open>Screen_Fetch\<close>: the device store (from the spec), \<open>loadEvents\<close> with its window and
    record mapping, and the screen as an event-driven run (\<open>app_apply\<close>, \<open>app_run\<close>,
    the inductive \<open>reachable_by\<close>): each \<open>loadEvents\<close> call is a pending fetch holding
    its closure's date and permission that completes or fails whenever the environment
    chooses. In-order completion shows the displayed month (C11); when the responses
    differ, the first month's response completing last is what the screen keeps (C12);
    the refresh indicator settles (C13).
  \<^item> \<open>Screen_View\<close>: view models of \<open>renderCalendarGrid\<close>,
    \<open>renderSelectedDateEvents\<close> and the screen tree: dots and "+n" count every event
    (C19), the selected cell agrees with the day list (C20), exactly one cell is selected
    in the selected month (C21), after "today" exactly one cell is today and it is
    the selected one (C29).
  \<^item> \<open>Add_Event_Form\<close>: the form's state, \<open>validateForm\<close> (\<open>trim\<close> with the
    white space of JavaScript's Latin-1 range), \<open>handleSaveEvent\<close>, the pickers, text
    fields and rendered form: invalid forms never reach the store (C15), a reported
    success stores one well-formed event (C16), the start pickers keep the end after the
    start (C17, C18), a failed save keeps the store and the user's input (C26), a created
    all-day event is listed on exactly its days (C27), and an all-day start or end in a
    year 0..99 is stored 1900 years later (C28).
  \<^item> \<open>Styles\<close>, \<open>Event_Details\<close>, \<open>Settings\<close>, \<open>Tab_Layout\<close>: the colour table;
    deletion and \<open>formatDateTime\<close> (C22, C23); the settings screen as an inductive
    reachability over its asynchronous calls, its permission text never falling to the
    default (C24) and its calendar count reading back (C30); the tab layout per platform.
  \<^item> \<open>Calendar_System\<close>: the screen, the form and the device store as one system
    (\<open>sys_apply\<close>, \<open>sys_enabled\<close>, the inductive \<open>sys_reachable\<close>) with the form's
    callbacks wired as in \<open>index.tsx\<close> and a store that changes during the run: an
    event saved in the displayed month is on the screen once the alert's OK and the reload
    it queues have run (C25), and every event the app writes is well formed (C31).
  \<^item> \<open>Style_Sheets\<close>: styles as JavaScript objects (association lists with one entry per
    key, built by object literals with spread), \<open>buttonStyles\<close>, \<open>textStyles\<close> and
    \<open>commonStyles\<close>, and style arrays flattened with the later style winning; every style
    built keeps one entry per key.
  \<^item> \<open>Yoga_Layout\<close>: the layout engine's horizontal box model (margins, paddings, borders,
    stretched children) and the line breaking of a wrapping row, modelled from Yoga's
    documented behaviour since it is not code of the repository; every item lands on one
    non-empty line, and no line holds \<open>k\<close> items when \<open>k\<close> of them overflow it.
  \<^item> \<open>Screen_Styles\<close>: the style sheets of the form, the details view and the settings
    screen, with the style arrays they build from state (the save label greys while saving,
    the all-day switch is coloured exactly when on, keys written after a spread override it).
  \<^item> \<open>Grid_Layout\<close>: \<open>CELL_SIZE\<close>, the calendar screen's style sheet and the style arrays of
    a day cell, and the boxes around the grid (safe area, scroll view, \<open>content\<close>, the
    card). The grid's content is the window less 64 pixels while seven cells need the
    window less 32 plus margins, so no line of the grid holds seven cells (C32); March 2024
    on a 390-pixel screen takes seven lines; the week-day header overflows the card by 32
    pixels; a selected today cell shows white on yellow.
  \<^item> \<open>Locale_Format\<close>: the Italian labels of \<open>toLocaleDateString\<close> and
    \<open>toLocaleTimeString\<close> for the option sets the app uses (ECMA-402 with CLDR's Italian
    patterns, from the documentation), the month header \<open>renderCalendarHeader\<close> and the
    form's \<open>formatDate\<close> and \<open>formatTime\<close>: for years of the common era the date button
    names exactly its day (C33) and the header exactly its month (C34); the time button
    names exactly its minute (C35); "next" on a day up to the 28th shows the following
    month's name.
  \<^item> This theory: events within the last day of a month after its midnight are never on
    the screen, in any reachable state (C14).

  Findings the theorems record: a year 0..99 makes \<open>new Date\<close> build the 1900s
  (hypotheses of C1, C4, C28); an event ending at midnight is also listed on the next day
  (C7); \<open>setMonth\<close> overflows from the 29th-31st, so "next" then "previous" from 31
  January lands on 2 February (C10); nothing cancels or orders the fetches, so a stale
  response overwrites a newer one (C12); the fetch window ends at midnight starting the
  last day (C14); all-day events end at 23:59:59 rather than midnight (C16); an all-day
  event across the years 99/100 is stored ending before it starts (C28 and the lemma
  \<open>handleSaveEvent_all_day_year_99\<close>); the month grid never lays out seven cells a line,
  against the spec's seven-column grid (C32); the highlight of a selected today cell
  hides the selection (\<open>day_cell_colours\<close>); the form keeps the date selected at mount;
  the details view is never rendered; the week-start switch has no effect.

  Modelling choices. Local time is UTC (a fixed zone without daylight saving), so the
  getters read the time value directly; \<open>TimeClip\<close>, NaN and invalid dates are not
  modelled. The device store is fixed during a run of the screen alone (\<open>Screen_Fetch\<close>)
  and changes with the form's saves in \<open>Calendar_System\<close>; store failures and the
  statuses the OS reports are arguments chosen by the environment. No fuel is needed:
  every loop of the code is a terminating function (the grid loops, by the measure
  "bound minus counter"), and the asynchronous behaviour is a run over an explicit list
  of events, so reachability quantifies over finite runs. Widths are exact rationals of
  the window width, which is a parameter; the safe area has no horizontal insets.

  Not modelled: the locale labels other than the month header and the form's buttons
  (the day list's title, the event cards' times and the details view's
  \<open>formatDateTime\<close> keep the time value, or take the label as a parameter); the layout engine's vertical axis, flex growth and shrinking,
  alignment and the \<open>gap\<close> of a row (no property depends on them); floating-point
  rounding of widths (exact rationals are used); the iOS/Android widgets themselves
  (\<open>Modal\<close>, \<open>ScrollView\<close>, the native date picker, whose chosen value is an argument
  of its handler); console logging.
\<close>

text \<open>A device calendar holding one event of calendar \<open>''1''\<close> from \<open>s\<close> to \<open>e\<close>.\<close>

definition one_event_store :: "time_value \<Rightarrow> time_value \<Rightarrow> device_store" where
  "one_event_store s e =
     \<lparr>calendars = [\<lparr>cal_id = ''1'', cal_title = ''Personale'', cal_color = None, cal_source_name = ''iCloud'',
        allowsModifications = True\<rparr>],
      store_events = [\<lparr>raw_id = ''e1'', raw_calendarId = ''1'', raw_title = ''Palestra'',
        raw_startDate = s, raw_endDate = e, raw_notes = None, raw_location = None, raw_allDay = None\<rparr>]\<rparr>"

section \<open>Properties across components\<close>

lemma TimeWithinDay_nonneg: "0 \<le> TimeWithinDay t"
  by (simp add: TimeWithinDay_def msPerDay_def)

lemma one_event_store_run:
  "app_run (one_event_store s e) (initial_app now) [PermissionResolved Granted, FetchDone 0] =
     \<lparr>screen = (initial_screen now)\<lparr>calendarPermission := Granted,
        events := map formatEvent (getEventsAsync (one_event_store s e) [''1'']
          (fst (load_window now)) (snd (load_window now)))\<rparr>,
      pending = []\<rparr>"
  by (cases "load_window now")
    (simp add: app_run_def initial_app_def initial_screen_def run_effect_def call_loadEvents_def
      complete_fetch_def fetch_result_def one_event_store_def remove_nth_def)

text \<open>
  C14: the screen never holds an event that lies within the last day of a month and starts
  after that day's midnight, in any reachable state: \<open>loadEvents\<close> asks the store for
  the range from the 1st to \<open>new Date(y, m + 1, 0)\<close>, which is midnight at the
  start of the last day, and the next month's range starts a day later.
\<close>

theorem loaded_events_skip_last_day:
  assumes "reachable_by ok st now a" and "ev \<in> set (events (screen a))"
    and "DateFromTime (startDate ev) = days_in_month (YearFromTime (startDate ev)) (MonthFromTime (startDate ev))"
    and "Day (endDate ev) = Day (startDate ev)"
  shows "TimeWithinDay (startDate ev) = 0"
proof (rule ccontr)
  assume "TimeWithinDay (startDate ev) \<noteq> 0"
  then have late: "0 < TimeWithinDay (startDate ev)" using TimeWithinDay_nonneg [of "startDate ev"] by simp
  obtain c e where e: "e \<in> set (getEventsAsync st (map cal_id (calendars st)) (fst (load_window c)) (snd (load_window c)))"
    and ev: "ev = formatEvent e"
    using reachable_loaded_inv [OF assms(1)] assms(2) unfolding loaded_inv_def by blast
  from ev assms(3,4) late have "e \<notin> set (getEventsAsync st (map cal_id (calendars st)) (fst (load_window c)) (snd (load_window c)))"
    by (intro window_misses_last_day) simp_all
  with e show False by simp
qed

theorem loaded_events_skip_last_day_witness:
  "let st = one_event_store 1711843200000 1711845000000;
       a = app_run st (initial_app 1710504000000) [PermissionResolved Granted, FetchDone 0];
       ev = formatEvent (hd (store_events st))
   in ev \<in> set (events (screen a)) \<and>
      DateFromTime (startDate ev) = days_in_month (YearFromTime (startDate ev)) (MonthFromTime (startDate ev)) \<and>
      Day (endDate ev) = Day (startDate ev) \<and> TimeWithinDay (startDate ev) = 0"
proof -
  let ?st = "one_event_store 1711843200000 1711845000000"
  let ?a = "app_run ?st (initial_app 1710504000000) [PermissionResolved Granted, FetchDone 0]"
  let ?ev = "formatEvent (hd (store_events ?st))"
  have r: "reachable_by (\<lambda>_. True) ?st 1710504000000 ?a" by (rule reachable_run_example) simp
  have w: "load_window 1710504000000 = (1709251200000, 1711843200000)"
    by (simp add: load_window_def date_eval)
  have h1: "?ev \<in> set (events (screen ?a))"
    unfolding one_event_store_run w by (simp add: getEventsAsync_def one_event_store_def)
  have h: "?ev \<in> set (events (screen ?a))"
    "DateFromTime (startDate ?ev) = days_in_month (YearFromTime (startDate ?ev)) (MonthFromTime (startDate ?ev))"
    "Day (endDate ?ev) = Day (startDate ?ev)"
    using h1 by (simp_all add: one_event_store_def date_eval)
  show ?thesis using loaded_events_skip_last_day [OF r h] h by (simp add: Let_def)
qed

end
